theory Spec2Isabelle
  imports Complex_Main "HOL-Library.AList" "HOL-Library.Multiset"
begin

section \<open>JavaScript values used by the server\<close>

text \<open>
  Strings are lists of code units; the model covers code units below 256 (the type
  \<open>char\<close>), which includes every address, status, severity and title the server
  handles. Numbers that the server uses as ids, counters, block numbers, token counts
  and millisecond time stamps are integers (\<open>int\<close>): JavaScript's numbers are
  exact on the integers below \<open>2 ^ 53\<close>, far beyond what a counter of an in-memory
  map can reach. A \<open>Date\<close> is its \<open>getTime()\<close> value. A thrown \<open>Error\<close> is a
  value of \<open>js_error\<close>, and a function that may throw returns \<open>js_error + 'a\<close>.
\<close>

text \<open>
  A value as the store keeps it in \<open>abi\<close> and \<open>eventData\<close>. The in-memory store
  keeps the value it is given, so next to the JSON values there is the BigInt, which the
  \<open>ethers\<close> library returns for an integer of the chain. The members of an object are
  listed in the order of its keys.
\<close>

datatype json =
    JNull
  | JBool bool
  | JNum int
  | JBigInt int
  | JStr string
  | JArr "json list"
  | JObj "(string \<times> json) list"

type_synonym Date = int

datatype js_error = Error (message: string)

text \<open>Truthiness, as the operator \<open>||\<close> and the conditional read it.\<close>

definition truthy_string :: "string \<Rightarrow> bool" where
  "truthy_string s = (s \<noteq> [])"

definition truthy_number :: "int \<Rightarrow> bool" where
  "truthy_number n = (n \<noteq> 0)"

definition truthy_boolean :: "bool \<Rightarrow> bool" where
  "truthy_boolean b = b"

fun truthy_json :: "json \<Rightarrow> bool" where
  "truthy_json JNull = False"
| "truthy_json (JBool b) = b"
| "truthy_json (JNum n) = (n \<noteq> 0)"
| "truthy_json (JBigInt n) = (n \<noteq> 0)"
| "truthy_json (JStr s) = (s \<noteq> [])"
| "truthy_json (JArr xs) = True"
| "truthy_json (JObj kvs) = True"

text \<open>
  \<open>x || d\<close> for an optional \<open>x\<close> (\<open>None\<close> is \<open>undefined\<close> or \<open>null\<close>):
  \<open>or_else\<close> when \<open>d\<close> is a value, \<open>or_null\<close> when \<open>d\<close> is \<open>null\<close>.
\<close>

definition or_else :: "('a \<Rightarrow> bool) \<Rightarrow> 'a option \<Rightarrow> 'a \<Rightarrow> 'a" where
  "or_else truthy x d = (case x of None \<Rightarrow> d | Some v \<Rightarrow> if truthy v then v else d)"

definition or_null :: "('a \<Rightarrow> bool) \<Rightarrow> 'a option \<Rightarrow> 'a option" where
  "or_null truthy x = (case x of None \<Rightarrow> None | Some v \<Rightarrow> if truthy v then Some v else None)"

text \<open>
  \<open>String.prototype.toLowerCase\<close> on code units below 256: the ASCII capitals and the
  Latin-1 capitals (U+00C0 to U+00DE without the multiplication sign U+00D7) move up
  by 32, every other code unit stays.
\<close>

definition toLowerCase_char :: "char \<Rightarrow> char" where
  "toLowerCase_char c =
     (let n = (of_char c :: nat)
      in if (65 \<le> n \<and> n \<le> 90) \<or> (192 \<le> n \<and> n \<le> 222 \<and> n \<noteq> 215)
         then char_of (n + 32) else c)"

definition toLowerCase :: "string \<Rightarrow> string" where
  "toLowerCase s = map toLowerCase_char s"

text \<open>
  \<open>Array.prototype.sort(cmp)\<close> is a stable sort: elements that compare equal keep
  their order. \<open>Array.prototype.slice(0, end)\<close> counts a negative \<open>end\<close> from the
  end of the array.
\<close>

fun insert_by :: "('a \<Rightarrow> 'a \<Rightarrow> int) \<Rightarrow> 'a \<Rightarrow> 'a list \<Rightarrow> 'a list" where
  "insert_by cmp x [] = [x]"
| "insert_by cmp x (y # ys) = (if cmp x y \<le> 0 then x # y # ys else y # insert_by cmp x ys)"

definition Array_sort :: "('a \<Rightarrow> 'a \<Rightarrow> int) \<Rightarrow> 'a list \<Rightarrow> 'a list" where
  "Array_sort cmp xs = foldr (insert_by cmp) xs []"

definition Array_slice0 :: "'a list \<Rightarrow> int \<Rightarrow> 'a list" where
  "Array_slice0 xs end =
     (let len = int (length xs);
          final = (if end < 0 then max (len + end) 0 else min end len)
      in take (nat final) xs)"

text \<open>
  A \<open>Map\<close> keeps its entries in insertion order; \<open>set\<close> on a key that is present
  replaces the value in place, and on a new key appends the entry.
\<close>

type_synonym 'a Map = "(int \<times> 'a) list"

definition Map_get :: "'a Map \<Rightarrow> int \<Rightarrow> 'a option" where
  "Map_get m k = map_of m k"

definition Map_set :: "'a Map \<Rightarrow> int \<Rightarrow> 'a \<Rightarrow> 'a Map" where
  "Map_set m k v = AList.update k v m"

definition Map_values :: "'a Map \<Rightarrow> 'a list" where
  "Map_values m = map snd m"

definition Map_keys :: "'a Map \<Rightarrow> int list" where
  "Map_keys m = map fst m"

section \<open>The schema (shared/schema.ts)\<close>

record InsertUser =
  ins_user_username :: string
  ins_user_password :: string

record User =
  user_id :: int
  user_username :: string
  user_password :: string

record InsertContract =
  ins_contract_name :: string
  ins_contract_address :: string
  ins_contract_type :: string
  ins_contract_abi :: "json option"
  ins_contract_status :: "string option"

record Contract =
  contract_id :: int
  contract_name :: string
  contract_address :: string
  contract_type :: string
  contract_abi :: "json option"
  contract_status :: string
  contract_addedAt :: Date

record InsertAlert =
  ins_alert_contractId :: int
  ins_alert_severity :: string
  ins_alert_title :: string
  ins_alert_description :: string
  ins_alert_aiAnalysis :: "string option"
  ins_alert_resolved :: "bool option"

record Alert =
  alert_id :: int
  alert_contractId :: int
  alert_severity :: string
  alert_title :: string
  alert_description :: string
  alert_aiAnalysis :: "string option"
  alert_createdAt :: Date
  alert_resolved :: bool

record InsertEvent =
  ins_event_contractId :: int
  ins_event_eventName :: string
  ins_event_blockNumber :: int
  ins_event_transactionHash :: string
  ins_event_eventData :: json

record Event =
  event_id :: int
  event_contractId :: int
  event_eventName :: string
  event_blockNumber :: int
  event_transactionHash :: string
  event_eventData :: json
  event_timestamp :: Date

record InsertAiQuery =
  ins_query_contractId :: int
  ins_query_query :: string
  ins_query_response :: "string option"
  ins_query_tokenCount :: "int option"

record AiQuery =
  query_id :: int
  query_contractId :: int
  query_query :: string
  query_response :: "string option"
  query_tokenCount :: "int option"
  query_createdAt :: Date

section \<open>The in-memory store (server/storage.ts)\<close>

record MemStorage =
  users :: "User Map"
  contracts :: "Contract Map"
  alerts :: "Alert Map"
  events :: "Event Map"
  aiQueries :: "AiQuery Map"
  userCurrentId :: int
  contractCurrentId :: int
  alertCurrentId :: int
  eventCurrentId :: int
  aiQueryCurrentId :: int

text \<open>
  Every operation takes the store and returns its result with the store it leaves.
  An operation that reads the clock (\<open>new Date()\<close>) takes the time it reads as
  \<open>now\<close>.
\<close>

definition getUser :: "int \<Rightarrow> MemStorage \<Rightarrow> User option" where
  "getUser id' s = Map_get (users s) id'"

definition getUserByUsername :: "string \<Rightarrow> MemStorage \<Rightarrow> User option" where
  "getUserByUsername username s =
     find (\<lambda>user. user_username user = username) (Map_values (users s))"

definition createUser :: "InsertUser \<Rightarrow> MemStorage \<Rightarrow> User \<times> MemStorage" where
  "createUser insertUser s =
     (let id' = userCurrentId s;
          s1 = s\<lparr>userCurrentId := userCurrentId s + 1\<rparr>;
          user = \<lparr>user_id = id',
                  user_username = ins_user_username insertUser,
                  user_password = ins_user_password insertUser\<rparr>
      in (user, s1\<lparr>users := Map_set (users s1) id' user\<rparr>))"

definition getContracts :: "MemStorage \<Rightarrow> Contract list" where
  "getContracts s = Map_values (contracts s)"

definition getContract :: "int \<Rightarrow> MemStorage \<Rightarrow> Contract option" where
  "getContract id' s = Map_get (contracts s) id'"

definition getContractByAddress :: "string \<Rightarrow> MemStorage \<Rightarrow> Contract option" where
  "getContractByAddress address s =
     find (\<lambda>contract. toLowerCase (contract_address contract) = toLowerCase address)
       (Map_values (contracts s))"

definition createContract :: "InsertContract \<Rightarrow> Date \<Rightarrow> MemStorage \<Rightarrow> Contract \<times> MemStorage" where
  "createContract insertContract now s =
     (let id' = contractCurrentId s;
          s1 = s\<lparr>contractCurrentId := contractCurrentId s + 1\<rparr>;
          contract = \<lparr>contract_id = id',
                      contract_name = ins_contract_name insertContract,
                      contract_address = ins_contract_address insertContract,
                      contract_type = ins_contract_type insertContract,
                      contract_abi = or_null truthy_json (ins_contract_abi insertContract),
                      contract_status =
                        or_else truthy_string (ins_contract_status insertContract) ''HEALTHY'',
                      contract_addedAt = now\<rparr>
      in (contract, s1\<lparr>contracts := Map_set (contracts s1) id' contract\<rparr>))"

definition updateContractStatus :: "int \<Rightarrow> string \<Rightarrow> MemStorage \<Rightarrow> Contract option \<times> MemStorage" where
  "updateContractStatus id' status s =
     (case Map_get (contracts s) id' of
        None \<Rightarrow> (None, s)
      | Some contract \<Rightarrow>
          (let updatedContract = contract\<lparr>contract_status := status\<rparr>
           in (Some updatedContract,
               s\<lparr>contracts := Map_set (contracts s) id' updatedContract\<rparr>)))"

definition getAlerts :: "MemStorage \<Rightarrow> Alert list" where
  "getAlerts s = Map_values (alerts s)"

definition getAlertsByContract :: "int \<Rightarrow> MemStorage \<Rightarrow> Alert list" where
  "getAlertsByContract contractId s =
     filter (\<lambda>alert. alert_contractId alert = contractId) (Map_values (alerts s))"

definition getActiveAlerts :: "MemStorage \<Rightarrow> Alert list" where
  "getActiveAlerts s = filter (\<lambda>alert. \<not> alert_resolved alert) (Map_values (alerts s))"

definition createAlert :: "InsertAlert \<Rightarrow> Date \<Rightarrow> MemStorage \<Rightarrow> Alert \<times> MemStorage" where
  "createAlert insertAlert now s =
     (let id' = alertCurrentId s;
          s1 = s\<lparr>alertCurrentId := alertCurrentId s + 1\<rparr>;
          alert = \<lparr>alert_id = id',
                   alert_contractId = ins_alert_contractId insertAlert,
                   alert_severity = ins_alert_severity insertAlert,
                   alert_title = ins_alert_title insertAlert,
                   alert_description = ins_alert_description insertAlert,
                   alert_aiAnalysis = or_null truthy_string (ins_alert_aiAnalysis insertAlert),
                   alert_createdAt = now,
                   alert_resolved = or_else truthy_boolean (ins_alert_resolved insertAlert) False\<rparr>
      in (alert, s1\<lparr>alerts := Map_set (alerts s1) id' alert\<rparr>))"

definition resolveAlert :: "int \<Rightarrow> MemStorage \<Rightarrow> Alert option \<times> MemStorage" where
  "resolveAlert id' s =
     (case Map_get (alerts s) id' of
        None \<Rightarrow> (None, s)
      | Some alert \<Rightarrow>
          (let resolvedAlert = alert\<lparr>alert_resolved := True\<rparr>
           in (Some resolvedAlert, s\<lparr>alerts := Map_set (alerts s) id' resolvedAlert\<rparr>)))"

definition by_timestamp_desc :: "Event \<Rightarrow> Event \<Rightarrow> int" where
  "by_timestamp_desc a b = event_timestamp b - event_timestamp a"

definition getEvents :: "int option \<Rightarrow> MemStorage \<Rightarrow> Event list" where
  "getEvents limit s =
     (let events = Array_sort by_timestamp_desc (Map_values (events s))
      in case limit of
           None \<Rightarrow> events
         | Some n \<Rightarrow> if truthy_number n then Array_slice0 events n else events)"

definition getEventsByContract :: "int \<Rightarrow> int option \<Rightarrow> MemStorage \<Rightarrow> Event list" where
  "getEventsByContract contractId limit s =
     (let events = Array_sort by_timestamp_desc
                     (filter (\<lambda>event. event_contractId event = contractId)
                        (Map_values (events s)))
      in case limit of
           None \<Rightarrow> events
         | Some n \<Rightarrow> if truthy_number n then Array_slice0 events n else events)"

definition createEvent :: "InsertEvent \<Rightarrow> Date \<Rightarrow> MemStorage \<Rightarrow> Event \<times> MemStorage" where
  "createEvent insertEvent now s =
     (let id' = eventCurrentId s;
          s1 = s\<lparr>eventCurrentId := eventCurrentId s + 1\<rparr>;
          event = \<lparr>event_id = id',
                   event_contractId = ins_event_contractId insertEvent,
                   event_eventName = ins_event_eventName insertEvent,
                   event_blockNumber = ins_event_blockNumber insertEvent,
                   event_transactionHash = ins_event_transactionHash insertEvent,
                   event_eventData = ins_event_eventData insertEvent,
                   event_timestamp = now\<rparr>
      in (event, s1\<lparr>events := Map_set (events s1) id' event\<rparr>))"

definition getAiQueries :: "MemStorage \<Rightarrow> AiQuery list" where
  "getAiQueries s = Map_values (aiQueries s)"

definition getAiQueriesByContract :: "int \<Rightarrow> MemStorage \<Rightarrow> AiQuery list" where
  "getAiQueriesByContract contractId s =
     filter (\<lambda>query. query_contractId query = contractId) (Map_values (aiQueries s))"

definition createAiQuery :: "InsertAiQuery \<Rightarrow> Date \<Rightarrow> MemStorage \<Rightarrow> AiQuery \<times> MemStorage" where
  "createAiQuery insertQuery now s =
     (let id' = aiQueryCurrentId s;
          s1 = s\<lparr>aiQueryCurrentId := aiQueryCurrentId s + 1\<rparr>;
          query = \<lparr>query_id = id',
                   query_contractId = ins_query_contractId insertQuery,
                   query_query = ins_query_query insertQuery,
                   query_response = or_null truthy_string (ins_query_response insertQuery),
                   query_tokenCount =
                     Some (or_else truthy_number (ins_query_tokenCount insertQuery) 0),
                   query_createdAt = now\<rparr>
      in (query, s1\<lparr>aiQueries := Map_set (aiQueries s1) id' query\<rparr>))"

definition getTotalQueryTokenCount :: "MemStorage \<Rightarrow> int" where
  "getTotalQueryTokenCount s =
     foldl (\<lambda>total query. total + or_else truthy_number (query_tokenCount query) 0) 0
       (Map_values (aiQueries s))"

text \<open>
  The environment variables the server reads (\<open>process.env\<close>); \<open>None\<close> is a variable
  that is not set.
\<close>

record process_env =
  env_GUARDIAN_FEED :: "string option"
  env_GUARDIAN_DAO :: "string option"
  env_GUARDIAN_BADGE :: "string option"
  env_GROQ_API_KEY :: "string option"
  env_AI_MODEL :: "string option"
  env_RPC_URL :: "string option"
  env_DEMO_MODE :: "string option"

definition guardianFeed :: "process_env \<Rightarrow> InsertContract" where
  "guardianFeed env =
     \<lparr>ins_contract_name = ''Guardian Feed'',
      ins_contract_address =
        or_else truthy_string (env_GUARDIAN_FEED env) ''0xea1Ad2Ebf76b490a327eF1885863c9209994F015'',
      ins_contract_type = ''FEED'',
      ins_contract_abi = None,
      ins_contract_status = Some ''HEALTHY''\<rparr>"

definition guardianDAO :: "process_env \<Rightarrow> InsertContract" where
  "guardianDAO env =
     \<lparr>ins_contract_name = ''Guardian DAO'',
      ins_contract_address =
        or_else truthy_string (env_GUARDIAN_DAO env) ''0xd4DcBae99C65079ba6CA2e99c8D5Dcc37d60456b'',
      ins_contract_type = ''DAO'',
      ins_contract_abi = None,
      ins_contract_status = Some ''WARNING''\<rparr>"

definition guardianBadge :: "process_env \<Rightarrow> InsertContract" where
  "guardianBadge env =
     \<lparr>ins_contract_name = ''Guardian Badge'',
      ins_contract_address =
        or_else truthy_string (env_GUARDIAN_BADGE env) ''0x525975C25823ecb3a3875F577a5B9574aB758197'',
      ins_contract_type = ''BADGE'',
      ins_contract_abi = None,
      ins_contract_status = Some ''ALERT''\<rparr>"

definition initGuardianContracts :: "process_env \<Rightarrow> Date \<Rightarrow> Date \<Rightarrow> Date \<Rightarrow> MemStorage \<Rightarrow> MemStorage" where
  "initGuardianContracts env t1 t2 t3 s =
     (let s1 = snd (createContract (guardianFeed env) t1 s);
          s2 = snd (createContract (guardianDAO env) t2 s1)
      in snd (createContract (guardianBadge env) t3 s2))"

text \<open>
  The constructor; \<open>t1\<close>, \<open>t2\<close> and \<open>t3\<close> are the times the three \<open>createContract\<close>
  calls read.
\<close>

definition MemStorage_new :: "process_env \<Rightarrow> Date \<Rightarrow> Date \<Rightarrow> Date \<Rightarrow> MemStorage" where
  "MemStorage_new env t1 t2 t3 =
     initGuardianContracts env t1 t2 t3
       \<lparr>users = [], contracts = [], alerts = [], events = [], aiQueries = [],
        userCurrentId = 1, contractCurrentId = 1, alertCurrentId = 1,
        eventCurrentId = 1, aiQueryCurrentId = 1\<rparr>"

section \<open>The runtime the services run in\<close>

text \<open>
  What the services reach outside the store is part of the state \<open>system\<close>: the
  clock (\<open>clock k\<close> is what the \<open>k\<close>-th \<open>new Date()\<close> reads), the random source
  (\<open>random k\<close> is what the \<open>k\<close>-th \<open>Math.random()\<close> returns), the network
  (\<open>requests\<close> are the requests sent so far, numbered from 0, and \<open>respond k\<close> is how
  request \<open>k\<close> ends) and the \<open>ethers\<close> library. Console output is not modelled: a
  branch that only logs leaves the state as it is.

  The server runs on one thread. A call runs until it returns or awaits the network;
  while it waits for the response, requests and timers are served, and the call goes on
  when its response arrives. An \<open>await\<close> of the store or of a service that answers
  without the network does not let another request or timer in. A call that may await
  the network is therefore written in two parts: the part up to the request, which ends
  in \<open>Returns v\<close> or in \<open>Awaits k\<close> with the number of the request it has sent, and
  the part that goes on with the response. The response is taken whole: between its
  status and its body the services touch no state. \<open>fetch\<close> is the request with its
  response taken at once: the call looked at on its own, with nothing served in between.
  The calls of the \<open>ethers\<close> provider are answered at once; they are made outside demo
  mode only, and the server is always in demo mode (\<open>server_demoMode\<close>).
\<close>

record http_request =
  req_url :: string
  req_method :: string
  req_Authorization :: string
  req_ContentType :: string
  req_model :: string
  req_messages :: "(string \<times> string) list"

text \<open>
  The body of a chat completion as the service reads it. \<open>choices = None\<close>: there is no
  \<open>data.choices\<close>, and reading its element 0 throws a \<open>TypeError\<close>. Otherwise the
  list holds \<open>message.content\<close> of each choice (\<open>None\<close> where it is missing).
  \<open>total_tokens\<close> is \<open>data.usage.total_tokens\<close>, \<open>None\<close> where it is missing.
\<close>

record completion =
  choices :: "string option list option"
  total_tokens :: "int option"

record http_response =
  resp_ok :: bool
  resp_text :: "js_error + string"
  resp_json :: "js_error + completion"

datatype fetch_result = Rejects js_error | Resolves http_response

record JsonRpcProvider =
  getBlockNumber :: "js_error + int"
  getCode :: "string \<Rightarrow> js_error + string"

record ethers =
  JsonRpcProvider_new :: "string \<Rightarrow> js_error + JsonRpcProvider"
  Contract_new :: "string \<Rightarrow> json \<Rightarrow> js_error + unit"

record BlockchainService =
  provider :: "JsonRpcProvider option"
  bc_contracts :: "(string \<times> json) list"
  listeners :: "(string \<times> json) list"
  demoMode :: bool

record system =
  storage :: MemStorage
  blockchainService :: BlockchainService
  env :: process_env
  ethers_lib :: ethers
  clock :: "nat \<Rightarrow> Date"
  clockReads :: nat
  random :: "nat \<Rightarrow> rat"
  randomDraws :: nat
  respond :: "nat \<Rightarrow> fetch_result"
  requests :: "http_request list"

definition new_Date :: "system \<Rightarrow> Date \<times> system" where
  "new_Date sys = (clock sys (clockReads sys), sys\<lparr>clockReads := Suc (clockReads sys)\<rparr>)"

definition Math_random :: "system \<Rightarrow> rat \<times> system" where
  "Math_random sys = (random sys (randomDraws sys), sys\<lparr>randomDraws := Suc (randomDraws sys)\<rparr>)"

datatype 'a async = Returns 'a | Awaits nat

definition send :: "http_request \<Rightarrow> system \<Rightarrow> nat \<times> system" where
  "send req sys = (length (requests sys), sys\<lparr>requests := requests sys @ [req]\<rparr>)"

definition fetch :: "http_request \<Rightarrow> system \<Rightarrow> fetch_result \<times> system" where
  "fetch req sys = (respond sys (length (requests sys)), sys\<lparr>requests := requests sys @ [req]\<rparr>)"

text \<open>The store's operations, called by a service: the clock is read where the store reads it.\<close>

definition storage_createAlert :: "InsertAlert \<Rightarrow> system \<Rightarrow> Alert \<times> system" where
  "storage_createAlert insertAlert sys =
     (let (now, sys1) = new_Date sys;
          (alert, st) = createAlert insertAlert now (storage sys1)
      in (alert, sys1\<lparr>storage := st\<rparr>))"

definition storage_createEvent :: "InsertEvent \<Rightarrow> system \<Rightarrow> Event \<times> system" where
  "storage_createEvent insertEvent sys =
     (let (now, sys1) = new_Date sys;
          (event, st) = createEvent insertEvent now (storage sys1)
      in (event, sys1\<lparr>storage := st\<rparr>))"

definition storage_createAiQuery :: "InsertAiQuery \<Rightarrow> system \<Rightarrow> AiQuery \<times> system" where
  "storage_createAiQuery insertQuery sys =
     (let (now, sys1) = new_Date sys;
          (query, st) = createAiQuery insertQuery now (storage sys1)
      in (query, sys1\<lparr>storage := st\<rparr>))"

definition storage_updateContractStatus :: "int \<Rightarrow> string \<Rightarrow> system \<Rightarrow> system" where
  "storage_updateContractStatus id' status sys =
     sys\<lparr>storage := snd (updateContractStatus id' status (storage sys))\<rparr>"

subsection \<open>Strings and regular expressions\<close>

definition toUpperCase_char :: "char \<Rightarrow> char" where
  "toUpperCase_char c =
     (let n = (of_char c :: nat)
      in if (97 \<le> n \<and> n \<le> 122) \<or> (224 \<le> n \<and> n \<le> 254 \<and> n \<noteq> 247)
         then char_of (n - 32) else c)"

text \<open>
  \<open>String.prototype.toUpperCase\<close> on code units below 256. Three of them have an upper
  case outside this range or of two letters (U+00B5, U+00DF, U+00FF); they are left as
  they are. The only use compares the result with \<open>FEED\<close>, \<open>DAO\<close> and \<open>BADGE\<close>, which
  no string holding one of the three can equal.
\<close>

definition toUpperCase :: "string \<Rightarrow> string" where
  "toUpperCase s = map toUpperCase_char s"

text \<open>
  The patterns of the monitor are alternatives of sequences of literal characters and
  of \<open>.?\<close>, all with the flag \<open>i\<close>. A literal matches a code unit with the same
  canonical form: the patterns hold ASCII only, and the canonical form of a code unit
  from 128 on is never an ASCII one, so only the ASCII letters are folded. The dot
  matches every code unit but a line terminator.
\<close>

datatype atom = Lit char | OptAny

type_synonym regex = "atom list list"

definition Canonicalize :: "char \<Rightarrow> char" where
  "Canonicalize c =
     (let n = (of_char c :: nat) in if 97 \<le> n \<and> n \<le> 122 then char_of (n - 32) else c)"

definition LineTerminator :: "char \<Rightarrow> bool" where
  "LineTerminator c = (c = CHR 0x0A \<or> c = CHR 0x0D)"

fun match_here :: "atom list \<Rightarrow> string \<Rightarrow> bool" where
  "match_here [] s = True"
| "match_here (Lit c # as) [] = False"
| "match_here (Lit c # as) (x # xs) = (Canonicalize x = Canonicalize c \<and> match_here as xs)"
| "match_here (OptAny # as) [] = match_here as []"
| "match_here (OptAny # as) (x # xs) =
     ((\<not> LineTerminator x \<and> match_here as xs) \<or> match_here as (x # xs))"

definition match_from :: "regex \<Rightarrow> string \<Rightarrow> bool" where
  "match_from re s = list_ex (\<lambda>alt. match_here alt s) re"

fun RegExp_test :: "regex \<Rightarrow> string \<Rightarrow> bool" where
  "RegExp_test re [] = match_from re []"
| "RegExp_test re (x # xs) = (match_from re (x # xs) \<or> RegExp_test re xs)"

definition lit :: "string \<Rightarrow> atom list" where
  "lit s = map Lit s"

function toString16_nat :: "nat \<Rightarrow> string" where
  "toString16_nat n =
     (if n < 16 then [''0123456789abcdef'' ! n]
      else toString16_nat (n div 16) @ [''0123456789abcdef'' ! (n mod 16)])"
  by pat_completeness auto
termination
  by (relation "measure (\<lambda>n. n)") auto

definition Number_toString16 :: "int \<Rightarrow> string" where
  "Number_toString16 i =
     (if i < 0 then ''-'' @ toString16_nat (nat (- i)) else toString16_nat (nat i))"

text \<open>A template literal whose lines are indented by six spaces, as the prompts are.\<close>

definition template :: "string list \<Rightarrow> string" where
  "template ls = [CHR 0x0A] @ concat (map (\<lambda>l. ''      '' @ l @ [CHR 0x0A]) ls) @ ''    ''"

subsection \<open>JSON.stringify\<close>

text \<open>
  \<open>JSON.stringify(value, null, 2)\<close>: the text of the value, indented by two spaces per
  level. A number is written in decimal, a string in double quotes with the quote, the
  backslash and the control characters escaped, an empty array as \<open>[]\<close> and an empty
  object as \<open>{}\<close>. A BigInt has no JSON text: on a BigInt anywhere in the value,
  \<open>JSON.stringify\<close> throws a \<open>TypeError\<close>.
\<close>

function toString10_nat :: "nat \<Rightarrow> string" where
  "toString10_nat n =
     (if n < 10 then [''0123456789'' ! n]
      else toString10_nat (n div 10) @ [''0123456789'' ! (n mod 10)])"
  by pat_completeness auto
termination
  by (relation "measure (\<lambda>n. n)") auto

definition Number_toString :: "int \<Rightarrow> string" where
  "Number_toString i =
     (if i < 0 then ''-'' @ toString10_nat (nat (- i)) else toString10_nat (nat i))"

definition QuoteJSONChar :: "char \<Rightarrow> string" where
  "QuoteJSONChar c =
     (let n = (of_char c :: nat)
      in if n = 0x08 then [CHR 0x5C, CHR ''b'']
         else if n = 0x09 then [CHR 0x5C, CHR ''t'']
         else if n = 0x0A then [CHR 0x5C, CHR ''n'']
         else if n = 0x0C then [CHR 0x5C, CHR ''f'']
         else if n = 0x0D then [CHR 0x5C, CHR ''r'']
         else if n = 0x22 then [CHR 0x5C, CHR 0x22]
         else if n = 0x5C then [CHR 0x5C, CHR 0x5C]
         else if n < 0x20
         then [CHR 0x5C, CHR ''u'', CHR ''0'', CHR ''0'',
               ''0123456789abcdef'' ! (n div 16), ''0123456789abcdef'' ! (n mod 16)]
         else [c])"

definition QuoteJSONString :: "string \<Rightarrow> string" where
  "QuoteJSONString s = [CHR 0x22] @ concat (map QuoteJSONChar s) @ [CHR 0x22]"

fun Array_join :: "string \<Rightarrow> string list \<Rightarrow> string" where
  "Array_join sep [] = []"
| "Array_join sep [x] = x"
| "Array_join sep (x # y # ys) = x @ sep @ Array_join sep (y # ys)"

definition gap :: string where
  "gap = ''  ''"

text \<open>
  \<open>wrap\<close> puts the serialised elements or members between the brackets, one per line
  at the inner indentation, and the closing bracket at the outer one.
\<close>

definition wrap :: "string \<Rightarrow> string \<Rightarrow> string \<Rightarrow> string list \<Rightarrow> string" where
  "wrap opening closing indent partial =
     (if partial = [] then opening @ closing
      else opening @ [CHR 0x0A] @ (indent @ gap)
           @ Array_join ('','' @ [CHR 0x0A] @ (indent @ gap)) partial
           @ [CHR 0x0A] @ indent @ closing)"

fun SerializeJSONProperty :: "string \<Rightarrow> json \<Rightarrow> js_error + string"
  and SerializeJSONElements :: "string \<Rightarrow> json list \<Rightarrow> js_error + string list"
  and SerializeJSONMembers :: "string \<Rightarrow> (string \<times> json) list \<Rightarrow> js_error + string list" where
  "SerializeJSONProperty indent JNull = Inr ''null''"
| "SerializeJSONProperty indent (JBool b) = Inr (if b then ''true'' else ''false'')"
| "SerializeJSONProperty indent (JNum n) = Inr (Number_toString n)"
| "SerializeJSONProperty indent (JBigInt n) = Inl (Error ''Do not know how to serialize a BigInt'')"
| "SerializeJSONProperty indent (JStr s) = Inr (QuoteJSONString s)"
| "SerializeJSONProperty indent (JArr xs) =
     (case SerializeJSONElements (indent @ gap) xs of
        Inl err \<Rightarrow> Inl err
      | Inr partial \<Rightarrow> Inr (wrap ''['' '']'' indent partial))"
| "SerializeJSONProperty indent (JObj kvs) =
     (case SerializeJSONMembers (indent @ gap) kvs of
        Inl err \<Rightarrow> Inl err
      | Inr partial \<Rightarrow> Inr (wrap ''{'' ''}'' indent partial))"
| "SerializeJSONElements indent [] = Inr []"
| "SerializeJSONElements indent (x # xs) =
     (case SerializeJSONProperty indent x of
        Inl err \<Rightarrow> Inl err
      | Inr strP \<Rightarrow>
          (case SerializeJSONElements indent xs of
             Inl err \<Rightarrow> Inl err
           | Inr rest \<Rightarrow> Inr (strP # rest)))"
| "SerializeJSONMembers indent [] = Inr []"
| "SerializeJSONMembers indent ((key, x) # kvs) =
     (case SerializeJSONProperty indent x of
        Inl err \<Rightarrow> Inl err
      | Inr strP \<Rightarrow>
          (case SerializeJSONMembers indent kvs of
             Inl err \<Rightarrow> Inl err
           | Inr rest \<Rightarrow> Inr ((QuoteJSONString key @ '': '' @ strP) # rest)))"

definition JSON_stringify :: "json \<Rightarrow> js_error + string" where
  "JSON_stringify v = SerializeJSONProperty '''' v"

section \<open>The blockchain service (server/services/blockchain.ts)\<close>

definition RPC_URL :: "process_env \<Rightarrow> string" where
  "RPC_URL e = or_else truthy_string (env_RPC_URL e) ''https://rpc.scs.soneium.io''"

definition DEMO_MODE :: "process_env \<Rightarrow> bool" where
  "DEMO_MODE e = (env_DEMO_MODE e = Some ''true'' \<or> True)"

definition FEED_ABI :: json where
  "FEED_ABI = JArr
     [JStr ''event AlertSubmitted(address indexed submitter, uint256 indexed alertId, string description)'',
      JStr ''event AlertResolved(uint256 indexed alertId, address indexed resolver)'']"

definition DAO_ABI :: json where
  "DAO_ABI = JArr
     [JStr ''event ProposalCreated(uint256 indexed proposalId, address indexed proposer, string description)'',
      JStr ''event Vote(uint256 indexed proposalId, address indexed voter, bool support, uint256 weight)'',
      JStr ''event ProposalExecuted(uint256 indexed proposalId)'']"

definition BADGE_ABI :: json where
  "BADGE_ABI = JArr
     [JStr ''event BadgeClaim(address indexed claimer, uint256 indexed tokenId)'',
      JStr ''event BadgeRevoked(uint256 indexed tokenId, address indexed revoker, string reason)'']"

definition BlockchainService_new :: "process_env \<Rightarrow> ethers \<Rightarrow> BlockchainService" where
  "BlockchainService_new e lib =
     \<lparr>provider =
        (if \<not> DEMO_MODE e
         then (case JsonRpcProvider_new lib (RPC_URL e) of Inl err \<Rightarrow> None | Inr p \<Rightarrow> Some p)
         else None),
      bc_contracts = [],
      listeners = [],
      demoMode = DEMO_MODE e\<rparr>"

text \<open>The table \<open>eventTypes\<close> of \<open>createDemoEvents\<close>: name and data by contract type.\<close>

definition eventTypes :: "(string \<times> string \<times> json) list" where
  "eventTypes =
     [(''FEED'', ''AlertSubmitted'',
         JObj [(''submitter'', JStr ''0x7834CbA335D49B6160cB7ad17f17A6ec38a18f32''),
               (''alertId'', JStr ''123''),
               (''description'', JStr ''Suspicious activity detected in token transfer functions'')]),
      (''DAO'', ''ProposalCreated'',
         JObj [(''proposalId'', JStr ''7''),
               (''proposer'', JStr ''0x1A78be26D8373eDb66A71dd38dB196f7B9621C0F''),
               (''description'', JStr ''Proposal to update Guardian security parameters'')]),
      (''BADGE'', ''BadgeClaim'',
         JObj [(''claimer'', JStr ''0x9B45dc3F0F271E1B1538189D6FD49A033c58De39''),
               (''tokenId'', JStr ''42'')])]"

text \<open>\<open>Math.floor(Math.random() * k)\<close>.\<close>

definition random_below :: "int \<Rightarrow> system \<Rightarrow> int \<times> system" where
  "random_below k sys = (let (r, sys1) = Math_random sys in (\<lfloor>r * of_int k\<rfloor>, sys1))"

text \<open>\<open>Array.from({length: n}, () => Math.floor(Math.random()*16).toString(16)).join('')\<close>.\<close>

fun random_hex :: "nat \<Rightarrow> system \<Rightarrow> string \<times> system" where
  "random_hex 0 sys = ([], sys)"
| "random_hex (Suc n) sys =
     (let (d, sys1) = random_below 16 sys;
          (rest, sys2) = random_hex n sys1
      in (Number_toString16 d @ rest, sys2))"

fun createDemoEvents :: "Contract list \<Rightarrow> system \<Rightarrow> system" where
  "createDemoEvents [] sys = sys"
| "createDemoEvents (contract # rest) sys =
     (let eventType = toUpperCase (contract_type contract)
      in case map_of eventTypes eventType of
           None \<Rightarrow> createDemoEvents rest sys
         | Some (name, data) \<Rightarrow>
             (let (minutes, sys1) = random_below 60 sys;
                  (digits, sys2) = random_hex 64 sys1;
                  eventData = \<lparr>ins_event_contractId = contract_id contract,
                               ins_event_eventName = name,
                               ins_event_blockNumber = 12345678,
                               ins_event_transactionHash = ''0x'' @ digits,
                               ins_event_eventData = data\<rparr>;
                  (event, sys3) = storage_createEvent eventData sys2
              in createDemoEvents rest sys3))"

definition BlockchainService_createDemoEvents :: "Contract list \<Rightarrow> system \<Rightarrow> system" where
  "BlockchainService_createDemoEvents contracts' sys =
     (let (now, sys1) = new_Date sys in createDemoEvents contracts' sys1)"

definition demoAlert :: "int \<Rightarrow> string \<Rightarrow> string \<Rightarrow> string \<Rightarrow> string \<Rightarrow> InsertAlert" where
  "demoAlert contractId title severity description aiAnalysis =
     \<lparr>ins_alert_contractId = contractId,
      ins_alert_severity = severity,
      ins_alert_title = title,
      ins_alert_description = description,
      ins_alert_aiAnalysis = Some aiAnalysis,
      ins_alert_resolved = None\<rparr>"

definition alertTypes :: "Contract \<Rightarrow> Contract \<Rightarrow> Contract \<Rightarrow> InsertAlert list" where
  "alertTypes c0 c1 c2 =
     [demoAlert (contract_id c0) ''Suspicious Transfer Pattern Detected'' ''HIGH''
        ''Multiple high-value transfers to newly created wallets in short succession. Possible early signs of a rug pull.''
        ''The contract's transfer function was called 17 times in 3 minutes, sending tokens to wallets that were all created within the last hour. This pattern matches known exit scam behaviors. Recommend immediate investigation.'',
      demoAlert (contract_id c1) ''Governance Parameter Change'' ''MEDIUM''
        ''Proposal to modify voting threshold was accepted with minimal participation.''
        ''The proposal passed with only 12% of token holders voting, which is unusually low. The new parameters reduce the quorum needed for future proposals, potentially centralizing control.'',
      demoAlert (contract_id c2) ''Unusual Minting Activity'' ''LOW''
        ''Large batch of new badges minted to a single address.''
        ''While within contract parameters, this minting activity represents a 23% increase in total supply. The receiving address has no prior history with this contract.'']"

text \<open>
  \<open>createDemoAlerts\<close> reads \<open>contracts[0].id\<close>, \<open>contracts[1].id\<close> and
  \<open>contracts[2].id\<close>: with fewer than three contracts this throws a \<open>TypeError\<close>.
\<close>

definition BlockchainService_createDemoAlerts :: "system \<Rightarrow> (js_error + unit) \<times> system" where
  "BlockchainService_createDemoAlerts sys =
     (case getContracts (storage sys) of
        c0 # c1 # c2 # others \<Rightarrow>
          (Inr (), fold (\<lambda>alert sys'. snd (storage_createAlert alert sys')) (alertTypes c0 c1 c2) sys)
      | _ \<Rightarrow> (Inl (Error ''Cannot read properties of undefined (reading 'id')''), sys))"

definition getContractAbi :: "string \<Rightarrow> json" where
  "getContractAbi type =
     (let t = toUpperCase type
      in if t = ''FEED'' then FEED_ABI
         else if t = ''DAO'' then DAO_ABI
         else if t = ''BADGE'' then BADGE_ABI
         else JArr [])"

text \<open>
  \<open>initializeContract\<close> with \<open>setupEventListeners\<close>: the contract object of the
  \<open>ethers\<close> library is kept as the ABI it was made from. A listener that fires later is
  a call of \<open>storage.createEvent\<close> from outside.
\<close>

definition BlockchainService_initializeContract :: "Contract \<Rightarrow> system \<Rightarrow> bool \<times> system" where
  "BlockchainService_initializeContract contract sys =
     (let contractAbi = (case or_null truthy_json (contract_abi contract) of
                           Some abi \<Rightarrow> abi
                         | None \<Rightarrow> getContractAbi (contract_type contract))
      in case contractAbi of
           JArr (f # fs) \<Rightarrow>
             (case Contract_new (ethers_lib sys) (contract_address contract) contractAbi of
                Inl err \<Rightarrow> (False, sys)
              | Inr u \<Rightarrow>
                  (let bc = blockchainService sys;
                       bc1 = bc\<lparr>bc_contracts :=
                                 AList.update (contract_address contract) contractAbi (bc_contracts bc)\<rparr>;
                       bc2 = bc1\<lparr>listeners :=
                                 AList.update (contract_address contract) contractAbi (listeners bc1)\<rparr>
                   in (True, sys\<lparr>blockchainService := bc2\<rparr>)))
         | _ \<Rightarrow> (False, sys))"

definition initialize_demo :: "system \<Rightarrow> (js_error + bool) \<times> system" where
  "initialize_demo sys =
     (let contracts = getContracts (storage sys);
          sys1 = BlockchainService_createDemoEvents contracts sys;
          (r, sys2) = BlockchainService_createDemoAlerts sys1
      in case r of Inl err \<Rightarrow> (Inl err, sys2) | Inr u \<Rightarrow> (Inr True, sys2))"

definition initialize_live :: "system \<Rightarrow> (js_error + bool) \<times> system" where
  "initialize_live sys =
     (case provider (blockchainService sys) of
        None \<Rightarrow> (Inl (Error ''Provider not initialized''), sys)
      | Some p \<Rightarrow>
          (case getBlockNumber p of
             Inl err \<Rightarrow> (Inl err, sys)
           | Inr blockNumber \<Rightarrow>
               (Inr True,
                fold (\<lambda>contract sys'. snd (BlockchainService_initializeContract contract sys'))
                  (getContracts (storage sys)) sys)))"

definition BlockchainService_initialize :: "system \<Rightarrow> (js_error + bool) \<times> system" where
  "BlockchainService_initialize sys =
     (if demoMode (blockchainService sys) then initialize_demo sys
      else case initialize_live sys of
             (Inr b, sys1) \<Rightarrow> (Inr b, sys1)
           | (Inl err, sys1) \<Rightarrow>
               initialize_demo
                 (sys1\<lparr>blockchainService := (blockchainService sys1)\<lparr>demoMode := True\<rparr>\<rparr>))"

definition dummy_bytecode :: string where
  "dummy_bytecode = ''0x608060405234801561001057600080fd5b50610150806100206000396000f3fe608060405234801561001057600080fd5b50600436106100365760003560e01c8063209652551461003b57806330065c7f14610059575b600080fd5b610043610075565b60405161005091906100a1565b60405180910390f35b610073600480360381019061006e91906100ed565b61007e565b005b60005481565b8060008190555050565b6000819050919050565b61009b81610088565b82525050565b60006020820190506100b66000830184610092565b92915050565b600080fd5b6100ca81610088565b81146100d557600080fd5b50565b6000813590506100e7816100c1565b92915050565b600060208284031215610103576101026100bc565b5b6000610111848285016100d8565b9150509291505056fe''"

definition BlockchainService_getContractCode :: "string \<Rightarrow> system \<Rightarrow> js_error + string" where
  "BlockchainService_getContractCode address sys =
     (if demoMode (blockchainService sys) then Inr dummy_bytecode
      else case provider (blockchainService sys) of
             None \<Rightarrow> Inl (Error ''Provider not available'')
           | Some p \<Rightarrow> getCode p address)"

section \<open>The AI service (server/services/groq.ts)\<close>

definition GROQ_API_KEY :: "process_env \<Rightarrow> string" where
  "GROQ_API_KEY e = or_else truthy_string (env_GROQ_API_KEY e) ''''"

definition AI_MODEL :: "process_env \<Rightarrow> string" where
  "AI_MODEL e = or_else truthy_string (env_AI_MODEL e) ''llama3-8b-8192''"

definition DAILY_TOKEN_LIMIT :: int where
  "DAILY_TOKEN_LIMIT = 100000"

definition baseUrl :: string where
  "baseUrl = ''https://api.groq.com/openai/v1/chat/completions''"

definition system_content :: string where
  "system_content = ''You are an expert blockchain security analyzer specializing in smart contract vulnerabilities. Provide clear, concise analysis of potential security issues.''"

text \<open>The request every call of the service sends (its \<open>temperature\<close> is always 0.5).\<close>

definition chat_request :: "process_env \<Rightarrow> string \<Rightarrow> http_request" where
  "chat_request e prompt =
     \<lparr>req_url = baseUrl,
      req_method = ''POST'',
      req_Authorization = ''Bearer '' @ GROQ_API_KEY e,
      req_ContentType = ''application/json'',
      req_model = AI_MODEL e,
      req_messages = [(''system'', system_content), (''user'', prompt)]\<rparr>"

text \<open>\<open>data.choices[0]?.message?.content || ''\<close>, once \<open>data.choices\<close> is there.\<close>

definition first_content :: "string option list \<Rightarrow> string" where
  "first_content cs = (case cs of [] \<Rightarrow> '''' | c # rest \<Rightarrow> or_else truthy_string c '''')"

text \<open>
  \<open>query\<close> up to its request, and what it returns for the response: the content, or
  \<open>null\<close> where the \<open>try\<close> block has thrown.
\<close>

definition GroqService_query :: "string \<Rightarrow> system \<Rightarrow> string option async \<times> system" where
  "GroqService_query prompt sys =
     (if \<not> truthy_string (GROQ_API_KEY (env sys)) then (Returns None, sys)
      else (let (k, sys1) = send (chat_request (env sys) prompt) sys in (Awaits k, sys1)))"

definition GroqService_query_response :: "fetch_result \<Rightarrow> string option" where
  "GroqService_query_response res =
     (case res of
        Rejects err \<Rightarrow> None
      | Resolves response \<Rightarrow>
          if \<not> resp_ok response then None
          else (case resp_json response of
                  Inl err \<Rightarrow> None
                | Inr data \<Rightarrow>
                    (case choices data of
                       None \<Rightarrow> None
                     | Some cs \<Rightarrow> Some (first_content cs))))"

definition GroqService_initialize :: "system \<Rightarrow> bool async \<times> system" where
  "GroqService_initialize sys =
     (if \<not> truthy_string (GROQ_API_KEY (env sys)) then (Returns False, sys)
      else
        (case GroqService_query ''Hello, are you working?'' sys of
           (Returns testResult, sys1) \<Rightarrow>
             (Returns (case testResult of None \<Rightarrow> False | Some content \<Rightarrow> truthy_string content),
              sys1)
         | (Awaits k, sys1) \<Rightarrow> (Awaits k, sys1)))"

definition GroqService_initialize_response :: "fetch_result \<Rightarrow> bool" where
  "GroqService_initialize_response res =
     (case GroqService_query_response res of
        None \<Rightarrow> False
      | Some content \<Rightarrow> truthy_string content)"

record analysis_result =
  analysis :: string
  tokenCount :: int

definition contract_prompt :: "Contract \<Rightarrow> string \<Rightarrow> string" where
  "contract_prompt contract code = template
     [''Analyze the following smart contract for security vulnerabilities:'',
      '''',
      ''Contract Name: '' @ contract_name contract,
      ''Contract Address: '' @ contract_address contract,
      ''Contract Type: '' @ contract_type contract,
      '''',
      ''Contract Code:'',
      take 8000 code @ '' '' @ (if length code > 8000 then ''...(truncated)'' else ''''),
      '''',
      ''Specifically look for:'',
      ''1. Reentrancy vulnerabilities'',
      ''2. Access control issues'',
      ''3. Integer overflow/underflow'',
      ''4. Logic errors'',
      ''5. Gas optimization issues'',
      ''6. Front-running vulnerabilities'',
      '''',
      ''Provide a detailed analysis with security rating and recommendations.'']"

text \<open>
  The \<open>try\<close> block shared by \<open>analyzeContract\<close> and \<open>analyzeEvent\<close>: the request
  (\<open>analyze_try\<close>), and after it the checks of the response and the query stored
  (\<open>analyze_response\<close>). \<open>Inl\<close> is what the block throws.
\<close>

definition analyze_response ::
  "Contract \<Rightarrow> string \<Rightarrow> fetch_result \<Rightarrow> system \<Rightarrow> (js_error + analysis_result) \<times> system" where
  "analyze_response contract prompt res sys1 =
     (case res of
        Rejects err \<Rightarrow> (Inl err, sys1)
      | Resolves response \<Rightarrow>
          if \<not> resp_ok response
          then (case resp_text response of
                  Inl err \<Rightarrow> (Inl err, sys1)
                | Inr error \<Rightarrow> (Inl (Error (''Groq API error: '' @ error)), sys1))
          else (case resp_json response of
                  Inl err \<Rightarrow> (Inl err, sys1)
                | Inr data \<Rightarrow>
                    (case choices data of
                       None \<Rightarrow>
                         (Inl (Error ''Cannot read properties of undefined (reading '0')''), sys1)
                     | Some cs \<Rightarrow>
                         (let analysis' = first_content cs;
                              tokenCount' = or_else truthy_number (total_tokens data) 0;
                              aiQueryData = \<lparr>ins_query_contractId = contract_id contract,
                                             ins_query_query = prompt,
                                             ins_query_response = Some analysis',
                                             ins_query_tokenCount = Some tokenCount'\<rparr>;
                              (query, sys2) = storage_createAiQuery aiQueryData sys1
                          in (Inr \<lparr>analysis = analysis', tokenCount = tokenCount'\<rparr>, sys2)))))"

definition analyze_try :: "Contract \<Rightarrow> string \<Rightarrow> system \<Rightarrow> (js_error + analysis_result) \<times> system" where
  "analyze_try contract prompt sys =
     (let (res, sys1) = fetch (chat_request (env sys) prompt) sys
      in analyze_response contract prompt res sys1)"

definition GroqService_analyzeContract ::
  "Contract \<Rightarrow> string \<Rightarrow> system \<Rightarrow> (js_error + analysis_result) \<times> system" where
  "GroqService_analyzeContract contract code sys =
     (if \<not> truthy_string (GROQ_API_KEY (env sys))
      then (Inr \<lparr>analysis = ''AI analysis unavailable: API key not configured'', tokenCount = 0\<rparr>, sys)
      else
        (let prompt = contract_prompt contract code
         in case analyze_try contract prompt sys of
              (Inr result, sys1) \<Rightarrow> (Inr result, sys1)
            | (Inl err, sys1) \<Rightarrow>
                (Inr \<lparr>analysis = ''Error analyzing contract: '' @ message err, tokenCount = 0\<rparr>, sys1)))"

text \<open>
  \<open>analyzeContract\<close> in its two parts: up to the request, and from the response on.
\<close>

definition GroqService_analyzeContract_send ::
  "Contract \<Rightarrow> string \<Rightarrow> system \<Rightarrow> analysis_result async \<times> system" where
  "GroqService_analyzeContract_send contract code sys =
     (if \<not> truthy_string (GROQ_API_KEY (env sys))
      then (Returns \<lparr>analysis = ''AI analysis unavailable: API key not configured'', tokenCount = 0\<rparr>,
            sys)
      else
        (let prompt = contract_prompt contract code;
             (k, sys1) = send (chat_request (env sys) prompt) sys
         in (Awaits k, sys1)))"

definition GroqService_analyzeContract_receive ::
  "Contract \<Rightarrow> string \<Rightarrow> fetch_result \<Rightarrow> system \<Rightarrow> analysis_result \<times> system" where
  "GroqService_analyzeContract_receive contract code res sys =
     (let prompt = contract_prompt contract code
      in case analyze_response contract prompt res sys of
           (Inr result, sys1) \<Rightarrow> (result, sys1)
         | (Inl err, sys1) \<Rightarrow>
             (\<lparr>analysis = ''Error analyzing contract: '' @ message err, tokenCount = 0\<rparr>, sys1))"

text \<open>
  \<open>analyzeEvent\<close> builds its prompt, with \<open>JSON.stringify(eventData, null, 2)\<close> in it,
  before its \<open>try\<close> block: what \<open>JSON.stringify\<close> throws, the call throws.
\<close>

definition event_prompt :: "Contract \<Rightarrow> string \<Rightarrow> string \<Rightarrow> string" where
  "event_prompt contract eventName eventJson = template
     [''Analyze the following blockchain event:'',
      '''',
      ''Contract: '' @ contract_name contract @ '' ('' @ contract_address contract @ '')'',
      ''Event: '' @ eventName,
      ''Event Data: '' @ eventJson,
      '''',
      ''Is this event suspicious or unusual in any way?'',
      ''Does it indicate a potential security issue?'',
      ''What actions might be recommended based on this event?'',
      '''',
      ''Provide a concise analysis.'']"

definition GroqService_analyzeEvent ::
  "Contract \<Rightarrow> string \<Rightarrow> json \<Rightarrow> system \<Rightarrow> (js_error + analysis_result) \<times> system" where
  "GroqService_analyzeEvent contract eventName eventData sys =
     (if \<not> truthy_string (GROQ_API_KEY (env sys))
      then (Inr \<lparr>analysis = ''AI analysis unavailable: API key not configured'', tokenCount = 0\<rparr>, sys)
      else
        (case JSON_stringify eventData of
           Inl err \<Rightarrow> (Inl err, sys)
         | Inr eventJson \<Rightarrow>
             (let prompt = event_prompt contract eventName eventJson
              in case analyze_try contract prompt sys of
                   (Inr result, sys1) \<Rightarrow> (Inr result, sys1)
                 | (Inl err, sys1) \<Rightarrow>
                     (Inr \<lparr>analysis = ''Error analyzing event: '' @ message err, tokenCount = 0\<rparr>,
                      sys1))))"

definition GroqService_isWithinUsageLimit :: "system \<Rightarrow> bool" where
  "GroqService_isWithinUsageLimit sys = (getTotalQueryTokenCount (storage sys) < DAILY_TOKEN_LIMIT)"

section \<open>The monitor (server/services/monitor.ts)\<close>

record MonitorService =
  isRunning :: bool
  checkInterval :: "nat option"
  analysisInterval :: "nat option"

text \<open>
  The two callbacks the monitor hands to \<open>setInterval\<close>. A timer is its handle, its
  period in milliseconds and its callback; \<open>timers\<close> are the repeating timers that are
  set.
\<close>

datatype callback = RunSecurityChecks | RunAIAnalysis

text \<open>
  The calls that await the network, each with what it goes on with: \<open>start\<close>, inside
  \<open>groqService.initialize()\<close>; \<open>runAIAnalysis\<close>, inside \<open>analyzeContractWithAI\<close> of
  one contract (with that contract's code and the contracts its loop has still to
  visit); and \<open>scanContract\<close>, inside \<open>analyzeContractWithAI\<close> as well. \<open>waiting\<close>
  are the calls that wait, each with the number of the request it waits for.
\<close>

datatype call =
    StartCall
  | AnalysisCall Contract string "Contract list"
  | ScanCall Contract string

record world =
  the_system :: system
  monitorService :: MonitorService
  timers :: "(nat \<times> nat \<times> callback) list"
  nextTimer :: nat
  waiting :: "(nat \<times> call) list"

definition suspend :: "nat \<Rightarrow> call \<Rightarrow> world \<Rightarrow> world" where
  "suspend k c w = w\<lparr>waiting := waiting w @ [(k, c)]\<rparr>"

definition setInterval :: "callback \<Rightarrow> nat \<Rightarrow> world \<Rightarrow> nat \<times> world" where
  "setInterval cb ms w =
     (nextTimer w, w\<lparr>timers := timers w @ [(nextTimer w, ms, cb)], nextTimer := Suc (nextTimer w)\<rparr>)"

definition clearInterval :: "nat \<Rightarrow> world \<Rightarrow> world" where
  "clearInterval h w = w\<lparr>timers := filter (\<lambda>t. fst t \<noteq> h) (timers w)\<rparr>"

definition MonitorService_createAlert ::
  "Contract \<Rightarrow> string \<Rightarrow> string \<Rightarrow> string \<Rightarrow> string option \<Rightarrow> system \<Rightarrow> system" where
  "MonitorService_createAlert contract severity title description aiAnalysis sys =
     (let alertData = \<lparr>ins_alert_contractId = contract_id contract,
                       ins_alert_severity = severity,
                       ins_alert_title = title,
                       ins_alert_description = description,
                       ins_alert_aiAnalysis = aiAnalysis,
                       ins_alert_resolved = Some False\<rparr>
      in snd (storage_createAlert alertData sys))"

definition no_code :: "string \<Rightarrow> bool" where
  "no_code contractCode = (\<not> truthy_string contractCode \<or> contractCode = ''0x'')"

definition suspicious_event :: "Event \<Rightarrow> bool" where
  "suspicious_event event =
     (event_eventName event = ''BadgeClaim'' \<or> event_eventName event = ''AlertSubmitted'')"

definition checkContractHealth :: "Contract \<Rightarrow> system \<Rightarrow> system" where
  "checkContractHealth contract sys =
     (case BlockchainService_getContractCode (contract_address contract) sys of
        Inl err \<Rightarrow>
          MonitorService_createAlert contract ''LOW'' ''Error monitoring contract''
            (''Failed to monitor contract: '' @ message err) None sys
      | Inr contractCode \<Rightarrow>
          if no_code contractCode
          then storage_updateContractStatus (contract_id contract) ''ALERT''
                 (MonitorService_createAlert contract ''HIGH'' ''Contract unavailable''
                    (''The contract at '' @ contract_address contract
                       @ '' is unavailable or self-destructed.'') None sys)
          else (case getEventsByContract (contract_id contract) (Some 10) (storage sys) of
                  [] \<Rightarrow> storage_updateContractStatus (contract_id contract) ''HEALTHY'' sys
                | first # others \<Rightarrow>
                    (let recentEvents = first # others;
                         suspiciousEventCount = length (filter suspicious_event recentEvents)
                     in if suspiciousEventCount \<ge> 3
                        then storage_updateContractStatus (contract_id contract) ''WARNING''
                               (MonitorService_createAlert contract ''MEDIUM''
                                  ''Unusual event pattern detected''
                                  (''Multiple '' @ event_eventName first
                                     @ '' events detected in a short time period.'') None sys)
                        else sys)))"

definition runSecurityChecks :: "world \<Rightarrow> world" where
  "runSecurityChecks w =
     (if \<not> isRunning (monitorService w) then w
      else w\<lparr>the_system :=
               fold checkContractHealth (getContracts (storage (the_system w))) (the_system w)\<rparr>)"

record indicator =
  pattern :: regex
  severity :: string
  title :: string

definition vulnerabilityIndicators :: "indicator list" where
  "vulnerabilityIndicators =
     [\<lparr>pattern = [lit ''reentrancy''], severity = ''HIGH'', title = ''Reentrancy vulnerability''\<rparr>,
      \<lparr>pattern = [lit ''access control''], severity = ''HIGH'', title = ''Access control issue''\<rparr>,
      \<lparr>pattern = [lit ''overflow'', lit ''underflow''], severity = ''MEDIUM'',
         title = ''Integer overflow/underflow''\<rparr>,
      \<lparr>pattern = [lit ''front'' @ [OptAny] @ lit ''running''], severity = ''MEDIUM'',
         title = ''Front-running vulnerability''\<rparr>,
      \<lparr>pattern = [lit ''logic error''], severity = ''MEDIUM'', title = ''Logic error''\<rparr>,
      \<lparr>pattern = [lit ''gas optimization''], severity = ''LOW'', title = ''Gas optimization issue''\<rparr>]"

text \<open>The status update that follows an alert of the given severity.\<close>

definition update_status_for :: "string \<Rightarrow> Contract \<Rightarrow> system \<Rightarrow> system" where
  "update_status_for severity' contract sys =
     (if severity' = ''HIGH'' then storage_updateContractStatus (contract_id contract) ''ALERT'' sys
      else if severity' = ''MEDIUM'' \<and> contract_status contract \<noteq> ''ALERT''
      then storage_updateContractStatus (contract_id contract) ''WARNING'' sys
      else sys)"

text \<open>The loop over the indicators; it ends (\<open>break\<close>) at the first pattern that matches.\<close>

fun check_indicators :: "indicator list \<Rightarrow> Contract \<Rightarrow> string \<Rightarrow> system \<Rightarrow> system" where
  "check_indicators [] contract analysis' sys = sys"
| "check_indicators (ind # rest) contract analysis' sys =
     (if RegExp_test (pattern ind) analysis'
      then update_status_for (severity ind) contract
             (MonitorService_createAlert contract (severity ind) (title ind) analysis' None sys)
      else check_indicators rest contract analysis' sys)"

definition analyzeContractWithAI :: "Contract \<Rightarrow> system \<Rightarrow> system" where
  "analyzeContractWithAI contract sys =
     (case BlockchainService_getContractCode (contract_address contract) sys of
        Inl err \<Rightarrow> sys
      | Inr contractCode \<Rightarrow>
          if no_code contractCode then sys
          else (case GroqService_analyzeContract contract contractCode sys of
                  (Inl err, sys1) \<Rightarrow> sys1
                | (Inr result, sys1) \<Rightarrow>
                    check_indicators vulnerabilityIndicators contract (analysis result) sys1))"

text \<open>
  \<open>analyzeContractWithAI\<close> in its two parts. The first ends with the request sent
  (\<open>Some\<close> of its number and of the contract's code), or with the call over (\<open>None\<close>):
  no code, or no API key, in which case the indicators are looked for in the text that
  says so. The second goes on with the response.
\<close>

definition analyzeContractWithAI_send ::
  "Contract \<Rightarrow> system \<Rightarrow> (nat \<times> string) option \<times> system" where
  "analyzeContractWithAI_send contract sys =
     (case BlockchainService_getContractCode (contract_address contract) sys of
        Inl err \<Rightarrow> (None, sys)
      | Inr contractCode \<Rightarrow>
          if no_code contractCode then (None, sys)
          else (case GroqService_analyzeContract_send contract contractCode sys of
                  (Returns result, sys1) \<Rightarrow>
                    (None, check_indicators vulnerabilityIndicators contract (analysis result) sys1)
                | (Awaits k, sys1) \<Rightarrow> (Some (k, contractCode), sys1)))"

definition analyzeContractWithAI_receive ::
  "Contract \<Rightarrow> string \<Rightarrow> fetch_result \<Rightarrow> system \<Rightarrow> system" where
  "analyzeContractWithAI_receive contract contractCode res sys =
     (let (result, sys1) = GroqService_analyzeContract_receive contract contractCode res sys
      in check_indicators vulnerabilityIndicators contract (analysis result) sys1)"

text \<open>
  The loop of \<open>runAIAnalysis\<close> over the contracts it has read. It stops where a contract's
  analysis awaits the network, and goes on with the contracts that are left when the
  response has arrived; \<open>isRunning\<close> is read once, before the loop.
\<close>

fun analysis_loop :: "Contract list \<Rightarrow> world \<Rightarrow> world" where
  "analysis_loop [] w = w"
| "analysis_loop (contract # rest) w =
     (case analyzeContractWithAI_send contract (the_system w) of
        (None, sys1) \<Rightarrow> analysis_loop rest (w\<lparr>the_system := sys1\<rparr>)
      | (Some (k, contractCode), sys1) \<Rightarrow>
          suspend k (AnalysisCall contract contractCode rest) (w\<lparr>the_system := sys1\<rparr>))"

definition runAIAnalysis :: "world \<Rightarrow> world" where
  "runAIAnalysis w =
     (if \<not> isRunning (monitorService w) then w
      else if \<not> GroqService_isWithinUsageLimit (the_system w) then w
      else analysis_loop (getContracts (storage (the_system w))) w)"

text \<open>
  \<open>start\<close> from the line that sets \<open>isRunning\<close> on: the flag, the two timers with
  their handles kept, and the first round of security checks.
\<close>

definition start_monitoring :: "world \<Rightarrow> world" where
  "start_monitoring w =
     (let w1 = w\<lparr>monitorService := (monitorService w)\<lparr>isRunning := True\<rparr>\<rparr>;
          (h1, w2) = setInterval RunSecurityChecks (30 * 60 * 1000) w1;
          w3 = w2\<lparr>monitorService := (monitorService w2)\<lparr>checkInterval := Some h1\<rparr>\<rparr>;
          (h2, w4) = setInterval RunAIAnalysis (2 * 60 * 60 * 1000) w3;
          w5 = w4\<lparr>monitorService := (monitorService w4)\<lparr>analysisInterval := Some h2\<rparr>\<rparr>
      in runSecurityChecks w5)"

text \<open>
  \<open>start\<close> up to the request of \<open>groqService.initialize()\<close>. It reads \<open>isRunning\<close>
  first and sets it after the two initialisations: without an API key no request is
  sent and \<open>start\<close> goes on at once; with a key it waits for the response, and
  \<open>isRunning\<close> is still false while it waits. What the AI service's initialisation
  returns is logged only.
\<close>

definition start :: "world \<Rightarrow> bool async \<times> world" where
  "start w =
     (if isRunning (monitorService w) then (Returns True, w)
      else (case BlockchainService_initialize (the_system w) of
              (Inl err, sys1) \<Rightarrow>
                (Returns False, w\<lparr>the_system := sys1,
                                  monitorService := (monitorService w)\<lparr>isRunning := False\<rparr>\<rparr>)
            | (Inr blockchainInit, sys1) \<Rightarrow>
                if \<not> blockchainInit then (Returns False, w\<lparr>the_system := sys1\<rparr>)
                else
                  (case GroqService_initialize sys1 of
                     (Returns aiInit, sys2) \<Rightarrow>
                       (Returns True, start_monitoring (w\<lparr>the_system := sys2\<rparr>))
                   | (Awaits k, sys2) \<Rightarrow>
                       (Awaits k, suspend k StartCall (w\<lparr>the_system := sys2\<rparr>)))))"

definition stop :: "world \<Rightarrow> world" where
  "stop w =
     (let w1 = w\<lparr>monitorService := (monitorService w)\<lparr>isRunning := False\<rparr>\<rparr>;
          w2 = (case checkInterval (monitorService w1) of
                  None \<Rightarrow> w1
                | Some h \<Rightarrow>
                    (clearInterval h w1)
                      \<lparr>monitorService := (monitorService w1)\<lparr>checkInterval := None\<rparr>\<rparr>)
      in case analysisInterval (monitorService w2) of
           None \<Rightarrow> w2
         | Some h \<Rightarrow>
             (clearInterval h w2)
               \<lparr>monitorService := (monitorService w2)\<lparr>analysisInterval := None\<rparr>\<rparr>)"

definition isActive :: "world \<Rightarrow> bool" where
  "isActive w = isRunning (monitorService w)"

text \<open>What a timer does when its period has passed: it calls its callback.\<close>

definition run_callback :: "callback \<Rightarrow> world \<Rightarrow> world" where
  "run_callback cb w = (case cb of RunSecurityChecks \<Rightarrow> runSecurityChecks w
                               | RunAIAnalysis \<Rightarrow> runAIAnalysis w)"

definition timer_fires :: "nat \<Rightarrow> world \<Rightarrow> world" where
  "timer_fires h w = (case map_of (timers w) h of
                        None \<Rightarrow> w
                      | Some (ms, cb) \<Rightarrow> run_callback cb w)"

definition scanContract :: "string \<Rightarrow> world \<Rightarrow> world" where
  "scanContract contractAddress w =
     (case getContractByAddress contractAddress (storage (the_system w)) of
        None \<Rightarrow> w
      | Some contract \<Rightarrow>
          (case analyzeContractWithAI_send contract (checkContractHealth contract (the_system w)) of
             (None, sys1) \<Rightarrow> w\<lparr>the_system := sys1\<rparr>
           | (Some (k, contractCode), sys1) \<Rightarrow>
               suspend k (ScanCall contract contractCode) (w\<lparr>the_system := sys1\<rparr>)))"

text \<open>
  A call that has waited goes on with the response: \<open>start\<close> with the line that sets
  \<open>isRunning\<close>, \<open>runAIAnalysis\<close> with the rest of the analysis of the contract and
  then with its loop, \<open>scanContract\<close> with the rest of the analysis.
\<close>

definition resume :: "call \<Rightarrow> fetch_result \<Rightarrow> world \<Rightarrow> world" where
  "resume c res w =
     (case c of
        StartCall \<Rightarrow>
          (let aiInit = GroqService_initialize_response res in start_monitoring w)
      | AnalysisCall contract contractCode rest \<Rightarrow>
          analysis_loop rest
            (w\<lparr>the_system := analyzeContractWithAI_receive contract contractCode res (the_system w)\<rparr>)
      | ScanCall contract contractCode \<Rightarrow>
          w\<lparr>the_system := analyzeContractWithAI_receive contract contractCode res (the_system w)\<rparr>)"

text \<open>
  The response to request \<open>k\<close> arrives: the call that waits for it, if there is one, is
  taken from the calls that wait and goes on.
\<close>

definition response_arrives :: "nat \<Rightarrow> world \<Rightarrow> world" where
  "response_arrives k w =
     (case map_of (waiting w) k of
        None \<Rightarrow> w
      | Some c \<Rightarrow>
          resume c (respond (the_system w) k)
            (w\<lparr>waiting := filter (\<lambda>p. fst p \<noteq> k) (waiting w)\<rparr>))"

text \<open>
  The state the server starts from: the store as its constructor leaves it (the first
  three clock readings are its), the blockchain service as constructed, the monitor
  stopped, no timer set and no call waiting.
\<close>

definition initial_world ::
  "process_env \<Rightarrow> ethers \<Rightarrow> (nat \<Rightarrow> Date) \<Rightarrow> (nat \<Rightarrow> rat) \<Rightarrow> (nat \<Rightarrow> fetch_result) \<Rightarrow> world" where
  "initial_world e lib clk rnd net =
     \<lparr>the_system =
        \<lparr>storage = MemStorage_new e (clk 0) (clk 1) (clk 2),
         blockchainService = BlockchainService_new e lib,
         env = e,
         ethers_lib = lib,
         clock = clk,
         clockReads = 3,
         random = rnd,
         randomDraws = 0,
         respond = net,
         requests = []\<rparr>,
      monitorService = \<lparr>isRunning = False, checkInterval = None, analysisInterval = None\<rparr>,
      timers = [],
      nextTimer = 1,
      waiting = []\<rparr>"

section \<open>Invariants and runs of the store\<close>

text \<open>
  A map of the store is well formed under its counter when its keys are distinct and
  below the counter and every entity is stored under its own id.
\<close>

definition Map_wf :: "('a \<Rightarrow> int) \<Rightarrow> 'a Map \<Rightarrow> int \<Rightarrow> bool" where
  "Map_wf ident m c =
     (distinct (Map_keys m) \<and> list_all (\<lambda>k. k < c) (Map_keys m)
      \<and> map ident (Map_values m) = Map_keys m)"

definition store_inv :: "MemStorage \<Rightarrow> bool" where
  "store_inv s =
     (Map_wf user_id (users s) (userCurrentId s)
      \<and> Map_wf contract_id (contracts s) (contractCurrentId s)
      \<and> Map_wf alert_id (alerts s) (alertCurrentId s)
      \<and> Map_wf event_id (events s) (eventCurrentId s)
      \<and> Map_wf query_id (aiQueries s) (aiQueryCurrentId s))"

text \<open>
  The operations of \<open>IStorage\<close> that change the store, and a run of them one after the
  other. \<open>perform\<close> gives the kind and id of the entity a create returns.
\<close>

datatype store_op =
    CreateUser InsertUser
  | CreateContract InsertContract Date
  | UpdateContractStatus int string
  | CreateAlert InsertAlert Date
  | ResolveAlert int
  | CreateEvent InsertEvent Date
  | CreateAiQuery InsertAiQuery Date

datatype entity_kind = UserKind | ContractKind | AlertKind | EventKind | AiQueryKind

fun perform :: "store_op \<Rightarrow> MemStorage \<Rightarrow> (entity_kind \<times> int) option \<times> MemStorage" where
  "perform (CreateUser u) s = (let (r, s') = createUser u s in (Some (UserKind, user_id r), s'))"
| "perform (CreateContract c now) s =
     (let (r, s') = createContract c now s in (Some (ContractKind, contract_id r), s'))"
| "perform (UpdateContractStatus i status) s = (None, snd (updateContractStatus i status s))"
| "perform (CreateAlert a now) s =
     (let (r, s') = createAlert a now s in (Some (AlertKind, alert_id r), s'))"
| "perform (ResolveAlert i) s = (None, snd (resolveAlert i s))"
| "perform (CreateEvent e now) s =
     (let (r, s') = createEvent e now s in (Some (EventKind, event_id r), s'))"
| "perform (CreateAiQuery q now) s =
     (let (r, s') = createAiQuery q now s in (Some (AiQueryKind, query_id r), s'))"

fun run_ops :: "store_op list \<Rightarrow> MemStorage \<Rightarrow> (entity_kind \<times> int) list \<times> MemStorage" where
  "run_ops [] s = ([], s)"
| "run_ops (op # ops) s =
     (let (r, s1) = perform op s;
          (rs, s2) = run_ops ops s1
      in ((case r of None \<Rightarrow> [] | Some p \<Rightarrow> [p]) @ rs, s2))"

definition assigned_ids :: "entity_kind \<Rightarrow> store_op list \<Rightarrow> MemStorage \<Rightarrow> int list" where
  "assigned_ids k ops s = map snd (filter (\<lambda>p. fst p = k) (fst (run_ops ops s)))"

fun counter :: "entity_kind \<Rightarrow> MemStorage \<Rightarrow> int" where
  "counter UserKind s = userCurrentId s"
| "counter ContractKind s = contractCurrentId s"
| "counter AlertKind s = alertCurrentId s"
| "counter EventKind s = eventCurrentId s"
| "counter AiQueryKind s = aiQueryCurrentId s"

fun entries :: "entity_kind \<Rightarrow> MemStorage \<Rightarrow> nat" where
  "entries UserKind s = length (users s)"
| "entries ContractKind s = length (contracts s)"
| "entries AlertKind s = length (alerts s)"
| "entries EventKind s = length (events s)"
| "entries AiQueryKind s = length (aiQueries s)"


text \<open>A store, an alert and a run of operations to evaluate the definitions on.\<close>

definition example_env :: process_env where
  "example_env =
     \<lparr>env_GUARDIAN_FEED = None, env_GUARDIAN_DAO = None, env_GUARDIAN_BADGE = None,
      env_GROQ_API_KEY = Some ''gsk_test'', env_AI_MODEL = None, env_RPC_URL = None,
      env_DEMO_MODE = None\<rparr>"

definition example_store :: MemStorage where
  "example_store = MemStorage_new example_env 1000 1001 1002"

definition example_alert :: "int \<Rightarrow> InsertAlert" where
  "example_alert contractId =
     \<lparr>ins_alert_contractId = contractId, ins_alert_severity = ''LOW'',
      ins_alert_title = ''Notice'', ins_alert_description = ''Something happened'',
      ins_alert_aiAnalysis = None, ins_alert_resolved = None\<rparr>"

definition example_ops :: "store_op list" where
  "example_ops =
     [CreateAlert (example_alert 1) 2000,
      ResolveAlert 1,
      UpdateContractStatus 2 ''ALERT'',
      CreateAlert (example_alert 77) 2001,
      CreateUser \<lparr>ins_user_username = ''ada'', ins_user_password = ''pw''\<rparr>,
      CreateAlert (example_alert 1) 2002]"

definition example_event :: "int \<Rightarrow> InsertEvent" where
  "example_event contractId =
     \<lparr>ins_event_contractId = contractId, ins_event_eventName = ''BadgeClaim'',
      ins_event_blockNumber = 12345678, ins_event_transactionHash = ''0xabc'',
      ins_event_eventData = JObj [(''tokenId'', JStr ''42'')]\<rparr>"

text \<open>Three events, created at the times 500, 900 and 700.\<close>

definition example_event_store :: MemStorage where
  "example_event_store =
     snd (createEvent (example_event 3) 700
       (snd (createEvent (example_event 1) 900
         (snd (createEvent (example_event 3) 500 example_store)))))"

text \<open>
  Two strings are equal up to ASCII letter case when folding the ASCII capitals to small
  letters makes them equal.
\<close>

definition ascii_lower_char :: "char \<Rightarrow> char" where
  "ascii_lower_char c =
     (let n = (of_char c :: nat) in if 65 \<le> n \<and> n \<le> 90 then char_of (n + 32) else c)"

definition eq_up_to_ascii_case :: "string \<Rightarrow> string \<Rightarrow> bool" where
  "eq_up_to_ascii_case a b = (map ascii_lower_char a = map ascii_lower_char b)"

text \<open>A store in which two contracts have addresses that differ in letter case only.\<close>

definition twin_contract :: "string \<Rightarrow> string \<Rightarrow> InsertContract" where
  "twin_contract name address =
     \<lparr>ins_contract_name = name, ins_contract_address = address, ins_contract_type = ''FEED'',
      ins_contract_abi = None, ins_contract_status = None\<rparr>"

definition twin_store :: MemStorage where
  "twin_store =
     snd (createContract (twin_contract ''Second'' ''0xab'') 2001
       (snd (createContract (twin_contract ''First'' ''0xAB'') 2000 example_store)))"

text \<open>The store after the example run: three alerts, the first of them resolved.\<close>

definition example_alert_store :: MemStorage where
  "example_alert_store = snd (run_ops example_ops example_store)"

text \<open>An alert for a contract that is not stored, with an empty analysis text.\<close>

definition orphan_alert :: InsertAlert where
  "orphan_alert =
     \<lparr>ins_alert_contractId = 999, ins_alert_severity = ''LOW'',
      ins_alert_title = ''Notice'', ins_alert_description = ''Something happened'',
      ins_alert_aiAnalysis = Some '''', ins_alert_resolved = None\<rparr>"



text \<open>
  A system to evaluate the services on: the store of the example, the clock starting at
  1000, the random source constantly 0, and a network given as \<open>net\<close>.
\<close>

definition example_ethers :: ethers where
  "example_ethers =
     \<lparr>JsonRpcProvider_new = (\<lambda>url. Inl (Error ''could not detect network'')),
      Contract_new = (\<lambda>address abi. Inr ())\<rparr>"

definition example_world :: "(nat \<Rightarrow> fetch_result) \<Rightarrow> world" where
  "example_world net = initial_world example_env example_ethers (\<lambda>k. 1000 + int k) (\<lambda>k. 0) net"

definition example_system :: "(nat \<Rightarrow> fetch_result) \<Rightarrow> system" where
  "example_system net = the_system (example_world net)"

definition example_contract :: Contract where
  "example_contract =
     \<lparr>contract_id = 1, contract_name = ''Guardian Feed'',
      contract_address = ''0xea1Ad2Ebf76b490a327eF1885863c9209994F015'',
      contract_type = ''FEED'', contract_abi = None, contract_status = ''HEALTHY'',
      contract_addedAt = 1000\<rparr>"

definition network_down :: "nat \<Rightarrow> fetch_result" where
  "network_down k = Rejects (Error ''fetch failed'')"

definition rate_limited :: "nat \<Rightarrow> fetch_result" where
  "rate_limited k =
     Resolves \<lparr>resp_ok = False, resp_text = Inr ''rate limit exceeded'',
               resp_json = Inl (Error ''Unexpected token'')\<rparr>"

text \<open>A request fails when \<open>fetch\<close> rejects (a network error) or the response is not OK.\<close>

definition request_failed :: "fetch_result \<Rightarrow> bool" where
  "request_failed r = (case r of Rejects err \<Rightarrow> True | Resolves response \<Rightarrow> \<not> resp_ok response)"

text \<open>Two random sources that differ at every draw.\<close>

definition random_zero :: "nat \<Rightarrow> rat" where
  "random_zero k = 0"

definition random_half :: "nat \<Rightarrow> rat" where
  "random_half k = 1 / 2"

text \<open>A network whose every answer is the given analysis text, with 120 tokens used.\<close>

definition answers :: "string \<Rightarrow> nat \<Rightarrow> fetch_result" where
  "answers text k =
     Resolves \<lparr>resp_ok = True, resp_text = Inr text,
               resp_json = Inr \<lparr>choices = Some [Some text], total_tokens = Some 120\<rparr>\<rparr>"

definition example_analysis :: string where
  "example_analysis = ''Possible integer Overflow in transfer(); also a REENTRANCY risk and a gas optimization.''"

text \<open>
  The alert the monitor stores for an indicator: severity and title of the indicator,
  the analysis text as description, no \<open>aiAnalysis\<close>, not resolved.
\<close>

definition indicator_alert :: "indicator \<Rightarrow> Contract \<Rightarrow> string \<Rightarrow> int \<Rightarrow> Date \<Rightarrow> Alert" where
  "indicator_alert ind contract text id' now =
     \<lparr>alert_id = id',
      alert_contractId = contract_id contract,
      alert_severity = severity ind,
      alert_title = title ind,
      alert_description = text,
      alert_aiAnalysis = None,
      alert_createdAt = now,
      alert_resolved = False\<rparr>"

section \<open>The routes (server/routes.ts)\<close>

text \<open>
  \<open>registerRoutes\<close> initialises the blockchain service and calls \<open>start\<close> without
  awaiting it: with an API key set, \<open>start\<close> still waits for its response when the
  server begins to serve. Of the routes, four change the state; a timer that fires and
  a response that arrives are the other ways the state moves. A handler runs until it
  returns or awaits the network, and the events are served in the order they come.
\<close>

definition registerRoutes :: "world \<Rightarrow> world" where
  "registerRoutes w =
     (case BlockchainService_initialize (the_system w) of
        (Inl err, sys1) \<Rightarrow> w\<lparr>the_system := sys1\<rparr>
      | (Inr blockchainInitialized, sys1) \<Rightarrow> snd (start (w\<lparr>the_system := sys1\<rparr>)))"

datatype request =
    PostAlertResolve int
  | PostAnalyzeContract int
  | PostMonitorStart
  | PostMonitorStop
  | TimerFires nat
  | ResponseArrives nat

fun handle :: "request \<Rightarrow> world \<Rightarrow> world" where
  "handle (PostAlertResolve id') w =
     w\<lparr>the_system := (the_system w)\<lparr>storage := snd (resolveAlert id' (storage (the_system w)))\<rparr>\<rparr>"
| "handle (PostAnalyzeContract contractId) w =
     (case getContract contractId (storage (the_system w)) of
        None \<Rightarrow> w
      | Some contract \<Rightarrow> scanContract (contract_address contract) w)"
| "handle PostMonitorStart w = (if isActive w then w else snd (start w))"
| "handle PostMonitorStop w = (if \<not> isActive w then w else stop w)"
| "handle (TimerFires h) w = timer_fires h w"
| "handle (ResponseArrives k) w = response_arrives k w"

definition serve :: "request list \<Rightarrow> world \<Rightarrow> world" where
  "serve reqs w = fold handle reqs w"

section \<open>What the monitor is written to keep\<close>

text \<open>
  \<open>start\<close> and \<open>stop\<close> are written to keep this: while the monitor runs, the timers
  that are set are its two, the security checks every 30 minutes and the AI analysis
  every 2 hours, under the handles it holds; while it is stopped, no timer is set and it
  holds no handle.
\<close>

definition monitor_inv :: "world \<Rightarrow> bool" where
  "monitor_inv w =
     (if isRunning (monitorService w)
      then (case (checkInterval (monitorService w), analysisInterval (monitorService w)) of
              (Some h1, Some h2) \<Rightarrow>
                h1 \<noteq> h2
                \<and> timers w = [(h1, 30 * 60 * 1000, RunSecurityChecks),
                              (h2, 2 * 60 * 60 * 1000, RunAIAnalysis)]
            | _ \<Rightarrow> False)
      else timers w = [] \<and> checkInterval (monitorService w) = None
           \<and> analysisInterval (monitorService w) = None)"

text \<open>One round of health checks over all stored contracts.\<close>

definition security_round :: "system \<Rightarrow> system" where
  "security_round sys = fold checkContractHealth (getContracts (storage sys)) sys"

section \<open>The contracts of the running system\<close>

definition known_status :: "string \<Rightarrow> bool" where
  "known_status status = (status = ''HEALTHY'' \<or> status = ''WARNING'' \<or> status = ''ALERT'')"

definition statuses_known :: "MemStorage \<Rightarrow> bool" where
  "statuses_known s = list_all (\<lambda>c. known_status (contract_status c)) (getContracts s)"

text \<open>
  What the services keep true of the contracts: every status is one of the three, and
  the three contracts of the constructor are there (no operation removes a contract).
\<close>

definition contracts_inv :: "MemStorage \<Rightarrow> bool" where
  "contracts_inv s = (statuses_known s \<and> 3 \<le> length (contracts s))"

text \<open>
  A property of the store is stable when the mutations that the services and the routes
  perform keep it: the creates of alerts, events and AI queries, a status update to one
  of the three statuses, and resolving an alert.
\<close>

definition store_stable :: "(MemStorage \<Rightarrow> bool) \<Rightarrow> bool" where
  "store_stable P =
     (\<forall>s. P s \<longrightarrow>
        (\<forall>a now. P (snd (createAlert a now s)))
        \<and> (\<forall>e now. P (snd (createEvent e now s)))
        \<and> (\<forall>q now. P (snd (createAiQuery q now s)))
        \<and> (\<forall>i status. known_status status \<longrightarrow> P (snd (updateContractStatus i status s)))
        \<and> (\<forall>i. P (snd (resolveAlert i s))))"

text \<open>
  Two states of the system agree outside the store when they have the same environment,
  the same blockchain service, the same requests sent and the same network.
\<close>

definition same_outside :: "system \<Rightarrow> system \<Rightarrow> bool" where
  "same_outside sys sys' =
     (env sys' = env sys \<and> blockchainService sys' = blockchainService sys
      \<and> requests sys' = requests sys \<and> respond sys' = respond sys)"

text \<open>
  The example server: the example world, with an API key set and a network that answers,
  after \<open>registerRoutes\<close>. In \<open>overlapping_starts\<close> a \<open>POST /api/monitor/start\<close>
  comes before the response to the request of the first \<open>start\<close>; in
  \<open>starts_in_turn\<close> it comes after it.
\<close>

definition example_server :: world where
  "example_server = registerRoutes (example_world (answers example_analysis))"

definition overlapping_starts :: "request list" where
  "overlapping_starts = [PostMonitorStart, ResponseArrives 0, ResponseArrives 1]"

definition starts_in_turn :: "request list" where
  "starts_in_turn = [ResponseArrives 0, PostMonitorStart]"

section \<open>Properties of the store\<close>

lemma insert_by_mset: "mset (insert_by cmp x ys) = add_mset x (mset ys)"
  by (induction ys) auto

lemma Array_sort_mset: "mset (Array_sort cmp xs) = mset xs"
  unfolding Array_sort_def by (induction xs) (auto simp: insert_by_mset)

lemma Map_get_set: "Map_get (Map_set m k v) k' = (if k' = k then Some v else Map_get m k')"
  by (simp add: Map_get_def Map_set_def update_conv')

lemma Map_set_fresh: "k \<notin> set (Map_keys m) \<Longrightarrow> Map_set m k v = m @ [(k, v)]"
  unfolding Map_set_def Map_keys_def by (induction m) auto

lemma Map_keys_set_present: "k \<in> set (Map_keys m) \<Longrightarrow> Map_keys (Map_set m k v) = Map_keys m"
  unfolding Map_set_def Map_keys_def by (simp add: update_keys)

lemma Map_get_None_iff: "Map_get m k = None \<longleftrightarrow> k \<notin> set (Map_keys m)"
  unfolding Map_get_def Map_keys_def by (simp add: map_of_eq_None_iff)

lemma length_Map_set_present: "k \<in> set (Map_keys m) \<Longrightarrow> length (Map_set m k v) = length m"
  using Map_keys_set_present[of k m v] unfolding Map_keys_def
  by (metis length_map)

lemma length_Map_set_get: "Map_get m k = Some v \<Longrightarrow> length (Map_set m k v') = length m"
  using length_Map_set_present[of k m v'] Map_get_None_iff[of m k] by auto

lemma Map_wf_fresh: "Map_wf ident m c \<Longrightarrow> c \<notin> set (Map_keys m)"
  unfolding Map_wf_def by (auto simp: list_all_iff)

lemma Map_wf_insert:
  assumes "Map_wf ident m c" "ident v = c"
  shows "Map_wf ident (Map_set m c v) (c + 1)"
proof -
  have fresh: "c \<notin> set (Map_keys m)" using assms(1) by (rule Map_wf_fresh)
  have eq: "Map_set m c v = m @ [(c, v)]" using fresh by (rule Map_set_fresh)
  show ?thesis using assms fresh unfolding eq Map_wf_def Map_keys_def Map_values_def
    by (auto simp: list_all_iff)
qed

lemma Map_values_set_present:
  "Map_get m k = Some v \<Longrightarrow> ident v' = ident v \<Longrightarrow>
     map ident (Map_values (Map_set m k v')) = map ident (Map_values m)"
  unfolding Map_get_def Map_set_def Map_values_def
  by (induction m) (auto split: if_splits)

lemma Map_wf_replace:
  assumes "Map_wf ident m c" "Map_get m k = Some v" "ident v' = ident v"
  shows "Map_wf ident (Map_set m k v') c"
proof -
  have "k \<in> set (Map_keys m)" using assms(2) Map_get_None_iff[of m k] by auto
  then have "Map_keys (Map_set m k v') = Map_keys m" by (rule Map_keys_set_present)
  then show ?thesis using assms Map_values_set_present[OF assms(2,3)]
    unfolding Map_wf_def by simp
qed

lemma createUser_inv: "store_inv s \<Longrightarrow> store_inv (snd (createUser u s))"
  using Map_wf_insert[of user_id "users s" "userCurrentId s"]
  unfolding store_inv_def createUser_def by (simp add: Let_def)

lemma createContract_inv: "store_inv s \<Longrightarrow> store_inv (snd (createContract c now s))"
  using Map_wf_insert[of contract_id "contracts s" "contractCurrentId s"]
  unfolding store_inv_def createContract_def by (simp add: Let_def)

lemma createAlert_inv: "store_inv s \<Longrightarrow> store_inv (snd (createAlert a now s))"
  using Map_wf_insert[of alert_id "alerts s" "alertCurrentId s"]
  unfolding store_inv_def createAlert_def by (simp add: Let_def)

lemma createEvent_inv: "store_inv s \<Longrightarrow> store_inv (snd (createEvent e now s))"
  using Map_wf_insert[of event_id "events s" "eventCurrentId s"]
  unfolding store_inv_def createEvent_def by (simp add: Let_def)

lemma createAiQuery_inv: "store_inv s \<Longrightarrow> store_inv (snd (createAiQuery q now s))"
  using Map_wf_insert[of query_id "aiQueries s" "aiQueryCurrentId s"]
  unfolding store_inv_def createAiQuery_def by (simp add: Let_def)

lemma updateContractStatus_inv:
  "store_inv s \<Longrightarrow> store_inv (snd (updateContractStatus i status s))"
  unfolding store_inv_def updateContractStatus_def
  by (auto simp: Let_def split: option.splits intro: Map_wf_replace)

lemma resolveAlert_inv: "store_inv s \<Longrightarrow> store_inv (snd (resolveAlert i s))"
  unfolding store_inv_def resolveAlert_def
  by (auto simp: Let_def split: option.splits intro: Map_wf_replace)

lemma perform_inv: "store_inv s \<Longrightarrow> store_inv (snd (perform op s))"
  by (cases op)
     (simp_all add: split_def Let_def createUser_inv createContract_inv createAlert_inv
        createEvent_inv createAiQuery_inv updateContractStatus_inv resolveAlert_inv)

lemma MemStorage_new_inv: "store_inv (MemStorage_new e t1 t2 t3)"
  unfolding MemStorage_new_def initGuardianContracts_def Let_def
  by (intro createContract_inv) (simp add: store_inv_def Map_wf_def Map_keys_def Map_values_def)

lemmas create_defs = createUser_def createContract_def createAlert_def createEvent_def
  createAiQuery_def

lemma store_inv_fresh:
  assumes "store_inv s"
  shows "userCurrentId s \<notin> set (Map_keys (users s))"
    and "contractCurrentId s \<notin> set (Map_keys (contracts s))"
    and "alertCurrentId s \<notin> set (Map_keys (alerts s))"
    and "eventCurrentId s \<notin> set (Map_keys (events s))"
    and "aiQueryCurrentId s \<notin> set (Map_keys (aiQueries s))"
  using assms unfolding store_inv_def by (auto dest: Map_wf_fresh)

lemma perform_Some_same:
  assumes "store_inv s" "perform op s = (Some (k, i), s')"
  shows "i = counter k s \<and> counter k s' = i + 1 \<and> entries k s' = Suc (entries k s)"
  using assms(2) store_inv_fresh[OF assms(1)]
  by (cases op) (auto simp: create_defs Let_def Map_set_fresh)

lemma perform_Some_other:
  assumes "perform op s = (Some (k, i), s')" "k' \<noteq> k"
  shows "counter k' s' = counter k' s \<and> entries k' s' = entries k' s"
  using assms by (cases op; cases k') (auto simp: create_defs Let_def)

lemma perform_None:
  assumes "perform op s = (None, s')"
  shows "counter k s' = counter k s \<and> entries k s' = entries k s"
proof (cases op)
  case (UpdateContractStatus i status)
  then show ?thesis using assms
    by (cases k)
       (auto simp: updateContractStatus_def Let_def length_Map_set_get split: option.splits)
next
  case (ResolveAlert i)
  then show ?thesis using assms
    by (cases k)
       (auto simp: resolveAlert_def Let_def length_Map_set_get split: option.splits)
qed (use assms in \<open>auto simp: split_def Let_def\<close>)

lemma run_ops_bounds:
  assumes "store_inv s"
  shows "store_inv (snd (run_ops ops s))
     \<and> (\<forall>i \<in> set (assigned_ids k ops s). counter k s \<le> i \<and> i < counter k (snd (run_ops ops s)))
     \<and> counter k s \<le> counter k (snd (run_ops ops s))
     \<and> sorted_wrt (<) (assigned_ids k ops s)
     \<and> entries k (snd (run_ops ops s)) = entries k s + length (assigned_ids k ops s)"
  using assms
proof (induction ops arbitrary: s)
  case Nil
  then show ?case by (simp add: assigned_ids_def)
next
  case (Cons op ops)
  obtain r s1 where p: "perform op s = (r, s1)" by (cases "perform op s")
  have inv1: "store_inv s1" using perform_inv[OF Cons.prems, of op] p by simp
  note IH = Cons.IH[OF inv1]
  have run: "run_ops (op # ops) s = ((case r of None \<Rightarrow> [] | Some q \<Rightarrow> [q]) @ fst (run_ops ops s1), snd (run_ops ops s1))"
    using p by (simp add: split_def Let_def)
  show ?case
  proof (cases r)
    case None
    have c: "counter k s1 = counter k s" "entries k s1 = entries k s"
      using perform_None[of op s s1 k] p None by auto
    have a: "assigned_ids k (op # ops) s = assigned_ids k ops s1"
      using run None by (simp add: assigned_ids_def)
    show ?thesis using IH c unfolding a run by simp
  next
    case (Some q)
    obtain k0 i0 where q: "q = (k0, i0)" by (cases q)
    show ?thesis
    proof (cases "k0 = k")
      case True
      have c: "i0 = counter k s" "counter k s1 = i0 + 1" "entries k s1 = Suc (entries k s)"
        using perform_Some_same[OF Cons.prems, of op k i0 s1] p Some q True by auto
      have a: "assigned_ids k (op # ops) s = i0 # assigned_ids k ops s1"
        using run Some q True by (simp add: assigned_ids_def)
      show ?thesis using IH c unfolding a run by auto
    next
      case False
      have c: "counter k s1 = counter k s" "entries k s1 = entries k s"
        using perform_Some_other[of op s k0 i0 s1 k] p Some q False by auto
      have a: "assigned_ids k (op # ops) s = assigned_ids k ops s1"
        using run Some q False by (simp add: assigned_ids_def)
      show ?thesis using IH c unfolding a run by simp
    qed
  qed
qed

subsection \<open>The example store\<close>

lemma example_store_inv: "store_inv example_store"
  unfolding example_store_def by (rule MemStorage_new_inv)

lemma example_assigned: "assigned_ids AlertKind example_ops example_store = [1, 2, 3]"
  by (simp add: assigned_ids_def example_ops_def example_store_def MemStorage_new_def
      initGuardianContracts_def create_defs Let_def example_alert_def Map_set_def
      resolveAlert_def updateContractStatus_def Map_get_def)

subsection \<open>Sorting and limiting events\<close>

lemma insert_by_timestamp_insort:
  "insert_by by_timestamp_desc x ys = insort_key (\<lambda>e. - event_timestamp e) x ys"
  by (induction ys) (auto simp: by_timestamp_desc_def)

lemma Array_sort_timestamp:
  "Array_sort by_timestamp_desc xs = sort_key (\<lambda>e. - event_timestamp e) xs"
  unfolding Array_sort_def sort_key_def
  by (induction xs) (auto simp: insert_by_timestamp_insort)

lemma Array_sort_timestamp_sorted:
  "sorted_wrt (\<lambda>a b. event_timestamp a \<ge> event_timestamp b) (Array_sort by_timestamp_desc xs)"
proof -
  have "sorted (map (\<lambda>e. - event_timestamp e) (sort_key (\<lambda>e. - event_timestamp e) xs))"
    by (rule sorted_sort_key)
  then show ?thesis
    unfolding Array_sort_timestamp by (simp add: sorted_map)
qed

lemma Array_sort_timestamp_stable:
  "filter (\<lambda>e. event_timestamp e = t) (Array_sort by_timestamp_desc xs)
     = filter (\<lambda>e. event_timestamp e = t) xs"
  using sort_key_stable[of "\<lambda>e. - event_timestamp e" "- t" xs]
  unfolding Array_sort_timestamp by simp

lemma Array_slice0_positive: "0 < n \<Longrightarrow> Array_slice0 xs n = take (nat n) xs"
  unfolding Array_slice0_def Let_def by (cases "n \<le> int (length xs)") (auto simp: min_def)

lemma example_getEvents:
  "map event_id (getEvents None example_event_store) = [2, 3, 1]
   \<and> map event_timestamp (getEvents None example_event_store) = [900, 700, 500]"
  by (simp add: getEvents_def example_event_store_def example_store_def MemStorage_new_def
      initGuardianContracts_def create_defs Let_def example_event_def Map_set_def
      Map_values_def Array_sort_def by_timestamp_desc_def)

subsection \<open>Looking a contract up by its address\<close>

lemma of_char_char_of_small: "n < 256 \<Longrightarrow> (of_char (char_of n :: char) :: nat) = n"
  by simp

lemma toLowerCase_ascii_lower_char: "toLowerCase_char (ascii_lower_char c) = toLowerCase_char c"
proof -
  let ?n = "of_char c :: nat"
  show ?thesis
  proof (cases "65 \<le> ?n \<and> ?n \<le> 90")
    case True
    then have "(of_char (char_of (?n + 32) :: char) :: nat) = ?n + 32"
      by (intro of_char_char_of_small) simp
    then show ?thesis using True
      by (simp add: toLowerCase_char_def ascii_lower_char_def Let_def)
  next
    case False
    then show ?thesis by (auto simp: ascii_lower_char_def Let_def)
  qed
qed

lemma toLowerCase_ascii_lower: "toLowerCase (map ascii_lower_char s) = toLowerCase s"
  unfolding toLowerCase_def by (induction s) (simp_all add: toLowerCase_ascii_lower_char)

lemma eq_up_to_ascii_case_toLowerCase:
  "eq_up_to_ascii_case a b \<Longrightarrow> toLowerCase a = toLowerCase b"
  unfolding eq_up_to_ascii_case_def
  by (metis toLowerCase_ascii_lower)

lemma find_first_match:
  "c \<in> set cs \<Longrightarrow> P c \<Longrightarrow> \<exists>c'. find P cs = Some c' \<and> c' \<in> set cs \<and> P c'"
  by (induction cs) auto

lemma find_unique_match:
  assumes "c \<in> set cs" and "P c" and "\<forall>c' \<in> set cs. P c' \<longrightarrow> c' = c"
  shows "find P cs = Some c"
proof -
  obtain c' where "find P cs = Some c'" "c' \<in> set cs" "P c'"
    using find_first_match[of c cs P] assms(1,2) by blast
  then show ?thesis using assms(3) by auto
qed

lemma twin_lookup:
  "map_option contract_name (getContractByAddress ''0xab'' twin_store) = Some ''First''"
  by code_simp

lemma twin_second_stored:
  "\<exists>c \<in> set (Map_values (contracts twin_store)).
      contract_name c = ''Second'' \<and> contract_address c = ''0xab''"
  by code_simp

lemma twin_first_at:
  "length (Map_values (contracts twin_store)) = 5
   \<and> contract_name (Map_values (contracts twin_store) ! 3) = ''First''
   \<and> contract_address (Map_values (contracts twin_store) ! 3) = ''0xAB''
   \<and> contract_name (Map_values (contracts twin_store) ! 4) = ''Second''
   \<and> contract_address (Map_values (contracts twin_store) ! 4) = ''0xab''"
  by code_simp

lemma twin_none_before:
  "list_all (\<lambda>c. toLowerCase (contract_address c) \<noteq> toLowerCase ''0xab'')
     (take 3 (Map_values (contracts twin_store)))"
  by code_simp

subsection \<open>Resolving an alert\<close>

lemma Map_keys_set_get: "Map_get m k = Some v \<Longrightarrow> Map_keys (Map_set m k v') = Map_keys m"
  using Map_keys_set_present[of k m v'] Map_get_None_iff[of m k] by auto

lemma example_alert_store_keys: "Map_keys (alerts example_alert_store) = [1, 2, 3]"
  by code_simp

lemma example_alert_store_second:
  "map_option alert_resolved (Map_get (alerts example_alert_store) 2) = Some False"
  by code_simp

lemma example_alert_store_missing: "Map_get (alerts example_alert_store) 99 = None"
  by code_simp

lemma orphan_contract_missing: "Map_get (contracts example_store) 999 = None"
  by code_simp

section \<open>Properties of the AI service\<close>

lemma storage_createAiQuery_frame:
  "requests (snd (storage_createAiQuery q sys)) = requests sys
   \<and> env (snd (storage_createAiQuery q sys)) = env sys
   \<and> respond (snd (storage_createAiQuery q sys)) = respond sys
   \<and> blockchainService (snd (storage_createAiQuery q sys)) = blockchainService sys"
  by (simp add: storage_createAiQuery_def new_Date_def split_def Let_def)

lemma analyze_try_requests:
  "requests (snd (analyze_try c p sys)) = requests sys @ [chat_request (env sys) p]"
  by (simp add: analyze_try_def analyze_response_def fetch_def Let_def split_def storage_createAiQuery_frame
      split: fetch_result.splits sum.splits option.splits)

text \<open>What the \<open>try\<close> block throws, by the way the request ends.\<close>

lemma analyze_try_result:
  "fst (analyze_try c p sys) =
     (case respond sys (length (requests sys)) of
        Rejects err \<Rightarrow> Inl err
      | Resolves response \<Rightarrow>
          if \<not> resp_ok response
          then (case resp_text response of
                  Inl err \<Rightarrow> Inl err
                | Inr body \<Rightarrow> Inl (Error (''Groq API error: '' @ body)))
          else (case resp_json response of
                  Inl err \<Rightarrow> Inl err
                | Inr data \<Rightarrow>
                    (case choices data of
                       None \<Rightarrow> Inl (Error ''Cannot read properties of undefined (reading '0')'')
                     | Some cs \<Rightarrow>
                         Inr \<lparr>analysis = first_content cs,
                              tokenCount = or_else truthy_number (total_tokens data) 0\<rparr>)))"
  by (simp add: analyze_try_def analyze_response_def fetch_def Let_def split_def
      split: fetch_result.splits sum.splits option.splits)

lemma analyze_try_failed:
  assumes "request_failed (respond sys (length (requests sys)))"
  shows "\<exists>err. analyze_try c p sys = (Inl err, sys\<lparr>requests := requests sys @ [chat_request (env sys) p]\<rparr>)"
  using assms
  by (auto simp: request_failed_def analyze_try_def analyze_response_def fetch_def Let_def
      split: fetch_result.splits sum.splits)

lemma analyzeContract_cases:
  "\<exists>r. fst (GroqService_analyzeContract c code sys) = Inr r
     \<and> (requests (snd (GroqService_analyzeContract c code sys)) = requests sys
        \<or> requests (snd (GroqService_analyzeContract c code sys))
            = requests sys @ [chat_request (env sys) (contract_prompt c code)])
     \<and> (\<not> truthy_string (GROQ_API_KEY (env sys))
          \<longrightarrow> snd (GroqService_analyzeContract c code sys) = sys
              \<and> r = \<lparr>analysis = ''AI analysis unavailable: API key not configured'', tokenCount = 0\<rparr>)
     \<and> (truthy_string (GROQ_API_KEY (env sys)) \<and> request_failed (respond sys (length (requests sys)))
          \<longrightarrow> tokenCount r = 0 \<and> (\<exists>m. analysis r = ''Error analyzing contract: '' @ m)
              \<and> storage (snd (GroqService_analyzeContract c code sys)) = storage sys
              \<and> length (requests (snd (GroqService_analyzeContract c code sys)))
                  = length (requests sys) + 1)
     \<and> (\<forall>err. truthy_string (GROQ_API_KEY (env sys))
              \<and> respond sys (length (requests sys)) = Rejects err
          \<longrightarrow> analysis r = ''Error analyzing contract: '' @ message err)"
proof (cases "truthy_string (GROQ_API_KEY (env sys))")
  case False
  then show ?thesis by (simp add: GroqService_analyzeContract_def)
next
  case True
  let ?p = "contract_prompt c code"
  obtain res sys1 where t: "analyze_try c ?p sys = (res, sys1)" by (cases "analyze_try c ?p sys")
  have req: "requests sys1 = requests sys @ [chat_request (env sys) ?p]"
    using analyze_try_requests[of c ?p sys] t by simp
  have res: "res = (case respond sys (length (requests sys)) of
        Rejects err \<Rightarrow> Inl err
      | Resolves response \<Rightarrow>
          if \<not> resp_ok response
          then (case resp_text response of
                  Inl err \<Rightarrow> Inl err
                | Inr body \<Rightarrow> Inl (Error (''Groq API error: '' @ body)))
          else (case resp_json response of
                  Inl err \<Rightarrow> Inl err
                | Inr data \<Rightarrow>
                    (case choices data of
                       None \<Rightarrow> Inl (Error ''Cannot read properties of undefined (reading '0')'')
                     | Some cs \<Rightarrow>
                         Inr \<lparr>analysis = first_content cs,
                              tokenCount = or_else truthy_number (total_tokens data) 0\<rparr>)))"
    using analyze_try_result[of c ?p sys] t by simp
  have failed: "request_failed (respond sys (length (requests sys)))
      \<Longrightarrow> \<exists>err. res = Inl err \<and> storage sys1 = storage sys"
    using analyze_try_failed[of sys c ?p] t by auto
  show ?thesis
  proof (cases res)
    case (Inl err)
    then have out: "GroqService_analyzeContract c code sys
        = (Inr \<lparr>analysis = ''Error analyzing contract: '' @ message err, tokenCount = 0\<rparr>, sys1)"
      using True t by (simp add: GroqService_analyzeContract_def Let_def)
    have rej: "\<And>e. respond sys (length (requests sys)) = Rejects e \<Longrightarrow> err = e"
      using res Inl by simp
    show ?thesis using True req failed rej unfolding out by auto
  next
    case (Inr result)
    then have out: "GroqService_analyzeContract c code sys = (Inr result, sys1)"
      using True t by (simp add: GroqService_analyzeContract_def Let_def)
    have nofail: "\<not> request_failed (respond sys (length (requests sys)))"
      using failed Inr by auto
    have norej: "\<And>e. respond sys (length (requests sys)) \<noteq> Rejects e"
      using nofail by (auto simp: request_failed_def)
    show ?thesis using True req nofail norej unfolding out by auto
  qed
qed

lemma example_system_key:
  "truthy_string (GROQ_API_KEY (env (example_system net)))"
  by (simp add: example_system_def example_world_def initial_world_def example_env_def
      GROQ_API_KEY_def or_else_def truthy_string_def)

lemma example_system_requests: "requests (example_system net) = []"
  by (simp add: example_system_def example_world_def initial_world_def)

lemma example_system_respond: "respond (example_system net) = net"
  by (simp add: example_system_def example_world_def initial_world_def)

lemma example_rate_limited:
  "map_sum message analysis
     (fst (GroqService_analyzeContract example_contract dummy_bytecode (example_system rate_limited)))
     = Inr ''Error analyzing contract: Groq API error: rate limit exceeded''"
  using example_system_key[of rate_limited]
  by (simp add: GroqService_analyzeContract_def analyze_try_def analyze_response_def fetch_def Let_def
      example_system_requests example_system_respond rate_limited_def)

lemma analyzeEvent_throws:
  assumes "truthy_string (GROQ_API_KEY (env sys))" "JSON_stringify data = Inl err"
  shows "GroqService_analyzeEvent c name data sys = (Inl err, sys)"
  using assms by (simp add: GroqService_analyzeEvent_def)

lemma analyzeEvent_cases:
  assumes "JSON_stringify data = Inr eventJson"
  shows "\<exists>r. fst (GroqService_analyzeEvent c name data sys) = Inr r
     \<and> (requests (snd (GroqService_analyzeEvent c name data sys)) = requests sys
        \<or> requests (snd (GroqService_analyzeEvent c name data sys))
            = requests sys @ [chat_request (env sys) (event_prompt c name eventJson)])
     \<and> (\<not> truthy_string (GROQ_API_KEY (env sys))
          \<longrightarrow> snd (GroqService_analyzeEvent c name data sys) = sys
              \<and> r = \<lparr>analysis = ''AI analysis unavailable: API key not configured'', tokenCount = 0\<rparr>)
     \<and> (truthy_string (GROQ_API_KEY (env sys)) \<and> request_failed (respond sys (length (requests sys)))
          \<longrightarrow> tokenCount r = 0 \<and> (\<exists>m. analysis r = ''Error analyzing event: '' @ m)
              \<and> storage (snd (GroqService_analyzeEvent c name data sys)) = storage sys
              \<and> length (requests (snd (GroqService_analyzeEvent c name data sys)))
                  = length (requests sys) + 1)
     \<and> (\<forall>err. truthy_string (GROQ_API_KEY (env sys))
              \<and> respond sys (length (requests sys)) = Rejects err
          \<longrightarrow> analysis r = ''Error analyzing event: '' @ message err)"
proof (cases "truthy_string (GROQ_API_KEY (env sys))")
  case False
  then show ?thesis by (simp add: GroqService_analyzeEvent_def)
next
  case True
  let ?p = "event_prompt c name eventJson"
  obtain res sys1 where t: "analyze_try c ?p sys = (res, sys1)" by (cases "analyze_try c ?p sys")
  have req: "requests sys1 = requests sys @ [chat_request (env sys) ?p]"
    using analyze_try_requests[of c ?p sys] t by simp
  have failed: "request_failed (respond sys (length (requests sys)))
      \<Longrightarrow> \<exists>err. res = Inl err \<and> storage sys1 = storage sys"
    using analyze_try_failed[of sys c ?p] t by auto
  show ?thesis
  proof (cases res)
    case (Inl err)
    then have out: "GroqService_analyzeEvent c name data sys
        = (Inr \<lparr>analysis = ''Error analyzing event: '' @ message err, tokenCount = 0\<rparr>, sys1)"
      using True t assms by (simp add: GroqService_analyzeEvent_def Let_def)
    have rej: "\<And>e. respond sys (length (requests sys)) = Rejects e \<Longrightarrow> err = e"
      using analyze_try_result[of c ?p sys] t Inl by simp
    show ?thesis using True req failed rej unfolding out by auto
  next
    case (Inr result)
    then have out: "GroqService_analyzeEvent c name data sys = (Inr result, sys1)"
      using True t assms by (simp add: GroqService_analyzeEvent_def Let_def)
    have nofail: "\<not> request_failed (respond sys (length (requests sys)))"
      using failed Inr by auto
    have norej: "\<And>e. respond sys (length (requests sys)) \<noteq> Rejects e"
      using nofail by (auto simp: request_failed_def)
    show ?thesis using True req nofail norej unfolding out by auto
  qed
qed

text \<open>\<open>analyzeEvent\<close> throws exactly when it has a key and the event data has no JSON text.\<close>

lemma analyzeEvent_throws_iff:
  "(\<exists>err. fst (GroqService_analyzeEvent c name data sys) = Inl err)
     \<longleftrightarrow> truthy_string (GROQ_API_KEY (env sys)) \<and> (\<exists>err. JSON_stringify data = Inl err)"
proof (cases "JSON_stringify data")
  case (Inl err)
  then show ?thesis
    by (cases "truthy_string (GROQ_API_KEY (env sys))")
       (simp_all add: analyzeEvent_throws GroqService_analyzeEvent_def)
next
  case (Inr eventJson)
  then show ?thesis using analyzeEvent_cases[OF Inr, of c name sys] by auto
qed

lemma JSON_stringify_example:
  "JSON_stringify (JObj [(''tokenId'', JStr ''42''), (''ids'', JArr [JNum 1, JNum 20]), (''none'', JArr [])])
     = Inr (''{'' @ [CHR 0x0A]
            @ ''  '' @ [CHR 0x22] @ ''tokenId'' @ [CHR 0x22] @ '': '' @ [CHR 0x22] @ ''42'' @ [CHR 0x22] @ '','' @ [CHR 0x0A]
            @ ''  '' @ [CHR 0x22] @ ''ids'' @ [CHR 0x22] @ '': ['' @ [CHR 0x0A]
            @ ''    1,'' @ [CHR 0x0A]
            @ ''    20'' @ [CHR 0x0A]
            @ ''  ],'' @ [CHR 0x0A]
            @ ''  '' @ [CHR 0x22] @ ''none'' @ [CHR 0x22] @ '': []'' @ [CHR 0x0A]
            @ ''}'')"
  by code_simp



section \<open>Properties of the blockchain service\<close>

lemma DEMO_MODE_always: "DEMO_MODE e"
  by (simp add: DEMO_MODE_def)

lemma example_system_demoMode: "demoMode (blockchainService (example_system net))"
  by (simp add: example_system_def example_world_def initial_world_def BlockchainService_new_def
      DEMO_MODE_always)

lemma random_hex_zero:
  "fst (random_hex 4 ((example_system network_down)\<lparr>random := random_zero\<rparr>)) = ''0000''"
  by code_simp

lemma random_hex_half:
  "fst (random_hex 4 ((example_system network_down)\<lparr>random := random_half\<rparr>)) = ''8888''"
  by code_simp

section \<open>Properties of the monitor\<close>

lemma storage_updateContractStatus_alerts:
  "alerts (storage (storage_updateContractStatus i st sys)) = alerts (storage sys)
   \<and> alertCurrentId (storage (storage_updateContractStatus i st sys)) = alertCurrentId (storage sys)"
  by (simp add: storage_updateContractStatus_def updateContractStatus_def Let_def
      split: option.splits)

lemma update_status_for_alerts:
  "alerts (storage (update_status_for sev c sys)) = alerts (storage sys)
   \<and> alertCurrentId (storage (update_status_for sev c sys)) = alertCurrentId (storage sys)"
  by (simp add: update_status_for_def storage_updateContractStatus_alerts)

lemma MonitorService_createAlert_alerts:
  "alerts (storage (MonitorService_createAlert c sev ttl text None sys))
     = Map_set (alerts (storage sys)) (alertCurrentId (storage sys))
         \<lparr>alert_id = alertCurrentId (storage sys),
          alert_contractId = contract_id c,
          alert_severity = sev,
          alert_title = ttl,
          alert_description = text,
          alert_aiAnalysis = None,
          alert_createdAt = clock sys (clockReads sys),
          alert_resolved = False\<rparr>"
  by (simp add: MonitorService_createAlert_def storage_createAlert_def new_Date_def createAlert_def
      Let_def split_def or_null_def or_else_def truthy_boolean_def)

text \<open>The loop stores the alert of the first indicator that matches, and nothing else.\<close>

lemma check_indicators_alerts:
  "alerts (storage (check_indicators inds c text sys)) =
     (case find (\<lambda>ind. RegExp_test (pattern ind) text) inds of
        None \<Rightarrow> alerts (storage sys)
      | Some ind \<Rightarrow>
          Map_set (alerts (storage sys)) (alertCurrentId (storage sys))
            (indicator_alert ind c text (alertCurrentId (storage sys)) (clock sys (clockReads sys))))"
  by (induction inds)
     (simp_all add: update_status_for_alerts MonitorService_createAlert_alerts indicator_alert_def)

lemma check_indicators_no_match:
  "find (\<lambda>ind. RegExp_test (pattern ind) text) inds = None
     \<Longrightarrow> check_indicators inds c text sys = sys"
  by (induction inds) (simp_all split: if_splits)

lemma storage_createAiQuery_keeps:
  "alerts (storage (snd (storage_createAiQuery q sys))) = alerts (storage sys)"
  "alertCurrentId (storage (snd (storage_createAiQuery q sys))) = alertCurrentId (storage sys)"
  "contracts (storage (snd (storage_createAiQuery q sys))) = contracts (storage sys)"
  "clock (snd (storage_createAiQuery q sys)) = clock sys"
  by (simp_all add: storage_createAiQuery_def new_Date_def split_def Let_def createAiQuery_def)

lemma storage_createAiQuery_inv:
  "store_inv (storage sys) \<Longrightarrow> store_inv (storage (snd (storage_createAiQuery q sys)))"
  using createAiQuery_inv[of "storage sys" q "clock sys (clockReads sys)"]
  by (simp add: storage_createAiQuery_def new_Date_def split_def Let_def)

lemma analyze_try_keeps:
  "alerts (storage (snd (analyze_try c p sys))) = alerts (storage sys)"
  "alertCurrentId (storage (snd (analyze_try c p sys))) = alertCurrentId (storage sys)"
  "contracts (storage (snd (analyze_try c p sys))) = contracts (storage sys)"
  "clock (snd (analyze_try c p sys)) = clock sys"
  by (simp_all add: analyze_try_def analyze_response_def fetch_def Let_def split_def storage_createAiQuery_keeps
      split: fetch_result.splits sum.splits option.splits)

lemma analyze_try_inv:
  "store_inv (storage sys) \<Longrightarrow> store_inv (storage (snd (analyze_try c p sys)))"
  by (simp add: analyze_try_def analyze_response_def fetch_def Let_def split_def storage_createAiQuery_inv
      split: fetch_result.splits sum.splits option.splits)

lemma analyzeContract_keeps:
  "alerts (storage (snd (GroqService_analyzeContract c code sys))) = alerts (storage sys)"
  "alertCurrentId (storage (snd (GroqService_analyzeContract c code sys)))
     = alertCurrentId (storage sys)"
  "contracts (storage (snd (GroqService_analyzeContract c code sys))) = contracts (storage sys)"
  "clock (snd (GroqService_analyzeContract c code sys)) = clock sys"
  by (simp_all add: GroqService_analyzeContract_def Let_def split_def analyze_try_keeps
      split: sum.splits)

lemma analyzeContract_inv:
  "store_inv (storage sys)
     \<Longrightarrow> store_inv (storage (snd (GroqService_analyzeContract c code sys)))"
  by (simp add: GroqService_analyzeContract_def Let_def split_def analyze_try_inv
      split: sum.splits)

lemma vulnerabilityIndicators_table:
  "map (\<lambda>ind. (severity ind, title ind)) vulnerabilityIndicators =
     [(''HIGH'', ''Reentrancy vulnerability''),
      (''HIGH'', ''Access control issue''),
      (''MEDIUM'', ''Integer overflow/underflow''),
      (''MEDIUM'', ''Front-running vulnerability''),
      (''MEDIUM'', ''Logic error''),
      (''LOW'', ''Gas optimization issue'')]"
  by (simp add: vulnerabilityIndicators_def)

lemma find_first_index:
  assumes "i < length xs" "P (xs ! i)" "\<forall>j < i. \<not> P (xs ! j)"
  shows "find P xs = Some (xs ! i)"
  using assms
proof (induction xs arbitrary: i)
  case Nil
  then show ?case by simp
next
  case (Cons x xs)
  show ?case
  proof (cases i)
    case 0
    then show ?thesis using Cons.prems by simp
  next
    case (Suc k)
    have nx: "\<not> P x" using Cons.prems(3) Suc by auto
    have "find P xs = Some (xs ! k)"
    proof (rule Cons.IH)
      show "k < length xs" using Cons.prems(1) Suc by simp
      show "P (xs ! k)" using Cons.prems(2) Suc by simp
      show "\<forall>j < k. \<not> P (xs ! j)"
      proof (intro allI impI)
        fix j assume "j < k"
        then have "Suc j < i" using Suc by simp
        then have "\<not> P ((x # xs) ! Suc j)" using Cons.prems(3) by blast
        then show "\<not> P (xs ! j)" by simp
      qed
    qed
    then show ?thesis using nx Suc by simp
  qed
qed

lemma find_no_index:
  "\<forall>i < length xs. \<not> P (xs ! i) \<Longrightarrow> find P xs = None"
  by (simp add: find_None_iff in_set_conv_nth) blast

lemma example_system_storage:
  "storage (example_system net) = example_store"
  by (simp add: example_system_def example_world_def initial_world_def example_store_def)

lemma example_store_no_alerts: "alerts example_store = [] \<and> alertCurrentId example_store = 1"
  by (simp add: example_store_def MemStorage_new_def initGuardianContracts_def createContract_def
      Let_def)

lemma example_answer:
  "fst (GroqService_analyzeContract example_contract dummy_bytecode
          (example_system (answers example_analysis)))
     = Inr \<lparr>analysis = example_analysis, tokenCount = 120\<rparr>"
proof -
  let ?sys = "example_system (answers example_analysis)"
  let ?p = "contract_prompt example_contract dummy_bytecode"
  have "fst (analyze_try example_contract ?p ?sys)
      = Inr \<lparr>analysis = example_analysis, tokenCount = 120\<rparr>"
    unfolding analyze_try_result
    by (simp add: example_system_requests example_system_respond answers_def first_content_def
        or_else_def truthy_string_def truthy_number_def example_analysis_def)
  then show ?thesis
    using example_system_key[of "answers example_analysis"]
    by (simp add: GroqService_analyzeContract_def Let_def split_def)
qed

lemma example_analysis_matches:
  "RegExp_test (pattern (vulnerabilityIndicators ! 0)) example_analysis
   \<and> RegExp_test (pattern (vulnerabilityIndicators ! 2)) example_analysis
   \<and> RegExp_test (pattern (vulnerabilityIndicators ! 5)) example_analysis"
  by code_simp

subsection \<open>Starting and stopping the monitor\<close>

lemma runSecurityChecks_frame:
  "monitorService (runSecurityChecks w) = monitorService w"
  "timers (runSecurityChecks w) = timers w"
  "nextTimer (runSecurityChecks w) = nextTimer w"
  "waiting (runSecurityChecks w) = waiting w"
  by (simp_all add: runSecurityChecks_def)

lemma suspend_frame:
  "monitorService (suspend k c w) = monitorService w"
  "timers (suspend k c w) = timers w"
  "nextTimer (suspend k c w) = nextTimer w"
  "the_system (suspend k c w) = the_system w"
  "waiting (suspend k c w) = waiting w @ [(k, c)]"
  by (simp_all add: suspend_def)

lemma analysis_loop_frame:
  "monitorService (analysis_loop cs w) = monitorService w
   \<and> timers (analysis_loop cs w) = timers w
   \<and> nextTimer (analysis_loop cs w) = nextTimer w"
  by (induction cs arbitrary: w) (simp_all add: suspend_frame split: prod.splits option.splits)

lemma runAIAnalysis_frame:
  "monitorService (runAIAnalysis w) = monitorService w"
  "timers (runAIAnalysis w) = timers w"
  "nextTimer (runAIAnalysis w) = nextTimer w"
  by (simp_all add: runAIAnalysis_def analysis_loop_frame)

lemma runSecurityChecks_running:
  "isRunning (monitorService w)
     \<Longrightarrow> runSecurityChecks w = w\<lparr>the_system := security_round (the_system w)\<rparr>"
  by (simp add: runSecurityChecks_def security_round_def)

lemma stopped_checks_idle:
  "\<not> isRunning (monitorService w) \<Longrightarrow> runSecurityChecks w = w \<and> runAIAnalysis w = w"
  by (simp add: runSecurityChecks_def runAIAnalysis_def)

lemma monitor_inv_frame:
  "monitorService w' = monitorService w \<Longrightarrow> timers w' = timers w
     \<Longrightarrow> monitor_inv w' = monitor_inv w"
  by (simp add: monitor_inv_def split: option.splits)

lemma monitor_inv_system: "monitor_inv (w\<lparr>the_system := sys1\<rparr>) = monitor_inv w"
  by (rule monitor_inv_frame) simp_all

text \<open>
  What the second part of \<open>start\<close> does, in whatever state it goes on: it sets the
  flag, adds two timers to the timers that are set, and keeps the handles of these two.
\<close>

lemma start_monitoring_result:
  "start_monitoring w =
     w\<lparr>the_system := security_round (the_system w),
       monitorService := \<lparr>isRunning = True, checkInterval = Some (nextTimer w),
                          analysisInterval = Some (Suc (nextTimer w))\<rparr>,
       timers := timers w @ [(nextTimer w, 30 * 60 * 1000, RunSecurityChecks),
                             (Suc (nextTimer w), 2 * 60 * 60 * 1000, RunAIAnalysis)],
       nextTimer := Suc (Suc (nextTimer w))\<rparr>"
  by (simp add: start_monitoring_def setInterval_def runSecurityChecks_def security_round_def
      Let_def split_def)

lemma start_running: "isRunning (monitorService w) \<Longrightarrow> start w = (Returns True, w)"
  by (simp add: start_def)

text \<open>The first part of \<open>start\<close> leaves the flag, the handles and the timers as they are
  unless it goes through to the second part.\<close>

lemma start_awaits:
  assumes "start w = (Awaits k, w1)"
  shows "monitorService w1 = monitorService w \<and> timers w1 = timers w
       \<and> nextTimer w1 = nextTimer w \<and> \<not> isRunning (monitorService w)
       \<and> waiting w1 = waiting w @ [(k, StartCall)]"
  using assms
  by (auto simp: start_def suspend_def split: if_splits prod.splits sum.splits async.splits)

lemma stop_frame:
  "the_system (stop w) = the_system w"
  "waiting (stop w) = waiting w"
  "nextTimer (stop w) = nextTimer w"
  "\<not> isRunning (monitorService (stop w))"
  by (simp_all add: stop_def clearInterval_def Let_def split: option.splits)

lemma stop_result:
  assumes "monitor_inv w"
  shows "stop w = w\<lparr>monitorService := \<lparr>isRunning = False, checkInterval = None,
                                         analysisInterval = None\<rparr>,
                    timers := []\<rparr>"
proof (cases "isRunning (monitorService w)")
  case True
  then obtain h1 h2 where h: "checkInterval (monitorService w) = Some h1"
      "analysisInterval (monitorService w) = Some h2" "h1 \<noteq> h2"
      "timers w = [(h1, 30 * 60 * 1000, RunSecurityChecks), (h2, 2 * 60 * 60 * 1000, RunAIAnalysis)]"
    using assms by (auto simp: monitor_inv_def split: option.splits)
  show ?thesis
    using h by (simp add: stop_def clearInterval_def Let_def)
next
  case False
  then have h: "checkInterval (monitorService w) = None"
      "analysisInterval (monitorService w) = None" "timers w = []"
    using assms by (auto simp: monitor_inv_def)
  have "monitorService w = \<lparr>isRunning = False, checkInterval = None, analysisInterval = None\<rparr>"
    using False h by (cases "monitorService w") simp
  then show ?thesis
    using h by (simp add: stop_def Let_def)
qed

text \<open>
  One call at a time keeps \<open>monitor_inv\<close>: \<open>stop\<close> keeps it, the first part of
  \<open>start\<close> keeps it, and so does the second part when it goes on while the monitor is
  still stopped. The second part does not keep it when the monitor has been started in
  between.
\<close>

lemma stop_inv: "monitor_inv w \<Longrightarrow> monitor_inv (stop w)"
  by (simp add: stop_result monitor_inv_def)

lemma start_monitoring_inv:
  "monitor_inv w \<Longrightarrow> \<not> isRunning (monitorService w) \<Longrightarrow> monitor_inv (start_monitoring w)"
  by (simp add: start_monitoring_result monitor_inv_def)

lemma start_inv: "monitor_inv w \<Longrightarrow> monitor_inv (snd (start w))"
proof (cases "isRunning (monitorService w)")
  case True
  assume "monitor_inv w"
  then show ?thesis using True by (simp add: start_running)
next
  case False
  assume inv: "monitor_inv w"
  have m: "monitorService w\<lparr>isRunning := False\<rparr> = monitorService w"
    using False by simp
  have sys: "\<And>sys1. monitor_inv (w\<lparr>the_system := sys1\<rparr>)"
    using inv by (simp add: monitor_inv_system)
  have stopped: "\<And>sys1. \<not> isRunning (monitorService (w\<lparr>the_system := sys1\<rparr>))"
    using False by simp
  have susp: "\<And>k sys1. monitor_inv (suspend k StartCall (w\<lparr>the_system := sys1\<rparr>))"
    using sys by (simp add: monitor_inv_frame[of "suspend k StartCall w'" w' for k w'] suspend_frame)
  show ?thesis
    using False sys susp start_monitoring_inv[OF sys stopped]
    by (simp add: start_def m split: prod.splits sum.splits async.splits)
qed

lemma start_monitoring_running:
  assumes "monitor_inv w" "isRunning (monitorService w)"
  shows "length (timers (start_monitoring w)) = 4 \<and> \<not> monitor_inv (start_monitoring w)"
proof -
  have "length (timers w) = 2"
    using assms by (auto simp: monitor_inv_def split: option.splits)
  then show ?thesis
    by (auto simp: start_monitoring_result monitor_inv_def split: option.splits)
qed

lemma initial_world_inv: "monitor_inv (initial_world e lib clk rnd net)"
  by (simp add: monitor_inv_def initial_world_def)

subsection \<open>Properties of the store that the services keep\<close>

lemma store_stableD:
  assumes "store_stable P" "P s"
  shows "P (snd (createAlert a now s))"
    and "P (snd (createEvent e now s))"
    and "P (snd (createAiQuery q now s))"
    and "known_status status \<Longrightarrow> P (snd (updateContractStatus i status s))"
    and "P (snd (resolveAlert i s))"
  using assms unfolding store_stable_def by blast+

lemma store_stable_store_inv: "store_stable store_inv"
  unfolding store_stable_def
  by (simp add: createAlert_inv createEvent_inv createAiQuery_inv updateContractStatus_inv
      resolveAlert_inv)

lemma contracts_inv_same: "contracts s' = contracts s \<Longrightarrow> contracts_inv s' = contracts_inv s"
  by (simp add: contracts_inv_def statuses_known_def getContracts_def)

lemma set_Map_set: "set (Map_values (Map_set m k v)) \<subseteq> insert v (set (Map_values m))"
  unfolding Map_values_def Map_set_def by (induction m) auto

lemma updateContractStatus_contracts_inv:
  assumes "contracts_inv s" "known_status status"
  shows "contracts_inv (snd (updateContractStatus i status s))"
proof (cases "Map_get (contracts s) i")
  case None
  then show ?thesis using assms(1) by (simp add: updateContractStatus_def)
next
  case (Some c)
  let ?c = "c\<lparr>contract_status := status\<rparr>"
  have len: "length (Map_set (contracts s) i ?c) = length (contracts s)"
    using Some by (rule length_Map_set_get)
  have "\<forall>x \<in> set (Map_values (Map_set (contracts s) i ?c)). known_status (contract_status x)"
    using set_Map_set[of "contracts s" i ?c] assms
    by (auto simp: contracts_inv_def statuses_known_def getContracts_def list_all_iff)
  then show ?thesis
    using Some assms(1) len
    by (simp add: updateContractStatus_def Let_def contracts_inv_def statuses_known_def
        getContracts_def list_all_iff)
qed

lemma create_contracts:
  "contracts (snd (createAlert a now s)) = contracts s"
  "contracts (snd (createEvent e now s)) = contracts s"
  "contracts (snd (createAiQuery q now s)) = contracts s"
  "contracts (snd (resolveAlert i s)) = contracts s"
  by (simp_all add: createAlert_def createEvent_def createAiQuery_def resolveAlert_def Let_def
      split: option.splits)

lemma store_stable_contracts_inv: "store_stable contracts_inv"
  unfolding store_stable_def
  by (simp add: contracts_inv_same[OF create_contracts(1)] contracts_inv_same[OF create_contracts(2)]
      contracts_inv_same[OF create_contracts(3)] contracts_inv_same[OF create_contracts(4)]
      updateContractStatus_contracts_inv)

lemma known_status_simps:
  "known_status ''HEALTHY''" "known_status ''WARNING''" "known_status ''ALERT''"
  by (simp_all add: known_status_def)

text \<open>From here on \<open>P\<close> is a stable property of the store.\<close>

lemma storage_create_keeps:
  assumes "store_stable P" "P (storage sys)"
  shows "P (storage (snd (storage_createAlert a sys)))"
    and "P (storage (snd (storage_createEvent e sys)))"
    and "P (storage (snd (storage_createAiQuery q sys)))"
  using store_stableD(1,2,3)[OF assms(1), of "storage sys"] assms(2)
  by (simp_all add: storage_createAlert_def storage_createEvent_def storage_createAiQuery_def
      new_Date_def split_def Let_def)

lemma MonitorService_createAlert_keeps:
  assumes "store_stable P" "P (storage sys)"
  shows "P (storage (MonitorService_createAlert c sev ttl text ai sys))"
  using storage_create_keeps(1)[OF assms] by (simp add: MonitorService_createAlert_def)

lemma storage_updateContractStatus_keeps:
  assumes "store_stable P" "P (storage sys)" "known_status status"
  shows "P (storage (storage_updateContractStatus i status sys))"
  using store_stableD(4)[OF assms] by (simp add: storage_updateContractStatus_def)

lemma checkContractHealth_keeps:
  assumes "store_stable P" "P (storage sys)"
  shows "P (storage (checkContractHealth c sys))"
  using assms(2)
  by (simp add: checkContractHealth_def Let_def known_status_simps
      storage_updateContractStatus_keeps[OF assms(1)] MonitorService_createAlert_keeps[OF assms(1)]
      split: sum.splits list.splits)

lemma update_status_for_keeps:
  assumes "store_stable P" "P (storage sys)"
  shows "P (storage (update_status_for sev c sys))"
  using assms(2)
  by (simp add: update_status_for_def storage_updateContractStatus_keeps[OF assms(1)]
      known_status_simps)

lemma check_indicators_keeps:
  assumes "store_stable P" "P (storage sys)"
  shows "P (storage (check_indicators inds c text sys))"
  using assms(2)
  by (induction inds)
     (simp_all add: update_status_for_keeps[OF assms(1)] MonitorService_createAlert_keeps[OF assms(1)])

lemma analyze_try_keeps_stable:
  assumes "store_stable P" "P (storage sys)"
  shows "P (storage (snd (analyze_try c p sys)))"
proof -
  have "P (storage (snd (storage_createAiQuery q (sys\<lparr>requests := rs\<rparr>))))" for q rs
    using assms(2) by (intro storage_create_keeps(3)[OF assms(1)]) simp
  then show ?thesis
    using assms(2)
    by (simp add: analyze_try_def analyze_response_def fetch_def Let_def split_def
        split: fetch_result.splits sum.splits option.splits)
qed

lemma analyzeContract_keeps_stable:
  assumes "store_stable P" "P (storage sys)"
  shows "P (storage (snd (GroqService_analyzeContract c code sys)))"
  using assms(2) analyze_try_keeps_stable[OF assms, of c "contract_prompt c code"]
  by (simp add: GroqService_analyzeContract_def Let_def split_def split: sum.splits)

lemma analyzeContractWithAI_keeps:
  assumes "store_stable P" "P (storage sys)"
  shows "P (storage (analyzeContractWithAI c sys))"
proof (cases "BlockchainService_getContractCode (contract_address c) sys")
  case (Inl err)
  then show ?thesis using assms(2) by (simp add: analyzeContractWithAI_def)
next
  case (Inr code)
  show ?thesis
  proof (cases "no_code code")
    case True
    then show ?thesis using assms(2) Inr by (simp add: analyzeContractWithAI_def)
  next
    case False
    obtain r sys1 where ai: "GroqService_analyzeContract c code sys = (r, sys1)"
      by (cases "GroqService_analyzeContract c code sys")
    have inv1: "P (storage sys1)"
      using analyzeContract_keeps_stable[OF assms, of c code] ai by simp
    show ?thesis
      using Inr False ai inv1
      by (cases r) (simp_all add: analyzeContractWithAI_def check_indicators_keeps[OF assms(1)])
  qed
qed

lemma fold_keeps:
  assumes "\<And>c sys. P (storage sys) \<Longrightarrow> P (storage (f c sys))"
    and "P (storage sys)"
  shows "P (storage (fold f cs sys))"
  using assms(2) by (induction cs arbitrary: sys) (simp_all add: assms(1))

lemma security_round_keeps:
  assumes "store_stable P" "P (storage sys)"
  shows "P (storage (security_round sys))"
  unfolding security_round_def
  by (rule fold_keeps[of P checkContractHealth, OF checkContractHealth_keeps[OF assms(1)] assms(2)])

lemma send_frame:
  "storage (snd (send r sys)) = storage sys"
  "env (snd (send r sys)) = env sys"
  "respond (snd (send r sys)) = respond sys"
  "fst (send r sys) = length (requests sys)"
  "requests (snd (send r sys)) = requests sys @ [r]"
  by (simp_all add: send_def)

lemma analyze_response_keeps_stable:
  assumes "store_stable P" "P (storage sys)"
  shows "P (storage (snd (analyze_response c p res sys)))"
  using assms(2)
  by (simp add: analyze_response_def Let_def split_def storage_create_keeps(3)[OF assms(1)]
      split: fetch_result.splits sum.splits option.splits)

lemma analyzeContract_send_storage:
  "storage (snd (GroqService_analyzeContract_send c code sys)) = storage sys"
  by (simp add: GroqService_analyzeContract_send_def Let_def split_def send_frame)

lemma analyzeContract_receive_keeps:
  assumes "store_stable P" "P (storage sys)"
  shows "P (storage (snd (GroqService_analyzeContract_receive c code res sys)))"
  using analyze_response_keeps_stable[OF assms, of c "contract_prompt c code" res]
  by (auto simp: GroqService_analyzeContract_receive_def Let_def split: prod.splits sum.splits)

lemma analyzeContractWithAI_send_keeps:
  assumes "store_stable P" "P (storage sys)"
  shows "P (storage (snd (analyzeContractWithAI_send c sys)))"
proof -
  have s: "storage sys1 = storage sys"
    if "GroqService_analyzeContract_send c code sys = (r, sys1)" for code r sys1
    using analyzeContract_send_storage[of c code sys] that by simp
  show ?thesis
    using assms(2)
    by (auto simp: analyzeContractWithAI_send_def check_indicators_keeps[OF assms(1)]
        dest!: s split: sum.splits prod.splits async.splits)
qed

lemma analyzeContractWithAI_receive_keeps:
  assumes "store_stable P" "P (storage sys)"
  shows "P (storage (analyzeContractWithAI_receive c code res sys))"
  using analyzeContract_receive_keeps[OF assms, of c code res]
  by (simp add: analyzeContractWithAI_receive_def split_def Let_def
      check_indicators_keeps[OF assms(1)])

lemma analysis_loop_keeps:
  assumes "store_stable P"
  shows "P (storage (the_system w)) \<Longrightarrow> P (storage (the_system (analysis_loop cs w)))"
proof (induction cs arbitrary: w)
  case Nil
  then show ?case by simp
next
  case (Cons c cs)
  obtain r sys1 where s: "analyzeContractWithAI_send c (the_system w) = (r, sys1)"
    by (cases "analyzeContractWithAI_send c (the_system w)")
  have p1: "P (storage sys1)"
    using analyzeContractWithAI_send_keeps[OF assms Cons.prems, of c] s by simp
  show ?case
  proof (cases r)
    case None
    have "P (storage (the_system (analysis_loop cs (w\<lparr>the_system := sys1\<rparr>))))"
      by (rule Cons.IH) (simp add: p1)
    then show ?thesis using s None by simp
  next
    case (Some kc)
    then show ?thesis using s p1 by (cases kc) (simp add: suspend_frame)
  qed
qed

lemma scanContract_keeps:
  assumes "store_stable P" "P (storage (the_system w))"
  shows "P (storage (the_system (scanContract a w)))"
proof (cases "getContractByAddress a (storage (the_system w))")
  case None
  then show ?thesis using assms(2) by (simp add: scanContract_def)
next
  case (Some c)
  let ?sys = "checkContractHealth c (the_system w)"
  have h: "P (storage ?sys)" by (rule checkContractHealth_keeps[OF assms])
  obtain r sys1 where s: "analyzeContractWithAI_send c ?sys = (r, sys1)"
    by (cases "analyzeContractWithAI_send c ?sys")
  have p1: "P (storage sys1)"
    using analyzeContractWithAI_send_keeps[OF assms(1) h, of c] s by simp
  show ?thesis
    using Some s p1 by (cases r) (auto simp: scanContract_def suspend_frame)
qed

subsection \<open>Initialisation\<close>

lemma random_below_storage: "storage (snd (random_below k sys)) = storage sys"
  by (simp add: random_below_def Math_random_def split_def)

lemma random_hex_storage: "storage (snd (random_hex n sys)) = storage sys"
  by (induction n arbitrary: sys) (simp_all add: split_def Let_def random_below_storage)

lemma createDemoEvents_keeps:
  assumes "store_stable P"
  shows "P (storage sys) \<Longrightarrow> P (storage (createDemoEvents cs sys))"
proof (induction cs arbitrary: sys)
  case Nil
  then show ?case by simp
next
  case (Cons c cs)
  show ?case
  proof (cases "map_of eventTypes (toUpperCase (contract_type c))")
    case None
    then show ?thesis using Cons by simp
  next
    case (Some nd)
    have step: "P (storage (createDemoEvents cs (snd (storage_createEvent ev sys2))))"
      if "storage sys2 = storage sys" for ev sys2
    proof -
      have "P (storage sys2)" using that Cons.prems by simp
      then have "P (storage (snd (storage_createEvent ev sys2)))"
        by (rule storage_create_keeps(2)[OF assms])
      then show ?thesis by (rule Cons.IH)
    qed
    show ?thesis
      using Some
      by (simp add: split_def Let_def)
         (rule step, simp add: random_hex_storage random_below_storage)
  qed
qed

lemma BlockchainService_createDemoEvents_keeps:
  assumes "store_stable P" "P (storage sys)"
  shows "P (storage (BlockchainService_createDemoEvents cs sys))"
  using assms(2)
  by (simp add: BlockchainService_createDemoEvents_def split_def new_Date_def
      createDemoEvents_keeps[OF assms(1)])

lemma createDemoAlerts_keeps:
  assumes "store_stable P" "P (storage sys)"
  shows "P (storage (snd (BlockchainService_createDemoAlerts sys)))"
proof -
  have step: "P (storage ((\<lambda>alert sys'. snd (storage_createAlert alert sys')) a sys'))"
    if "P (storage sys')" for a sys'
    using that by (simp add: storage_create_keeps(1)[OF assms(1)])
  have "\<And>as. P (storage (fold (\<lambda>alert sys'. snd (storage_createAlert alert sys')) as sys))"
    by (rule fold_keeps[of P "\<lambda>alert sys'. snd (storage_createAlert alert sys')", OF step assms(2)])
  then show ?thesis
    using assms(2) by (simp add: BlockchainService_createDemoAlerts_def split: list.splits)
qed

lemma createDemoAlerts_ok:
  assumes "3 \<le> length (contracts (storage sys))"
  shows "fst (BlockchainService_createDemoAlerts sys) = Inr ()"
proof -
  have "Suc (Suc (Suc 0)) \<le> length (getContracts (storage sys))"
    using assms by (simp add: getContracts_def Map_values_def)
  then obtain c0 c1 c2 others where "getContracts (storage sys) = c0 # c1 # c2 # others"
    by (auto simp: Suc_le_length_iff)
  then show ?thesis by (simp add: BlockchainService_createDemoAlerts_def)
qed

lemma initialize_demo_keeps:
  assumes "store_stable P" "P (storage sys)"
  shows "P (storage (snd (initialize_demo sys)))"
  using assms(2)
  by (simp add: initialize_demo_def Let_def split_def createDemoAlerts_keeps[OF assms(1)]
      BlockchainService_createDemoEvents_keeps[OF assms(1)] split: sum.splits)

text \<open>With the three contracts of the constructor stored, the demo initialisation succeeds.\<close>

lemma initialize_demo_ok:
  assumes "contracts_inv (storage sys)"
  shows "fst (initialize_demo sys) = Inr True"
proof -
  let ?sys1 = "BlockchainService_createDemoEvents (getContracts (storage sys)) sys"
  have "contracts_inv (storage ?sys1)"
    using assms by (rule BlockchainService_createDemoEvents_keeps[OF store_stable_contracts_inv])
  then have "fst (BlockchainService_createDemoAlerts ?sys1) = Inr ()"
    by (intro createDemoAlerts_ok) (simp add: contracts_inv_def)
  then show ?thesis by (simp add: initialize_demo_def Let_def split_def)
qed

lemma initializeContract_storage:
  "storage (snd (BlockchainService_initializeContract c sys)) = storage sys"
  by (simp add: BlockchainService_initializeContract_def Let_def
      split: json.splits list.splits sum.splits option.splits)

lemma fold_initializeContract_storage:
  "storage (fold (\<lambda>contract sys'. snd (BlockchainService_initializeContract contract sys')) cs sys)
     = storage sys"
  by (induction cs arbitrary: sys) (simp_all add: initializeContract_storage)

lemma initialize_live_storage: "storage (snd (initialize_live sys)) = storage sys"
  by (simp add: initialize_live_def fold_initializeContract_storage
      split: option.splits sum.splits)

lemma BlockchainService_initialize_keeps:
  assumes "store_stable P" "P (storage sys)"
  shows "P (storage (snd (BlockchainService_initialize sys)))"
proof (cases "demoMode (blockchainService sys)")
  case True
  then show ?thesis
    using assms by (simp add: BlockchainService_initialize_def initialize_demo_keeps)
next
  case False
  obtain r sys1 where live: "initialize_live sys = (r, sys1)" by (cases "initialize_live sys")
  have s1: "storage sys1 = storage sys" using initialize_live_storage[of sys] live by simp
  have "\<And>bc. P (storage (snd (initialize_demo (sys1\<lparr>blockchainService := bc\<rparr>))))"
    using assms(2) s1 by (intro initialize_demo_keeps[OF assms(1)]) simp
  then show ?thesis
    using False live s1 assms(2)
    by (cases r) (simp_all add: BlockchainService_initialize_def)
qed

lemma BlockchainService_initialize_demo_ok:
  "demoMode (blockchainService sys) \<Longrightarrow> contracts_inv (storage sys)
     \<Longrightarrow> fst (BlockchainService_initialize sys) = Inr True"
  by (simp add: BlockchainService_initialize_def initialize_demo_ok)

lemma GroqService_initialize_storage:
  "storage (snd (GroqService_initialize sys)) = storage sys"
  by (simp add: GroqService_initialize_def GroqService_query_def send_def Let_def split_def
      split: async.splits)

subsection \<open>The store over a run of the server\<close>

lemma runSecurityChecks_keeps:
  assumes "store_stable P" "P (storage (the_system w))"
  shows "P (storage (the_system (runSecurityChecks w)))"
  using security_round_keeps[OF assms] assms(2)
  by (simp add: runSecurityChecks_def security_round_def)

lemma runAIAnalysis_keeps:
  assumes "store_stable P" "P (storage (the_system w))"
  shows "P (storage (the_system (runAIAnalysis w)))"
  using assms(2) analysis_loop_keeps[OF assms]
  by (simp add: runAIAnalysis_def)

lemma start_monitoring_keeps:
  assumes "store_stable P" "P (storage (the_system w))"
  shows "P (storage (the_system (start_monitoring w)))"
  using security_round_keeps[OF assms] by (simp add: start_monitoring_result)

lemma start_keeps:
  assumes "store_stable P" "P (storage (the_system w))"
  shows "P (storage (the_system (snd (start w))))"
proof (cases "isRunning (monitorService w)")
  case True
  then show ?thesis using assms(2) by (simp add: start_running)
next
  case False
  obtain r sys1 where b: "BlockchainService_initialize (the_system w) = (r, sys1)"
    by (cases "BlockchainService_initialize (the_system w)")
  have s1: "P (storage sys1)"
    using BlockchainService_initialize_keeps[OF assms] b by simp
  obtain a sys2 where g: "GroqService_initialize sys1 = (a, sys2)"
    by (cases "GroqService_initialize sys1")
  have s2: "P (storage sys2)"
    using GroqService_initialize_storage[of sys1] g s1 by simp
  have s3: "P (storage (the_system (start_monitoring (w\<lparr>the_system := sys2\<rparr>))))"
    by (rule start_monitoring_keeps[OF assms(1)]) (simp add: s2)
  show ?thesis
    using False b g s1 s2 s3
    by (cases r; cases a) (simp_all add: start_def suspend_frame)
qed

lemma timer_fires_keeps:
  assumes "store_stable P" "P (storage (the_system w))"
  shows "P (storage (the_system (timer_fires h w)))"
  using assms(2) runSecurityChecks_keeps[OF assms] runAIAnalysis_keeps[OF assms]
  by (simp add: timer_fires_def run_callback_def split: option.splits callback.splits)

lemma resume_keeps:
  assumes "store_stable P" "P (storage (the_system w))"
  shows "P (storage (the_system (resume c res w)))"
proof (cases c)
  case StartCall
  then show ?thesis using start_monitoring_keeps[OF assms] by (simp add: resume_def)
next
  case (AnalysisCall contract code rest)
  have "P (storage (the_system
          (analysis_loop rest
             (w\<lparr>the_system := analyzeContractWithAI_receive contract code res (the_system w)\<rparr>))))"
    by (rule analysis_loop_keeps[OF assms(1)])
       (simp add: analyzeContractWithAI_receive_keeps[OF assms])
  then show ?thesis using AnalysisCall by (simp add: resume_def)
next
  case (ScanCall contract code)
  then show ?thesis
    using analyzeContractWithAI_receive_keeps[OF assms] by (simp add: resume_def)
qed

lemma response_arrives_keeps:
  assumes "store_stable P" "P (storage (the_system w))"
  shows "P (storage (the_system (response_arrives k w)))"
proof (cases "map_of (waiting w) k")
  case None
  then show ?thesis using assms(2) by (simp add: response_arrives_def)
next
  case (Some c)
  have "P (storage (the_system
          (resume c (respond (the_system w) k)
             (w\<lparr>waiting := filter (\<lambda>p. fst p \<noteq> k) (waiting w)\<rparr>))))"
    by (rule resume_keeps[OF assms(1)]) (simp add: assms(2))
  then show ?thesis using Some by (simp add: response_arrives_def)
qed

lemma handle_keeps:
  assumes "store_stable P" "P (storage (the_system w))"
  shows "P (storage (the_system (handle r w)))"
proof (cases r)
  case (PostAlertResolve i)
  then show ?thesis using store_stableD(5)[OF assms] by simp
next
  case (PostAnalyzeContract i)
  then show ?thesis
    using assms(2) by (simp add: scanContract_keeps[OF assms(1)] split: option.splits)
next
  case PostMonitorStart
  then show ?thesis using assms(2) by (simp add: start_keeps[OF assms(1)])
next
  case PostMonitorStop
  then show ?thesis using assms(2) by (simp add: stop_frame)
next
  case (TimerFires h)
  then show ?thesis using assms(2) by (simp add: timer_fires_keeps[OF assms(1)])
next
  case (ResponseArrives k)
  then show ?thesis using assms(2) by (simp add: response_arrives_keeps[OF assms(1)])
qed

lemma serve_keeps:
  assumes "store_stable P"
  shows "P (storage (the_system w)) \<Longrightarrow> P (storage (the_system (serve reqs w)))"
  unfolding serve_def
  by (induction reqs arbitrary: w) (simp_all add: handle_keeps[OF assms])

lemma registerRoutes_keeps:
  assumes "store_stable P" "P (storage (the_system w))"
  shows "P (storage (the_system (registerRoutes w)))"
proof -
  obtain r sys1 where b: "BlockchainService_initialize (the_system w) = (r, sys1)"
    by (cases "BlockchainService_initialize (the_system w)")
  have s1: "P (storage sys1)"
    using BlockchainService_initialize_keeps[OF assms] b by simp
  then have "P (storage (the_system (snd (start (w\<lparr>the_system := sys1\<rparr>)))))"
    by (intro start_keeps[OF assms(1)]) simp
  then show ?thesis using b s1 by (cases r) (simp_all add: registerRoutes_def)
qed

lemma server_keeps:
  assumes "store_stable P" "\<And>t1 t2 t3. P (MemStorage_new e t1 t2 t3)"
  shows "P (storage (the_system (serve reqs (registerRoutes (initial_world e lib clk rnd net)))))"
proof (intro serve_keeps[OF assms(1)] registerRoutes_keeps[OF assms(1)])
  show "P (storage (the_system (initial_world e lib clk rnd net)))"
    by (simp add: initial_world_def assms(2))
qed

lemma MemStorage_new_statuses:
  "map contract_status (getContracts (MemStorage_new e t1 t2 t3)) = [''HEALTHY'', ''WARNING'', ''ALERT'']"
  by (simp add: MemStorage_new_def initGuardianContracts_def createContract_def Let_def
      Map_set_def getContracts_def Map_values_def guardianFeed_def guardianDAO_def
      guardianBadge_def or_else_def truthy_string_def)

lemma MemStorage_new_contracts_inv: "contracts_inv (MemStorage_new e t1 t2 t3)"
proof -
  have "list_all known_status (map contract_status (getContracts (MemStorage_new e t1 t2 t3)))"
    unfolding MemStorage_new_statuses by (simp add: known_status_simps)
  moreover have "length (getContracts (MemStorage_new e t1 t2 t3)) = 3"
    using arg_cong[OF MemStorage_new_statuses, of length] by simp
  ultimately show ?thesis
    by (simp add: contracts_inv_def statuses_known_def list_all_iff getContracts_def
        Map_values_def)
qed

text \<open>
  In every state the server reaches, the store is well formed and its contracts are the
  constructor's three or more, each with one of the three statuses.
\<close>

lemma server_store_inv:
  "store_inv (storage (the_system (serve reqs (registerRoutes (initial_world e lib clk rnd net)))))"
  by (rule server_keeps[OF store_stable_store_inv MemStorage_new_inv])

lemma server_contracts_inv:
  "contracts_inv (storage (the_system (serve reqs (registerRoutes (initial_world e lib clk rnd net)))))"
  by (rule server_keeps[OF store_stable_contracts_inv MemStorage_new_contracts_inv])

subsection \<open>Creating a contract\<close>

lemma example_store_counter: "contractCurrentId example_store = 4"
  by (simp add: example_store_def MemStorage_new_def initGuardianContracts_def createContract_def
      Let_def)

subsection \<open>What the patterns match\<close>

lemma match_here_lit_append:
  "match_here (lit w @ rest) s \<longleftrightarrow>
     (\<exists>m t. s = m @ t \<and> map Canonicalize m = map Canonicalize w \<and> match_here rest t)"
proof (induction w arbitrary: s)
  case Nil
  then show ?case by (simp add: lit_def)
next
  case (Cons c w)
  show ?case
  proof (cases s)
    case Nil
    then show ?thesis by (simp add: lit_def)
  next
    case (Cons x xs)
    have "match_here (lit (c # w) @ rest) (x # xs)
        \<longleftrightarrow> Canonicalize x = Canonicalize c \<and> match_here (lit w @ rest) xs"
      by (simp add: lit_def)
    also have "\<dots> \<longleftrightarrow> Canonicalize x = Canonicalize c
        \<and> (\<exists>m t. xs = m @ t \<and> map Canonicalize m = map Canonicalize w \<and> match_here rest t)"
      using Cons.IH[of xs] by simp
    also have "\<dots> \<longleftrightarrow> (\<exists>m t. x # xs = m @ t
        \<and> map Canonicalize m = map Canonicalize (c # w) \<and> match_here rest t)"
    proof
      assume "Canonicalize x = Canonicalize c
        \<and> (\<exists>m t. xs = m @ t \<and> map Canonicalize m = map Canonicalize w \<and> match_here rest t)"
      then obtain m t where "Canonicalize x = Canonicalize c" "xs = m @ t"
          "map Canonicalize m = map Canonicalize w" "match_here rest t"
        by blast
      then have "x # xs = (x # m) @ t \<and> map Canonicalize (x # m) = map Canonicalize (c # w)
          \<and> match_here rest t"
        by simp
      then show "\<exists>m t. x # xs = m @ t
          \<and> map Canonicalize m = map Canonicalize (c # w) \<and> match_here rest t"
        by blast
    next
      assume "\<exists>m t. x # xs = m @ t
          \<and> map Canonicalize m = map Canonicalize (c # w) \<and> match_here rest t"
      then obtain m t where mt: "x # xs = m @ t" "map Canonicalize m = map Canonicalize (c # w)"
          "match_here rest t"
        by blast
      then obtain y m' where m: "m = y # m'" by (cases m) auto
      then have "y = x" "xs = m' @ t" "Canonicalize y = Canonicalize c"
          "map Canonicalize m' = map Canonicalize w"
        using mt by auto
      then show "Canonicalize x = Canonicalize c
        \<and> (\<exists>m t. xs = m @ t \<and> map Canonicalize m = map Canonicalize w \<and> match_here rest t)"
        using mt(3) by blast
    qed
    finally show ?thesis using Cons by simp
  qed
qed

lemma RegExp_test_somewhere:
  "RegExp_test re s \<longleftrightarrow> (\<exists>u t. s = u @ t \<and> match_from re t)"
proof (induction s)
  case Nil
  then show ?case by simp
next
  case (Cons x xs)
  have "(\<exists>u t. x # xs = u @ t \<and> match_from re t)
      \<longleftrightarrow> match_from re (x # xs) \<or> (\<exists>u t. xs = u @ t \<and> match_from re t)"
  proof
    assume "\<exists>u t. x # xs = u @ t \<and> match_from re t"
    then obtain u t where ut: "x # xs = u @ t" "match_from re t" by blast
    show "match_from re (x # xs) \<or> (\<exists>u t. xs = u @ t \<and> match_from re t)"
    proof (cases u)
      case Nil
      then show ?thesis using ut by simp
    next
      case (Cons y u')
      then have "xs = u' @ t" using ut(1) by simp
      then show ?thesis using ut(2) by blast
    qed
  next
    assume "match_from re (x # xs) \<or> (\<exists>u t. xs = u @ t \<and> match_from re t)"
    then show "\<exists>u t. x # xs = u @ t \<and> match_from re t"
    proof
      assume "match_from re (x # xs)"
      then have "x # xs = [] @ (x # xs) \<and> match_from re (x # xs)" by simp
      then show ?thesis by blast
    next
      assume "\<exists>u t. xs = u @ t \<and> match_from re t"
      then obtain u t where "xs = u @ t" "match_from re t" by blast
      then have "x # xs = (x # u) @ t \<and> match_from re t" by simp
      then show ?thesis by blast
    qed
  qed
  then show ?case using Cons.IH by simp
qed

text \<open>
  A pattern of literal characters matches exactly the texts that hold the word
  somewhere, letter case of the ASCII letters aside.
\<close>

lemma RegExp_test_literal:
  "RegExp_test [lit w] s
     \<longleftrightarrow> (\<exists>u m v. s = u @ m @ v \<and> map Canonicalize m = map Canonicalize w)"
proof -
  have "match_from [lit w] t
      \<longleftrightarrow> (\<exists>m v. t = m @ v \<and> map Canonicalize m = map Canonicalize w)" for t
    using match_here_lit_append[of w "[]" t] by (simp add: match_from_def)
  then show ?thesis unfolding RegExp_test_somewhere by blast
qed

text \<open>
  The pattern \<open>front.?running\<close> matches the texts that hold \<open>front\<close> and \<open>running\<close>
  next to each other or with one character between them that is no line terminator.
\<close>

lemma RegExp_test_front_running:
  "RegExp_test [lit a @ [OptAny] @ lit b] s
     \<longleftrightarrow> (\<exists>u m n v. map Canonicalize m = map Canonicalize a
              \<and> map Canonicalize n = map Canonicalize b
              \<and> (s = u @ m @ n @ v \<or> (\<exists>x. \<not> LineTerminator x \<and> s = u @ m @ [x] @ n @ v)))"
  (is "?lhs \<longleftrightarrow> ?rhs")
proof
  assume ?lhs
  then obtain u t where ut: "s = u @ t" "match_here (lit a @ (OptAny # lit b)) t"
    unfolding RegExp_test_somewhere by (auto simp: match_from_def)
  then obtain m t1 where m: "t = m @ t1" "map Canonicalize m = map Canonicalize a"
      "match_here (OptAny # lit b) t1"
    using match_here_lit_append[of a "OptAny # lit b" t] by blast
  have lit_b: "match_here (lit b) t' \<Longrightarrow> \<exists>n v. t' = n @ v \<and> map Canonicalize n = map Canonicalize b"
    for t'
    using match_here_lit_append[of b "[]" t'] by simp
  from m(3) consider (direct) "match_here (lit b) t1"
    | (skip) x t' where "t1 = x # t'" "\<not> LineTerminator x" "match_here (lit b) t'"
    by (cases t1) auto
  then show ?rhs
  proof cases
    case direct
    then obtain n v where "t1 = n @ v" "map Canonicalize n = map Canonicalize b"
      using lit_b by blast
    then have "s = u @ m @ n @ v" using ut(1) m(1) by simp
    then show ?thesis using m(2) \<open>map Canonicalize n = map Canonicalize b\<close> by blast
  next
    case skip
    then obtain n v where "t' = n @ v" "map Canonicalize n = map Canonicalize b"
      using lit_b by blast
    then have "s = u @ m @ [x] @ n @ v" using ut(1) m(1) skip(1) by simp
    then show ?thesis
      using m(2) \<open>map Canonicalize n = map Canonicalize b\<close> skip(2) by blast
  qed
next
  assume ?rhs
  then obtain u m n v where mn: "map Canonicalize m = map Canonicalize a"
      "map Canonicalize n = map Canonicalize b"
      "s = u @ m @ n @ v \<or> (\<exists>x. \<not> LineTerminator x \<and> s = u @ m @ [x] @ n @ v)"
    by blast
  have nb: "match_here (lit b) (n @ v)"
    using match_here_lit_append[of b "[]" "n @ v"] mn(2) by auto
  from mn(3) have "\<exists>t1. s = u @ m @ t1 \<and> match_here (OptAny # lit b) t1"
  proof
    assume "s = u @ m @ n @ v"
    moreover have "match_here (OptAny # lit b) (n @ v)" using nb by (cases "n @ v") auto
    ultimately show ?thesis by blast
  next
    assume "\<exists>x. \<not> LineTerminator x \<and> s = u @ m @ [x] @ n @ v"
    then obtain x where x: "\<not> LineTerminator x" "s = u @ m @ [x] @ n @ v" by blast
    have "match_here (OptAny # lit b) (x # (n @ v))" using nb x(1) by simp
    then show ?thesis using x(2) by auto
  qed
  then obtain t1 where t1: "s = u @ m @ t1" "match_here (OptAny # lit b) t1" by blast
  have "match_here (lit a @ (OptAny # lit b)) (m @ t1)"
    using match_here_lit_append[of a "OptAny # lit b" "m @ t1"] mn(1) t1(2) by blast
  then have "match_from [lit a @ [OptAny] @ lit b] (m @ t1)" by (simp add: match_from_def)
  then show ?lhs unfolding RegExp_test_somewhere using t1(1) by blast
qed

subsection \<open>A call and its two parts\<close>

text \<open>
  A call that awaits the network and gets its response with nothing served in between
  does what its two parts do one after the other.
\<close>

lemma fetch_send:
  "fetch r sys = (respond (snd (send r sys)) (fst (send r sys)), snd (send r sys))"
  by (simp add: fetch_def send_def)

lemma analyzeContract_send_receive:
  "GroqService_analyzeContract c code sys =
     (case GroqService_analyzeContract_send c code sys of
        (Returns result, sys1) \<Rightarrow> (Inr result, sys1)
      | (Awaits k, sys1) \<Rightarrow>
          (let (result, sys2) = GroqService_analyzeContract_receive c code (respond sys1 k) sys1
           in (Inr result, sys2)))"
  by (simp add: GroqService_analyzeContract_def GroqService_analyzeContract_send_def
      GroqService_analyzeContract_receive_def analyze_try_def fetch_def send_def Let_def split_def
      split: sum.splits)

lemma analyzeContractWithAI_send_receive:
  "analyzeContractWithAI c sys =
     (case analyzeContractWithAI_send c sys of
        (None, sys1) \<Rightarrow> sys1
      | (Some (k, code), sys1) \<Rightarrow> analyzeContractWithAI_receive c code (respond sys1 k) sys1)"
proof (cases "BlockchainService_getContractCode (contract_address c) sys")
  case (Inl err)
  then show ?thesis by (simp add: analyzeContractWithAI_def analyzeContractWithAI_send_def)
next
  case (Inr code)
  show ?thesis
  proof (cases "no_code code")
    case True
    then show ?thesis using Inr
      by (simp add: analyzeContractWithAI_def analyzeContractWithAI_send_def)
  next
    case False
    then show ?thesis using Inr
      by (simp add: analyzeContractWithAI_def analyzeContractWithAI_send_def
          analyzeContractWithAI_receive_def analyzeContract_send_receive Let_def split_def
          split: prod.splits async.splits)
  qed
qed

lemma analyzeContract_receive_inv:
  "store_inv (storage sys)
     \<Longrightarrow> store_inv (storage (snd (GroqService_analyzeContract_receive c code res sys)))"
  by (rule analyzeContract_receive_keeps[OF store_stable_store_inv])

subsection \<open>Two starts that overlap\<close>

lemma same_outside_refl: "same_outside sys sys"
  by (simp add: same_outside_def)

lemma same_outside_trans:
  "same_outside sys sys1 \<Longrightarrow> same_outside sys1 sys2 \<Longrightarrow> same_outside sys sys2"
  by (simp add: same_outside_def)

lemma storage_create_same:
  "same_outside sys (snd (storage_createEvent e sys))"
  "same_outside sys (snd (storage_createAlert a sys))"
  by (simp_all add: same_outside_def storage_createEvent_def storage_createAlert_def new_Date_def
      split_def Let_def)

lemma random_below_same: "same_outside sys (snd (random_below k sys))"
  by (simp add: same_outside_def random_below_def Math_random_def split_def)

lemma random_hex_same: "same_outside sys (snd (random_hex n sys))"
proof (induction n arbitrary: sys)
  case 0
  then show ?case by (simp add: same_outside_refl)
next
  case (Suc n)
  have "same_outside sys (snd (random_hex n (snd (random_below 16 sys))))"
    by (rule same_outside_trans[OF random_below_same Suc])
  then show ?case by (simp add: split_def Let_def)
qed

lemma createDemoEvents_same: "same_outside sys (createDemoEvents cs sys)"
proof (induction cs arbitrary: sys)
  case Nil
  then show ?case by (simp add: same_outside_refl)
next
  case (Cons c cs)
  show ?case
  proof (cases "map_of eventTypes (toUpperCase (contract_type c))")
    case None
    then show ?thesis using Cons by simp
  next
    case (Some nd)
    let ?sys1 = "snd (random_below 60 sys)"
    let ?sys2 = "snd (random_hex 64 ?sys1)"
    have s2: "same_outside sys ?sys2"
      by (rule same_outside_trans[OF random_below_same random_hex_same])
    have step: "same_outside sys (createDemoEvents cs (snd (storage_createEvent ev ?sys2)))" for ev
      by (rule same_outside_trans[OF s2 same_outside_trans[OF storage_create_same(1) Cons]])
    show ?thesis
      using Some by (simp add: split_def Let_def step)
  qed
qed

lemma fold_createAlert_same:
  "same_outside sys (fold (\<lambda>alert sys'. snd (storage_createAlert alert sys')) as sys)"
proof (induction as arbitrary: sys)
  case Nil
  then show ?case by (simp add: same_outside_refl)
next
  case (Cons a as)
  show ?case
    using same_outside_trans[OF storage_create_same(2)[of sys a] Cons] by simp
qed

lemma initialize_demo_same: "same_outside sys (snd (initialize_demo sys))"
proof -
  let ?sys0 = "snd (new_Date sys)"
  let ?sys1 = "BlockchainService_createDemoEvents (getContracts (storage sys)) sys"
  have d: "same_outside sys ?sys0" by (simp add: same_outside_def new_Date_def)
  have e: "same_outside sys ?sys1"
    unfolding BlockchainService_createDemoEvents_def
    using same_outside_trans[OF d createDemoEvents_same] by (simp add: split_def)
  have a: "same_outside ?sys1 (snd (BlockchainService_createDemoAlerts ?sys1))"
    by (simp add: BlockchainService_createDemoAlerts_def fold_createAlert_same same_outside_refl
        split: list.splits)
  show ?thesis
    using same_outside_trans[OF e a]
    by (simp add: initialize_demo_def Let_def split_def split: sum.splits)
qed

lemma BlockchainService_initialize_demo:
  assumes "demoMode (blockchainService sys)" "contracts_inv (storage sys)"
  shows "\<exists>sys1. BlockchainService_initialize sys = (Inr True, sys1)
           \<and> same_outside sys sys1 \<and> contracts_inv (storage sys1)"
proof -
  obtain r sys1 where b: "BlockchainService_initialize sys = (r, sys1)"
    by (cases "BlockchainService_initialize sys")
  have r: "r = Inr True"
    using BlockchainService_initialize_demo_ok[OF assms] b by simp
  have same: "same_outside sys sys1"
    using initialize_demo_same[of sys] b assms(1) by (simp add: BlockchainService_initialize_def)
  have inv: "contracts_inv (storage sys1)"
    using BlockchainService_initialize_keeps[OF store_stable_contracts_inv assms(2)] b by simp
  show ?thesis using b r same inv by simp
qed

text \<open>
  With an API key, a \<open>start\<close> of the stopped monitor sends the request of the AI
  service's initialisation and waits: it has not set \<open>isRunning\<close>.
\<close>

lemma start_with_key:
  assumes "\<not> isRunning (monitorService w)"
    and "truthy_string (GROQ_API_KEY (env (the_system w)))"
    and "demoMode (blockchainService (the_system w))"
    and "contracts_inv (storage (the_system w))"
  shows "\<exists>sys'. start w = (Awaits (length (requests (the_system w))),
                           suspend (length (requests (the_system w))) StartCall
                             (w\<lparr>the_system := sys'\<rparr>))
           \<and> env sys' = env (the_system w)
           \<and> blockchainService sys' = blockchainService (the_system w)
           \<and> contracts_inv (storage sys')
           \<and> length (requests sys') = Suc (length (requests (the_system w)))"
proof -
  obtain sys1 where b: "BlockchainService_initialize (the_system w) = (Inr True, sys1)"
      "same_outside (the_system w) sys1" "contracts_inv (storage sys1)"
    using BlockchainService_initialize_demo[OF assms(3,4)] by blast
  have key1: "truthy_string (GROQ_API_KEY (env sys1))"
    using assms(2) b(2) by (simp add: same_outside_def)
  let ?k = "length (requests sys1)"
  let ?sys2 = "snd (send (chat_request (env sys1) ''Hello, are you working?'') sys1)"
  have g: "GroqService_initialize sys1 = (Awaits ?k, ?sys2)"
    using key1 by (simp add: GroqService_initialize_def GroqService_query_def send_def)
  have k: "?k = length (requests (the_system w))"
    using b(2) by (simp add: same_outside_def)
  have st: "start w = (Awaits ?k, suspend ?k StartCall (w\<lparr>the_system := ?sys2\<rparr>))"
    using assms(1) b(1) g by (simp add: start_def)
  have frame: "env ?sys2 = env (the_system w)"
      "blockchainService ?sys2 = blockchainService (the_system w)"
      "contracts_inv (storage ?sys2)"
      "length (requests ?sys2) = Suc (length (requests (the_system w)))"
    using b(2,3) by (simp_all add: same_outside_def send_def)
  show ?thesis using st frame unfolding k by blast
qed

lemma response_arrives_start:
  assumes "map_of (waiting w) k = Some StartCall"
  shows "response_arrives k w
       = start_monitoring (w\<lparr>waiting := filter (\<lambda>p. fst p \<noteq> k) (waiting w)\<rparr>)"
  using assms by (simp add: response_arrives_def resume_def)

text \<open>
  The server with an API key, from its start: \<open>registerRoutes\<close> leaves \<open>start\<close>
  waiting for request 0 with the monitor not running, so a \<open>POST /api/monitor/start\<close>
  that comes now starts the monitor a second time and waits for request 1. When the two
  responses have arrived, four timers are set and the monitor holds the handles of the
  last two; \<open>stop\<close> then clears these two and leaves the first two set.
\<close>

lemma overlapping_starts_run:
  assumes "truthy_string (GROQ_API_KEY e)"
  shows "env (the_system (registerRoutes (initial_world e lib clk rnd net))) = e
       \<and> waiting (registerRoutes (initial_world e lib clk rnd net)) = [(0, StartCall)]
       \<and> \<not> isActive (registerRoutes (initial_world e lib clk rnd net))
       \<and> timers (registerRoutes (initial_world e lib clk rnd net)) = []
       \<and> timers (serve [PostMonitorStart, ResponseArrives 0, ResponseArrives 1]
                   (registerRoutes (initial_world e lib clk rnd net)))
           = [(1, 30 * 60 * 1000, RunSecurityChecks), (2, 2 * 60 * 60 * 1000, RunAIAnalysis),
              (3, 30 * 60 * 1000, RunSecurityChecks), (4, 2 * 60 * 60 * 1000, RunAIAnalysis)]
       \<and> monitorService (serve [PostMonitorStart, ResponseArrives 0, ResponseArrives 1]
                           (registerRoutes (initial_world e lib clk rnd net)))
           = \<lparr>isRunning = True, checkInterval = Some 3, analysisInterval = Some 4\<rparr>
       \<and> timers (serve [PostMonitorStart, ResponseArrives 0, ResponseArrives 1, PostMonitorStop]
                   (registerRoutes (initial_world e lib clk rnd net)))
           = [(1, 30 * 60 * 1000, RunSecurityChecks), (2, 2 * 60 * 60 * 1000, RunAIAnalysis)]
       \<and> monitorService (serve [PostMonitorStart, ResponseArrives 0, ResponseArrives 1,
                                  PostMonitorStop]
                           (registerRoutes (initial_world e lib clk rnd net)))
           = \<lparr>isRunning = False, checkInterval = None, analysisInterval = None\<rparr>"
proof -
  let ?iw = "initial_world e lib clk rnd net"
  have iw: "monitorService ?iw = \<lparr>isRunning = False, checkInterval = None, analysisInterval = None\<rparr>"
      "timers ?iw = []" "nextTimer ?iw = 1" "waiting ?iw = []"
      "env (the_system ?iw) = e" "requests (the_system ?iw) = []"
      "demoMode (blockchainService (the_system ?iw))"
      "contracts_inv (storage (the_system ?iw))"
    by (simp_all add: initial_world_def BlockchainService_new_def DEMO_MODE_always
        MemStorage_new_contracts_inv)
  obtain sys1 where b: "BlockchainService_initialize (the_system ?iw) = (Inr True, sys1)"
      "same_outside (the_system ?iw) sys1" "contracts_inv (storage sys1)"
    using BlockchainService_initialize_demo[OF iw(7,8)] by blast
  let ?w = "?iw\<lparr>the_system := sys1\<rparr>"
  have w: "\<not> isRunning (monitorService ?w)"
      "truthy_string (GROQ_API_KEY (env (the_system ?w)))"
      "demoMode (blockchainService (the_system ?w))"
      "contracts_inv (storage (the_system ?w))"
      "length (requests (the_system ?w)) = 0"
    using iw b(2,3) assms by (simp_all add: same_outside_def)
  obtain sys2 where s0: "start ?w = (Awaits 0, suspend 0 StartCall (?w\<lparr>the_system := sys2\<rparr>))"
      "env sys2 = env (the_system ?w)" "blockchainService sys2 = blockchainService (the_system ?w)"
      "contracts_inv (storage sys2)" "length (requests sys2) = Suc 0"
    using start_with_key[OF w(1,2,3,4)] unfolding w(5) by blast
  let ?w0 = "suspend 0 StartCall (?w\<lparr>the_system := sys2\<rparr>)"
  have reg: "registerRoutes ?iw = ?w0"
    using b(1) s0(1) by (simp add: registerRoutes_def)
  have w0: "monitorService ?w0 = \<lparr>isRunning = False, checkInterval = None, analysisInterval = None\<rparr>"
      "timers ?w0 = []" "nextTimer ?w0 = 1" "waiting ?w0 = [(0, StartCall)]"
      "the_system ?w0 = sys2"
    using iw(1,2,3,4) by (simp_all add: suspend_def)
  have w0k: "\<not> isRunning (monitorService ?w0)"
      "truthy_string (GROQ_API_KEY (env (the_system ?w0)))"
      "demoMode (blockchainService (the_system ?w0))"
      "contracts_inv (storage (the_system ?w0))"
      "length (requests (the_system ?w0)) = 1"
    using w0(1) w(2,3) s0(2,3,4,5) by (simp_all add: suspend_def)
  obtain sys3 where s1: "start ?w0 = (Awaits 1, suspend 1 StartCall (?w0\<lparr>the_system := sys3\<rparr>))"
    using start_with_key[OF w0k(1,2,3,4)] unfolding w0k(5) by blast
  let ?w1 = "suspend 1 StartCall (?w0\<lparr>the_system := sys3\<rparr>)"
  have h1: "handle PostMonitorStart ?w0 = ?w1"
    using w0k(1) s1 by (simp add: isActive_def)
  have w1: "monitorService ?w1 = \<lparr>isRunning = False, checkInterval = None, analysisInterval = None\<rparr>"
      "timers ?w1 = []" "nextTimer ?w1 = 1" "waiting ?w1 = [(0, StartCall), (1, StartCall)]"
    using w0(1,2,3,4) by (simp_all add: suspend_def)
  let ?w2 = "handle (ResponseArrives 0) ?w1"
  have w2: "monitorService ?w2 = \<lparr>isRunning = True, checkInterval = Some 1, analysisInterval = Some 2\<rparr>"
      "timers ?w2 = [(1, 30 * 60 * 1000, RunSecurityChecks), (2, 2 * 60 * 60 * 1000, RunAIAnalysis)]"
      "nextTimer ?w2 = 3" "waiting ?w2 = [(1, StartCall)]"
    using w1 by (simp_all add: response_arrives_start start_monitoring_result numeral_2_eq_2
        numeral_3_eq_3)
  let ?w3 = "handle (ResponseArrives 1) ?w2"
  have w3: "monitorService ?w3 = \<lparr>isRunning = True, checkInterval = Some 3, analysisInterval = Some 4\<rparr>"
      "timers ?w3 = [(1, 30 * 60 * 1000, RunSecurityChecks), (2, 2 * 60 * 60 * 1000, RunAIAnalysis),
                     (3, 30 * 60 * 1000, RunSecurityChecks), (4, 2 * 60 * 60 * 1000, RunAIAnalysis)]"
    using w2 by (simp_all add: response_arrives_start start_monitoring_result)
  let ?w4 = "handle PostMonitorStop ?w3"
  have w4: "monitorService ?w4 = \<lparr>isRunning = False, checkInterval = None, analysisInterval = None\<rparr>"
      "timers ?w4 = [(1, 30 * 60 * 1000, RunSecurityChecks), (2, 2 * 60 * 60 * 1000, RunAIAnalysis)]"
    using w3 by (simp_all add: isActive_def stop_def clearInterval_def Let_def)
  have run3: "serve [PostMonitorStart, ResponseArrives 0, ResponseArrives 1] (registerRoutes ?iw) = ?w3"
    unfolding reg serve_def by (simp only: fold_Cons fold_Nil comp_apply id_apply h1)
  have run4: "serve [PostMonitorStart, ResponseArrives 0, ResponseArrives 1, PostMonitorStop]
                (registerRoutes ?iw) = ?w4"
    unfolding reg serve_def by (simp only: fold_Cons fold_Nil comp_apply id_apply h1)
  have env0: "env (the_system ?w0) = e"
    using w0(5) s0(2) b(2) iw(5) by (simp add: same_outside_def)
  show ?thesis
    unfolding run3 run4 unfolding reg
    using env0 w0(1,2,4) w3 w4 by (simp add: isActive_def)
qed

text \<open>
  When the \<open>POST /api/monitor/start\<close> comes after the response instead, it finds the
  monitor running and changes nothing: two timers are set, and \<open>stop\<close> clears both.
\<close>

lemma starts_in_turn_run:
  assumes "truthy_string (GROQ_API_KEY e)"
  shows "timers (serve [ResponseArrives 0, PostMonitorStart]
                   (registerRoutes (initial_world e lib clk rnd net)))
           = [(1, 30 * 60 * 1000, RunSecurityChecks), (2, 2 * 60 * 60 * 1000, RunAIAnalysis)]
       \<and> monitor_inv (serve [ResponseArrives 0, PostMonitorStart]
                        (registerRoutes (initial_world e lib clk rnd net)))
       \<and> timers (serve [ResponseArrives 0, PostMonitorStart, PostMonitorStop]
                   (registerRoutes (initial_world e lib clk rnd net))) = []
       \<and> monitor_inv (serve [ResponseArrives 0, PostMonitorStart, PostMonitorStop]
                        (registerRoutes (initial_world e lib clk rnd net)))"
proof -
  let ?w0 = "registerRoutes (initial_world e lib clk rnd net)"
  have w0: "waiting ?w0 = [(0, StartCall)]" "\<not> isActive ?w0" "timers ?w0 = []"
    using overlapping_starts_run[OF assms, of lib clk rnd net] by simp_all
  have inv0: "monitor_inv ?w0"
    unfolding registerRoutes_def
    by (simp add: start_inv initial_world_inv monitor_inv_system split: prod.splits sum.splits)
  have next0: "nextTimer ?w0 = 1"
  proof -
    have "nextTimer (snd (start w)) = nextTimer w" if "waiting (snd (start w)) \<noteq> waiting w" for w
      using that
      by (auto simp: start_def suspend_def start_monitoring_result
          split: if_splits prod.splits sum.splits async.splits)
    then show ?thesis
      using w0(1)
      by (auto simp: registerRoutes_def initial_world_def split: prod.splits sum.splits)
  qed
  let ?w1 = "handle (ResponseArrives 0) ?w0"
  have w1: "isRunning (monitorService ?w1)"
      "timers ?w1 = [(1, 30 * 60 * 1000, RunSecurityChecks), (2, 2 * 60 * 60 * 1000, RunAIAnalysis)]"
      "checkInterval (monitorService ?w1) = Some 1" "analysisInterval (monitorService ?w1) = Some 2"
    using w0 next0 by (simp_all add: response_arrives_start start_monitoring_result numeral_2_eq_2)
  have inv1: "monitor_inv ?w1" using w1 by (simp add: monitor_inv_def)
  have h2: "handle PostMonitorStart ?w1 = ?w1" using w1(1) by (simp add: isActive_def)
  have run2: "serve [ResponseArrives 0, PostMonitorStart] ?w0 = ?w1"
    unfolding serve_def by (simp only: fold_Cons fold_Nil comp_apply id_apply h2)
  have run3: "serve [ResponseArrives 0, PostMonitorStart, PostMonitorStop] ?w0 = stop ?w1"
    unfolding serve_def using w1(1)
    by (simp only: fold_Cons fold_Nil comp_apply id_apply h2) (simp add: isActive_def)
  have off: "timers (stop ?w1) = []"
    by (subst stop_result[OF inv1]) simp
  show ?thesis
    unfolding run2 run3 using w1(2) inv1 stop_inv[OF inv1] off by simp
qed


subsection \<open>The blockchain service over a run of the server\<close>

text \<open>
  The blockchain service is constructed in demo mode and stays in it: the store's
  operations and the AI service do not touch it, and its own initialisation in demo mode
  leaves it as it is. So in every state the server reaches, the code of a contract is
  read without the network, and a round of security checks runs to its end.
\<close>

lemma storage_ops_service:
  "blockchainService (snd (storage_createAlert a sys)) = blockchainService sys"
  "blockchainService (snd (storage_createEvent e sys)) = blockchainService sys"
  "blockchainService (snd (storage_createAiQuery q sys)) = blockchainService sys"
  "blockchainService (storage_updateContractStatus i status sys) = blockchainService sys"
  "blockchainService (MonitorService_createAlert c sev ttl text ai sys) = blockchainService sys"
  by (simp_all add: storage_createAlert_def storage_createEvent_def storage_createAiQuery_def
      storage_updateContractStatus_def MonitorService_createAlert_def new_Date_def split_def Let_def)

lemma checkContractHealth_service:
  "blockchainService (checkContractHealth c sys) = blockchainService sys"
  by (simp add: checkContractHealth_def storage_ops_service Let_def split: sum.splits list.splits)

lemma security_round_service: "blockchainService (security_round sys) = blockchainService sys"
proof -
  have "blockchainService (fold checkContractHealth cs sys) = blockchainService sys" for cs
    by (induction cs arbitrary: sys) (simp_all add: checkContractHealth_service)
  then show ?thesis by (simp add: security_round_def)
qed

lemma check_indicators_service:
  "blockchainService (check_indicators inds c text sys) = blockchainService sys"
  by (induction inds) (simp_all add: update_status_for_def storage_ops_service)

lemma analyze_response_service:
  "blockchainService (snd (analyze_response c p res sys)) = blockchainService sys"
  by (simp add: analyze_response_def storage_ops_service Let_def split_def
      split: fetch_result.splits sum.splits option.splits)

lemma analyzeContractWithAI_send_service:
  "blockchainService (snd (analyzeContractWithAI_send c sys)) = blockchainService sys"
  by (simp add: analyzeContractWithAI_send_def GroqService_analyzeContract_send_def send_def
      check_indicators_service Let_def split_def split: sum.splits)

lemma analyzeContractWithAI_receive_service:
  "blockchainService (analyzeContractWithAI_receive c code res sys) = blockchainService sys"
proof -
  have "blockchainService (snd (GroqService_analyzeContract_receive c code res sys))
      = blockchainService sys"
    using analyze_response_service[of c "contract_prompt c code" res sys]
    by (auto simp: GroqService_analyzeContract_receive_def Let_def split: prod.splits sum.splits)
  then show ?thesis
    by (simp add: analyzeContractWithAI_receive_def check_indicators_service split_def Let_def)
qed

lemma analysis_loop_service:
  "blockchainService (the_system (analysis_loop cs w)) = blockchainService (the_system w)"
proof (induction cs arbitrary: w)
  case Nil
  then show ?case by simp
next
  case (Cons c cs)
  obtain r sys1 where s: "analyzeContractWithAI_send c (the_system w) = (r, sys1)"
    by (cases "analyzeContractWithAI_send c (the_system w)")
  have b1: "blockchainService sys1 = blockchainService (the_system w)"
    using analyzeContractWithAI_send_service[of c "the_system w"] s by simp
  show ?case
  proof (cases r)
    case None
    then show ?thesis using s b1 Cons[of "w\<lparr>the_system := sys1\<rparr>"] by simp
  next
    case (Some kc)
    then show ?thesis using s b1 by (cases kc) (simp add: suspend_frame)
  qed
qed

lemma callbacks_service:
  "blockchainService (the_system (runSecurityChecks w)) = blockchainService (the_system w)"
  "blockchainService (the_system (runAIAnalysis w)) = blockchainService (the_system w)"
  "blockchainService (the_system (start_monitoring w)) = blockchainService (the_system w)"
  "blockchainService (the_system (timer_fires h w)) = blockchainService (the_system w)"
  using security_round_service[of "the_system w"]
  by (simp_all add: runSecurityChecks_def security_round_def runAIAnalysis_def
      analysis_loop_service start_monitoring_result timer_fires_def run_callback_def
      split: option.splits callback.splits)

lemma BlockchainService_initialize_demoMode:
  assumes "demoMode (blockchainService sys)"
  shows "blockchainService (snd (BlockchainService_initialize sys)) = blockchainService sys"
  using initialize_demo_same[of sys] assms
  by (simp add: BlockchainService_initialize_def same_outside_def)

lemma start_demoMode:
  assumes "demoMode (blockchainService (the_system w))"
  shows "demoMode (blockchainService (the_system (snd (start w))))"
proof (cases "isRunning (monitorService w)")
  case True
  then show ?thesis using assms by (simp add: start_running)
next
  case False
  obtain r sys1 where b: "BlockchainService_initialize (the_system w) = (r, sys1)"
    by (cases "BlockchainService_initialize (the_system w)")
  have d1: "demoMode (blockchainService sys1)"
    using BlockchainService_initialize_demoMode[OF assms] b assms by simp
  obtain a sys2 where g: "GroqService_initialize sys1 = (a, sys2)"
    by (cases "GroqService_initialize sys1")
  have "blockchainService sys2 = blockchainService sys1"
    using g
    by (auto simp: GroqService_initialize_def GroqService_query_def send_def
        split: if_splits async.splits)
  then have d2: "demoMode (blockchainService sys2)" using d1 by simp
  show ?thesis
    using False b g d1 d2
    by (cases r; cases a) (simp_all add: start_def suspend_frame callbacks_service)
qed

lemma scanContract_service:
  "blockchainService (the_system (scanContract a w)) = blockchainService (the_system w)"
proof (cases "getContractByAddress a (storage (the_system w))")
  case None
  then show ?thesis by (simp add: scanContract_def)
next
  case (Some c)
  let ?sys = "checkContractHealth c (the_system w)"
  obtain r sys1 where s: "analyzeContractWithAI_send c ?sys = (r, sys1)"
    by (cases "analyzeContractWithAI_send c ?sys")
  have "blockchainService sys1 = blockchainService (the_system w)"
    using analyzeContractWithAI_send_service[of c ?sys] s by (simp add: checkContractHealth_service)
  then show ?thesis
    using Some s by (cases r) (auto simp: scanContract_def suspend_frame)
qed

lemma response_arrives_service:
  "blockchainService (the_system (response_arrives k w)) = blockchainService (the_system w)"
proof (cases "map_of (waiting w) k")
  case None
  then show ?thesis by (simp add: response_arrives_def)
next
  case (Some c)
  then show ?thesis
    by (cases c)
       (simp_all add: response_arrives_def resume_def callbacks_service analysis_loop_service
          analyzeContractWithAI_receive_service)
qed

lemma handle_demoMode:
  assumes "demoMode (blockchainService (the_system w))"
  shows "demoMode (blockchainService (the_system (handle r w)))"
  using assms
  by (cases r)
     (simp_all add: scanContract_service start_demoMode stop_frame callbacks_service
        response_arrives_service split: option.splits)

lemma server_demoMode:
  "demoMode (blockchainService
     (the_system (serve reqs (registerRoutes (initial_world e lib clk rnd net)))))"
proof -
  let ?iw = "initial_world e lib clk rnd net"
  have d0: "demoMode (blockchainService (the_system ?iw))"
    by (simp add: initial_world_def BlockchainService_new_def DEMO_MODE_always)
  obtain r sys1 where b: "BlockchainService_initialize (the_system ?iw) = (r, sys1)"
    by (cases "BlockchainService_initialize (the_system ?iw)")
  have d1: "demoMode (blockchainService sys1)"
    using BlockchainService_initialize_demoMode[OF d0] b d0 by simp
  have "demoMode (blockchainService (the_system (snd (start (?iw\<lparr>the_system := sys1\<rparr>)))))"
    by (rule start_demoMode) (simp add: d1)
  then have d2: "demoMode (blockchainService (the_system (registerRoutes ?iw)))"
    using b d1 by (cases r) (simp_all add: registerRoutes_def)
  have "demoMode (blockchainService (the_system w))
      \<Longrightarrow> demoMode (blockchainService (the_system (serve reqs w)))" for w
    unfolding serve_def by (induction reqs arbitrary: w) (simp_all add: handle_demoMode)
  then show ?thesis using d2 by blast
qed

text \<open>In demo mode the code of a contract is there at once, whatever the address.\<close>

lemma server_getContractCode:
  "BlockchainService_getContractCode address
     (the_system (serve reqs (registerRoutes (initial_world e lib clk rnd net))))
     = Inr dummy_bytecode"
  using server_demoMode[of reqs e lib clk rnd net]
  by (simp add: BlockchainService_getContractCode_def)

text \<open>
  The second part of \<open>analyzeContractWithAI\<close>, in whatever state it goes on: one alert
  for the first indicator that matches, and none when no indicator matches.
\<close>

lemma analyzeContractWithAI_receive_first_indicator:
  assumes "store_inv (storage sys')"
    and "GroqService_analyzeContract_receive c code res sys' = (result', sys1')"
  shows "(\<forall>i < length vulnerabilityIndicators.
             RegExp_test (pattern (vulnerabilityIndicators ! i)) (analysis result')
             \<and> (\<forall>j < i. \<not> RegExp_test (pattern (vulnerabilityIndicators ! j)) (analysis result'))
             \<longrightarrow> alerts (storage (analyzeContractWithAI_receive c code res sys'))
                   = alerts (storage sys1')
                     @ [(alertCurrentId (storage sys1'),
                         indicator_alert (vulnerabilityIndicators ! i) c (analysis result')
                           (alertCurrentId (storage sys1')) (clock sys1' (clockReads sys1')))])
       \<and> ((\<forall>i < length vulnerabilityIndicators.
              \<not> RegExp_test (pattern (vulnerabilityIndicators ! i)) (analysis result'))
            \<longrightarrow> analyzeContractWithAI_receive c code res sys' = sys1')"
proof -
  let ?P = "\<lambda>ind. RegExp_test (pattern ind) (analysis result')"
  have run: "analyzeContractWithAI_receive c code res sys'
      = check_indicators vulnerabilityIndicators c (analysis result') sys1'"
    using assms(2) by (simp add: analyzeContractWithAI_receive_def)
  have inv1: "store_inv (storage sys1')"
    using analyzeContract_receive_inv[OF assms(1), of c code res] assms(2) by simp
  have fresh: "alertCurrentId (storage sys1') \<notin> set (Map_keys (alerts (storage sys1')))"
    using store_inv_fresh(3)[OF inv1] .
  have first: "\<forall>i < length vulnerabilityIndicators.
             ?P (vulnerabilityIndicators ! i)
             \<and> (\<forall>j < i. \<not> ?P (vulnerabilityIndicators ! j))
             \<longrightarrow> alerts (storage (analyzeContractWithAI_receive c code res sys'))
                   = alerts (storage sys1')
                     @ [(alertCurrentId (storage sys1'),
                         indicator_alert (vulnerabilityIndicators ! i) c (analysis result')
                           (alertCurrentId (storage sys1')) (clock sys1' (clockReads sys1')))]"
  proof (intro allI impI)
    fix i
    assume i: "i < length vulnerabilityIndicators"
      and m: "?P (vulnerabilityIndicators ! i)
              \<and> (\<forall>j < i. \<not> ?P (vulnerabilityIndicators ! j))"
    have f: "find ?P vulnerabilityIndicators = Some (vulnerabilityIndicators ! i)"
      using find_first_index[of i vulnerabilityIndicators ?P] i m by blast
    show "alerts (storage (analyzeContractWithAI_receive c code res sys'))
                   = alerts (storage sys1')
                     @ [(alertCurrentId (storage sys1'),
                         indicator_alert (vulnerabilityIndicators ! i) c (analysis result')
                           (alertCurrentId (storage sys1')) (clock sys1' (clockReads sys1')))]"
      unfolding run check_indicators_alerts f using fresh by (simp add: Map_set_fresh)
  qed
  have none: "(\<forall>i < length vulnerabilityIndicators. \<not> ?P (vulnerabilityIndicators ! i))
            \<longrightarrow> analyzeContractWithAI_receive c code res sys' = sys1'"
  proof
    assume "\<forall>i < length vulnerabilityIndicators. \<not> ?P (vulnerabilityIndicators ! i)"
    then have "find ?P vulnerabilityIndicators = None" by (rule find_no_index)
    then show "analyzeContractWithAI_receive c code res sys' = sys1'"
      unfolding run by (rule check_indicators_no_match)
  qed
  show ?thesis by (rule conjI[OF first none])
qed

section \<open>The claims\<close>

text \<open>
  Claim C1. \<open>analyzeContractWithAI\<close>, once the contract's code is there and the AI
  service has returned an analysis text, goes through the six indicators in the listed
  order (reentrancy HIGH, access control HIGH, overflow/underflow MEDIUM, front-running
  MEDIUM, logic error MEDIUM, gas optimization LOW). For the first indicator whose
  pattern matches the text it appends exactly one alert to the alerts, with that
  indicator's severity and title and the text as description, and no other alert,
  whatever later patterns match. When no pattern matches it creates no alert and leaves
  the state as the AI service left it. The store is taken to be well formed, which it is
  in every state the server reaches (\<open>server_store_inv\<close>). The same holds of the call
  that has awaited the network and goes on with the response, in whatever state the
  server is then.
\<close>

theorem analyzeContractWithAI_first_indicator:
  assumes "BlockchainService_getContractCode (contract_address c) sys = Inr code"
    and "\<not> no_code code"
    and "GroqService_analyzeContract c code sys = (Inr result, sys1)"
    and "store_inv (storage sys)"
  shows "map (\<lambda>ind. (severity ind, title ind)) vulnerabilityIndicators =
           [(''HIGH'', ''Reentrancy vulnerability''),
            (''HIGH'', ''Access control issue''),
            (''MEDIUM'', ''Integer overflow/underflow''),
            (''MEDIUM'', ''Front-running vulnerability''),
            (''MEDIUM'', ''Logic error''),
            (''LOW'', ''Gas optimization issue'')]
       \<and> (\<forall>i < length vulnerabilityIndicators.
             RegExp_test (pattern (vulnerabilityIndicators ! i)) (analysis result)
             \<and> (\<forall>j < i. \<not> RegExp_test (pattern (vulnerabilityIndicators ! j)) (analysis result))
             \<longrightarrow> alerts (storage (analyzeContractWithAI c sys))
                   = alerts (storage sys1)
                     @ [(alertCurrentId (storage sys1),
                         indicator_alert (vulnerabilityIndicators ! i) c (analysis result)
                           (alertCurrentId (storage sys1)) (clock sys1 (clockReads sys1)))])
       \<and> ((\<forall>i < length vulnerabilityIndicators.
              \<not> RegExp_test (pattern (vulnerabilityIndicators ! i)) (analysis result))
            \<longrightarrow> analyzeContractWithAI c sys = sys1)
       \<and> (\<forall>res sys' result' sys1'.
             store_inv (storage sys')
             \<and> GroqService_analyzeContract_receive c code res sys' = (result', sys1')
             \<longrightarrow> (\<forall>i < length vulnerabilityIndicators.
                    RegExp_test (pattern (vulnerabilityIndicators ! i)) (analysis result')
                    \<and> (\<forall>j < i. \<not> RegExp_test (pattern (vulnerabilityIndicators ! j))
                                      (analysis result'))
                    \<longrightarrow> alerts (storage (analyzeContractWithAI_receive c code res sys'))
                          = alerts (storage sys1')
                            @ [(alertCurrentId (storage sys1'),
                                indicator_alert (vulnerabilityIndicators ! i) c (analysis result')
                                  (alertCurrentId (storage sys1'))
                                  (clock sys1' (clockReads sys1')))])
                 \<and> ((\<forall>i < length vulnerabilityIndicators.
                        \<not> RegExp_test (pattern (vulnerabilityIndicators ! i)) (analysis result'))
                      \<longrightarrow> analyzeContractWithAI_receive c code res sys' = sys1'))"
proof -
  let ?P = "\<lambda>ind. RegExp_test (pattern ind) (analysis result)"
  have run: "analyzeContractWithAI c sys
      = check_indicators vulnerabilityIndicators c (analysis result) sys1"
    using assms(1,2,3) by (simp add: analyzeContractWithAI_def)
  have inv1: "store_inv (storage sys1)"
    using analyzeContract_inv[OF assms(4), of c code] assms(3) by simp
  have fresh: "alertCurrentId (storage sys1) \<notin> set (Map_keys (alerts (storage sys1)))"
    using store_inv_fresh(3)[OF inv1] .
  have first: "\<forall>i < length vulnerabilityIndicators.
             ?P (vulnerabilityIndicators ! i)
             \<and> (\<forall>j < i. \<not> ?P (vulnerabilityIndicators ! j))
             \<longrightarrow> alerts (storage (analyzeContractWithAI c sys))
                   = alerts (storage sys1)
                     @ [(alertCurrentId (storage sys1),
                         indicator_alert (vulnerabilityIndicators ! i) c (analysis result)
                           (alertCurrentId (storage sys1)) (clock sys1 (clockReads sys1)))]"
  proof (intro allI impI)
    fix i
    assume i: "i < length vulnerabilityIndicators"
      and m: "?P (vulnerabilityIndicators ! i)
              \<and> (\<forall>j < i. \<not> ?P (vulnerabilityIndicators ! j))"
    have f: "find ?P vulnerabilityIndicators = Some (vulnerabilityIndicators ! i)"
      using find_first_index[of i vulnerabilityIndicators ?P] i m by blast
    show "alerts (storage (analyzeContractWithAI c sys))
                   = alerts (storage sys1)
                     @ [(alertCurrentId (storage sys1),
                         indicator_alert (vulnerabilityIndicators ! i) c (analysis result)
                           (alertCurrentId (storage sys1)) (clock sys1 (clockReads sys1)))]"
      unfolding run check_indicators_alerts f using fresh by (simp add: Map_set_fresh)
  qed
  have none: "(\<forall>i < length vulnerabilityIndicators. \<not> ?P (vulnerabilityIndicators ! i))
            \<longrightarrow> analyzeContractWithAI c sys = sys1"
  proof
    assume "\<forall>i < length vulnerabilityIndicators. \<not> ?P (vulnerabilityIndicators ! i)"
    then have "find ?P vulnerabilityIndicators = None" by (rule find_no_index)
    then show "analyzeContractWithAI c sys = sys1"
      unfolding run by (rule check_indicators_no_match)
  qed
  have later: "\<forall>res sys' result' sys1'.
             store_inv (storage sys')
             \<and> GroqService_analyzeContract_receive c code res sys' = (result', sys1')
             \<longrightarrow> (\<forall>i < length vulnerabilityIndicators.
                    RegExp_test (pattern (vulnerabilityIndicators ! i)) (analysis result')
                    \<and> (\<forall>j < i. \<not> RegExp_test (pattern (vulnerabilityIndicators ! j))
                                      (analysis result'))
                    \<longrightarrow> alerts (storage (analyzeContractWithAI_receive c code res sys'))
                          = alerts (storage sys1')
                            @ [(alertCurrentId (storage sys1'),
                                indicator_alert (vulnerabilityIndicators ! i) c (analysis result')
                                  (alertCurrentId (storage sys1'))
                                  (clock sys1' (clockReads sys1')))])
                 \<and> ((\<forall>i < length vulnerabilityIndicators.
                        \<not> RegExp_test (pattern (vulnerabilityIndicators ! i)) (analysis result'))
                      \<longrightarrow> analyzeContractWithAI_receive c code res sys' = sys1')"
    by (intro allI impI, elim conjE, rule analyzeContractWithAI_receive_first_indicator)
  show ?thesis
    by (rule conjI[OF vulnerabilityIndicators_table conjI[OF first conjI[OF none later]]])
qed

theorem analyzeContractWithAI_first_indicator_witness:
  "RegExp_test (pattern (vulnerabilityIndicators ! 0)) example_analysis
   \<and> RegExp_test (pattern (vulnerabilityIndicators ! 2)) example_analysis
   \<and> RegExp_test (pattern (vulnerabilityIndicators ! 5)) example_analysis
   \<and> map (\<lambda>(k, a). (k, alert_severity a, alert_title a, alert_description a))
        (alerts (storage (analyzeContractWithAI example_contract
                            (example_system (answers example_analysis)))))
       = [(1, ''HIGH'', ''Reentrancy vulnerability'', example_analysis)]"
proof -
  let ?sys = "example_system (answers example_analysis)"
  obtain result sys1 where
    run: "GroqService_analyzeContract example_contract dummy_bytecode ?sys = (Inr result, sys1)"
    and res: "result = \<lparr>analysis = example_analysis, tokenCount = 120\<rparr>"
    using example_answer
    by (cases "GroqService_analyzeContract example_contract dummy_bytecode ?sys") auto
  have code: "BlockchainService_getContractCode (contract_address example_contract) ?sys
      = Inr dummy_bytecode"
    using example_system_demoMode[of "answers example_analysis"]
    by (simp add: BlockchainService_getContractCode_def)
  have usable: "\<not> no_code dummy_bytecode"
    by (simp add: no_code_def truthy_string_def dummy_bytecode_def)
  have inv: "store_inv (storage ?sys)"
    unfolding example_system_storage by (rule example_store_inv)
  have before: "alerts (storage sys1) = []" "alertCurrentId (storage sys1) = 1"
    using analyzeContract_keeps(1,2)[of example_contract dummy_bytecode ?sys] run
      example_store_no_alerts
    by (simp_all add: example_system_storage)
  have len: "0 < length vulnerabilityIndicators" by (simp add: vulnerabilityIndicators_def)
  have m: "RegExp_test (pattern (vulnerabilityIndicators ! 0)) (analysis result)"
    using example_analysis_matches res by simp
  have "alerts (storage (analyzeContractWithAI example_contract ?sys))
      = alerts (storage sys1)
        @ [(alertCurrentId (storage sys1),
            indicator_alert (vulnerabilityIndicators ! 0) example_contract (analysis result)
              (alertCurrentId (storage sys1)) (clock sys1 (clockReads sys1)))]"
    using analyzeContractWithAI_first_indicator[OF code usable run inv] len m by blast
  then have "map (\<lambda>(k, a). (k, alert_severity a, alert_title a, alert_description a))
        (alerts (storage (analyzeContractWithAI example_contract ?sys)))
       = [(1, ''HIGH'', ''Reentrancy vulnerability'', example_analysis)]"
    by (simp add: before res indicator_alert_def vulnerabilityIndicators_def)
  then show ?thesis using example_analysis_matches by simp
qed

text \<open>
  Claim C2, as amended. The service is constructed in demo mode whatever the environment
  says, and in demo mode \<open>getContractCode\<close> returns, for every address, the same fixed
  dummy bytecode: it never throws, reads no chain data and does not depend on the random
  source or on the clock.
\<close>

theorem getContractCode_demo_fixed:
  "demoMode (BlockchainService_new e lib)
   \<and> (demoMode (blockchainService sys)
        \<longrightarrow> BlockchainService_getContractCode address sys = Inr dummy_bytecode
            \<and> BlockchainService_getContractCode address
                 (sys\<lparr>random := rnd, randomDraws := draws, clock := clk, clockReads := reads\<rparr>)
                = Inr dummy_bytecode)"
  by (simp add: BlockchainService_new_def DEMO_MODE_always BlockchainService_getContractCode_def)

theorem getContractCode_demo_fixed_witness:
  "demoMode (blockchainService (example_system network_down))
   \<and> BlockchainService_getContractCode ''0xea1Ad2Ebf76b490a327eF1885863c9209994F015''
        (example_system network_down) = Inr dummy_bytecode
   \<and> take 10 dummy_bytecode = ''0x60806040''"
  using getContractCode_demo_fixed[where sys = "example_system network_down"
      and address = "''0xea1Ad2Ebf76b490a327eF1885863c9209994F015''"]
    example_system_demoMode[of network_down]
  by (simp add: dummy_bytecode_def)

text \<open>
  The claim as stated says the placeholder is randomly generated. It is one constant:
  under two random sources that differ at every draw, and for two different addresses,
  \<open>getContractCode\<close> returns the same string, while the transaction hash of a demo
  event, which is drawn from the random source, differs.
\<close>

theorem getContractCode_random_counterexample:
  "BlockchainService_getContractCode ''0xea1Ad2Ebf76b490a327eF1885863c9209994F015''
       ((example_system network_down)\<lparr>random := random_zero\<rparr>)
     = BlockchainService_getContractCode ''0x525975C25823ecb3a3875F577a5B9574aB758197''
       ((example_system network_down)\<lparr>random := random_half\<rparr>)
   \<and> BlockchainService_getContractCode ''0xea1Ad2Ebf76b490a327eF1885863c9209994F015''
       ((example_system network_down)\<lparr>random := random_zero\<rparr>) = Inr dummy_bytecode
   \<and> fst (random_hex 4 ((example_system network_down)\<lparr>random := random_zero\<rparr>))
       \<noteq> fst (random_hex 4 ((example_system network_down)\<lparr>random := random_half\<rparr>))"
  using example_system_demoMode[of network_down]
  by (simp add: BlockchainService_getContractCode_def random_hex_zero random_hex_half)

text \<open>
  Claim C3. In a well-formed store every create (\<open>createUser\<close>, \<open>createContract\<close>,
  \<open>createAlert\<close>, \<open>createEvent\<close>, \<open>createAiQuery\<close>) returns an entity whose id is
  the current counter of its kind, moves that counter up by one, and appends the entity
  to its map under a key that was not present, so nothing is overwritten. Over any run
  of store operations from such a store, the ids assigned to one kind are strictly
  increasing, hence distinct, every create adds one entry to its map, and the store stays
  well formed. The store is well formed as its constructor leaves it and in every state
  the server reaches from there.
\<close>

theorem create_assigns_fresh_increasing_ids:
  assumes "store_inv s"
  shows "(let (r, s') = createUser u s
          in user_id r = userCurrentId s \<and> userCurrentId s' = userCurrentId s + 1
             \<and> Map_get (users s) (user_id r) = None \<and> users s' = users s @ [(user_id r, r)])
       \<and> (let (r, s') = createContract c now s
          in contract_id r = contractCurrentId s \<and> contractCurrentId s' = contractCurrentId s + 1
             \<and> Map_get (contracts s) (contract_id r) = None
             \<and> contracts s' = contracts s @ [(contract_id r, r)])
       \<and> (let (r, s') = createAlert a now s
          in alert_id r = alertCurrentId s \<and> alertCurrentId s' = alertCurrentId s + 1
             \<and> Map_get (alerts s) (alert_id r) = None \<and> alerts s' = alerts s @ [(alert_id r, r)])
       \<and> (let (r, s') = createEvent e now s
          in event_id r = eventCurrentId s \<and> eventCurrentId s' = eventCurrentId s + 1
             \<and> Map_get (events s) (event_id r) = None \<and> events s' = events s @ [(event_id r, r)])
       \<and> (let (r, s') = createAiQuery q now s
          in query_id r = aiQueryCurrentId s \<and> aiQueryCurrentId s' = aiQueryCurrentId s + 1
             \<and> Map_get (aiQueries s) (query_id r) = None
             \<and> aiQueries s' = aiQueries s @ [(query_id r, r)])
       \<and> sorted_wrt (<) (assigned_ids k ops s)
       \<and> distinct (assigned_ids k ops s)
       \<and> entries k (snd (run_ops ops s)) = entries k s + length (assigned_ids k ops s)
       \<and> store_inv (snd (run_ops ops s))
       \<and> store_inv (MemStorage_new env' t1 t2 t3)
       \<and> store_inv
            (storage (the_system (serve reqs (registerRoutes (initial_world env' lib clk rnd net)))))"
proof -
  note fresh = store_inv_fresh[OF assms]
  have u: "(let (r, s') = createUser u s
          in user_id r = userCurrentId s \<and> userCurrentId s' = userCurrentId s + 1
             \<and> Map_get (users s) (user_id r) = None \<and> users s' = users s @ [(user_id r, r)])"
    using fresh(1) by (simp add: createUser_def Let_def Map_set_fresh Map_get_None_iff)
  have c: "(let (r, s') = createContract c now s
          in contract_id r = contractCurrentId s \<and> contractCurrentId s' = contractCurrentId s + 1
             \<and> Map_get (contracts s) (contract_id r) = None
             \<and> contracts s' = contracts s @ [(contract_id r, r)])"
    using fresh(2) by (simp add: createContract_def Let_def Map_set_fresh Map_get_None_iff)
  have a: "(let (r, s') = createAlert a now s
          in alert_id r = alertCurrentId s \<and> alertCurrentId s' = alertCurrentId s + 1
             \<and> Map_get (alerts s) (alert_id r) = None \<and> alerts s' = alerts s @ [(alert_id r, r)])"
    using fresh(3) by (simp add: createAlert_def Let_def Map_set_fresh Map_get_None_iff)
  have e: "(let (r, s') = createEvent e now s
          in event_id r = eventCurrentId s \<and> eventCurrentId s' = eventCurrentId s + 1
             \<and> Map_get (events s) (event_id r) = None \<and> events s' = events s @ [(event_id r, r)])"
    using fresh(4) by (simp add: createEvent_def Let_def Map_set_fresh Map_get_None_iff)
  have q: "(let (r, s') = createAiQuery q now s
          in query_id r = aiQueryCurrentId s \<and> aiQueryCurrentId s' = aiQueryCurrentId s + 1
             \<and> Map_get (aiQueries s) (query_id r) = None
             \<and> aiQueries s' = aiQueries s @ [(query_id r, r)])"
    using fresh(5) by (simp add: createAiQuery_def Let_def Map_set_fresh Map_get_None_iff)
  note run = run_ops_bounds[OF assms, of ops k]
  have sorted: "sorted_wrt (<) (assigned_ids k ops s)" using run by simp
  have dist: "distinct (assigned_ids k ops s)"
    using sorted by (simp add: strict_sorted_iff)
  note new = MemStorage_new_inv[of env' t1 t2 t3]
  note reached = server_store_inv[of reqs env' lib clk rnd net]
  show ?thesis using u c a e q run sorted dist new reached by blast
qed

theorem create_assigns_fresh_increasing_ids_witness:
  "store_inv example_store
   \<and> assigned_ids AlertKind example_ops example_store = [1, 2, 3]
   \<and> sorted_wrt (<) (assigned_ids AlertKind example_ops example_store)
   \<and> distinct (assigned_ids AlertKind example_ops example_store)
   \<and> entries AlertKind (snd (run_ops example_ops example_store)) = 3"
  using create_assigns_fresh_increasing_ids[OF example_store_inv, of _ _ _ _ _ _ AlertKind example_ops]
    example_store_inv example_assigned
  by (simp add: example_store_def MemStorage_new_def initGuardianContracts_def
      createContract_def Let_def)

text \<open>
  Claim C4. The claim says that a started monitor runs exactly two timers and that
  \<open>stop\<close> cancels both. The code on a run where it does not: the server has an API
  key, so the \<open>start\<close> that \<open>registerRoutes\<close> calls waits for the response to its
  request with \<open>isRunning\<close> still false. A \<open>POST /api/monitor/start\<close> that comes now
  passes both guards and starts the monitor a second time. When the two responses have
  arrived, four timers are set, two for the security checks and two for the AI analysis,
  and the monitor holds the handles of the last two only; \<open>stop\<close> clears these two, and
  the first two stay set while the monitor is stopped. When the same request comes after
  the response, two timers are set and \<open>stop\<close> clears both.
\<close>

theorem overlapping_starts_leave_timers:
  "truthy_string (GROQ_API_KEY (env (the_system example_server)))
   \<and> waiting example_server = [(0, StartCall)]
   \<and> \<not> isActive example_server
   \<and> timers (serve overlapping_starts example_server)
       = [(1, 1800000, RunSecurityChecks), (2, 7200000, RunAIAnalysis),
          (3, 1800000, RunSecurityChecks), (4, 7200000, RunAIAnalysis)]
   \<and> monitorService (serve overlapping_starts example_server)
       = \<lparr>isRunning = True, checkInterval = Some 3, analysisInterval = Some 4\<rparr>
   \<and> \<not> monitor_inv (serve overlapping_starts example_server)
   \<and> timers (serve (overlapping_starts @ [PostMonitorStop]) example_server)
       = [(1, 1800000, RunSecurityChecks), (2, 7200000, RunAIAnalysis)]
   \<and> \<not> isRunning (monitorService (serve (overlapping_starts @ [PostMonitorStop]) example_server))
   \<and> timers (serve starts_in_turn example_server)
       = [(1, 1800000, RunSecurityChecks), (2, 7200000, RunAIAnalysis)]
   \<and> timers (serve (starts_in_turn @ [PostMonitorStop]) example_server) = []"
proof -
  have key: "truthy_string (GROQ_API_KEY example_env)"
    by (simp add: example_env_def GROQ_API_KEY_def or_else_def truthy_string_def)
  note overlap = overlapping_starts_run[OF key, of example_ethers "\<lambda>k. 1000 + int k" "\<lambda>k. 0"
      "answers example_analysis"]
  note turn = starts_in_turn_run[OF key, of example_ethers "\<lambda>k. 1000 + int k" "\<lambda>k. 0"
      "answers example_analysis"]
  have env: "env (the_system example_server) = example_env"
    using overlap by (simp add: example_server_def example_world_def)
  have four: "monitorService (serve overlapping_starts example_server)
       = \<lparr>isRunning = True, checkInterval = Some 3, analysisInterval = Some 4\<rparr>"
      "timers (serve overlapping_starts example_server)
       = [(1, 1800000, RunSecurityChecks), (2, 7200000, RunAIAnalysis),
          (3, 1800000, RunSecurityChecks), (4, 7200000, RunAIAnalysis)]"
    using overlap by (simp_all add: example_server_def example_world_def overlapping_starts_def)
  have broken: "\<not> monitor_inv (serve overlapping_starts example_server)"
    using four by (simp add: monitor_inv_def)
  show ?thesis
    using overlap turn four broken
    by (simp add: env key example_server_def example_world_def overlapping_starts_def
        starts_in_turn_def)
qed

text \<open>
  Claim C5, as amended. \<open>createAlert\<close>, \<open>createEvent\<close> and \<open>createAiQuery\<close> always
  return: they store the entity under the next id with the \<open>contractId\<close> they were
  given and every required field as given, whatever the contracts map holds (the result
  is the same for every contracts map, so also when no contract has that id). An
  optional field that is absent or falsy is stored as its default: an empty
  \<open>aiAnalysis\<close> or \<open>response\<close> as \<open>null\<close>, an absent \<open>resolved\<close> as false, an absent
  \<open>tokenCount\<close> as 0.
\<close>

theorem creates_do_not_check_contract:
  "fst (createAlert a now s) =
      \<lparr>alert_id = alertCurrentId s,
       alert_contractId = ins_alert_contractId a,
       alert_severity = ins_alert_severity a,
       alert_title = ins_alert_title a,
       alert_description = ins_alert_description a,
       alert_aiAnalysis = (if ins_alert_aiAnalysis a = Some [] then None else ins_alert_aiAnalysis a),
       alert_createdAt = now,
       alert_resolved = (ins_alert_resolved a = Some True)\<rparr>
   \<and> Map_get (alerts (snd (createAlert a now s))) (alertCurrentId s) = Some (fst (createAlert a now s))
   \<and> contracts (snd (createAlert a now s)) = contracts s
   \<and> fst (createAlert a now (s\<lparr>contracts := cs\<rparr>)) = fst (createAlert a now s)
   \<and> alerts (snd (createAlert a now (s\<lparr>contracts := cs\<rparr>))) = alerts (snd (createAlert a now s))
   \<and> fst (createEvent e now s) =
      \<lparr>event_id = eventCurrentId s,
       event_contractId = ins_event_contractId e,
       event_eventName = ins_event_eventName e,
       event_blockNumber = ins_event_blockNumber e,
       event_transactionHash = ins_event_transactionHash e,
       event_eventData = ins_event_eventData e,
       event_timestamp = now\<rparr>
   \<and> Map_get (events (snd (createEvent e now s))) (eventCurrentId s) = Some (fst (createEvent e now s))
   \<and> contracts (snd (createEvent e now s)) = contracts s
   \<and> fst (createEvent e now (s\<lparr>contracts := cs\<rparr>)) = fst (createEvent e now s)
   \<and> events (snd (createEvent e now (s\<lparr>contracts := cs\<rparr>))) = events (snd (createEvent e now s))
   \<and> fst (createAiQuery q now s) =
      \<lparr>query_id = aiQueryCurrentId s,
       query_contractId = ins_query_contractId q,
       query_query = ins_query_query q,
       query_response = (if ins_query_response q = Some [] then None else ins_query_response q),
       query_tokenCount = Some (case ins_query_tokenCount q of None \<Rightarrow> 0 | Some n \<Rightarrow> n),
       query_createdAt = now\<rparr>
   \<and> Map_get (aiQueries (snd (createAiQuery q now s))) (aiQueryCurrentId s)
       = Some (fst (createAiQuery q now s))
   \<and> contracts (snd (createAiQuery q now s)) = contracts s
   \<and> fst (createAiQuery q now (s\<lparr>contracts := cs\<rparr>)) = fst (createAiQuery q now s)
   \<and> aiQueries (snd (createAiQuery q now (s\<lparr>contracts := cs\<rparr>)))
       = aiQueries (snd (createAiQuery q now s))"
proof -
  have alert: "fst (createAlert a now s) =
      \<lparr>alert_id = alertCurrentId s,
       alert_contractId = ins_alert_contractId a,
       alert_severity = ins_alert_severity a,
       alert_title = ins_alert_title a,
       alert_description = ins_alert_description a,
       alert_aiAnalysis = (if ins_alert_aiAnalysis a = Some [] then None else ins_alert_aiAnalysis a),
       alert_createdAt = now,
       alert_resolved = (ins_alert_resolved a = Some True)\<rparr>"
    by (cases "ins_alert_aiAnalysis a"; cases "ins_alert_resolved a")
       (simp_all add: createAlert_def Let_def or_null_def or_else_def truthy_string_def
          truthy_boolean_def)
  have query: "fst (createAiQuery q now s) =
      \<lparr>query_id = aiQueryCurrentId s,
       query_contractId = ins_query_contractId q,
       query_query = ins_query_query q,
       query_response = (if ins_query_response q = Some [] then None else ins_query_response q),
       query_tokenCount = Some (case ins_query_tokenCount q of None \<Rightarrow> 0 | Some n \<Rightarrow> n),
       query_createdAt = now\<rparr>"
    by (cases "ins_query_response q"; cases "ins_query_tokenCount q")
       (simp_all add: createAiQuery_def Let_def or_null_def or_else_def truthy_string_def
          truthy_number_def)
  have rest: "Map_get (alerts (snd (createAlert a now s))) (alertCurrentId s) = Some (fst (createAlert a now s))
   \<and> contracts (snd (createAlert a now s)) = contracts s
   \<and> fst (createAlert a now (s\<lparr>contracts := cs\<rparr>)) = fst (createAlert a now s)
   \<and> alerts (snd (createAlert a now (s\<lparr>contracts := cs\<rparr>))) = alerts (snd (createAlert a now s))"
    by (simp add: createAlert_def Let_def Map_get_set)
  have event: "fst (createEvent e now s) =
      \<lparr>event_id = eventCurrentId s,
       event_contractId = ins_event_contractId e,
       event_eventName = ins_event_eventName e,
       event_blockNumber = ins_event_blockNumber e,
       event_transactionHash = ins_event_transactionHash e,
       event_eventData = ins_event_eventData e,
       event_timestamp = now\<rparr>
   \<and> Map_get (events (snd (createEvent e now s))) (eventCurrentId s) = Some (fst (createEvent e now s))
   \<and> contracts (snd (createEvent e now s)) = contracts s
   \<and> fst (createEvent e now (s\<lparr>contracts := cs\<rparr>)) = fst (createEvent e now s)
   \<and> events (snd (createEvent e now (s\<lparr>contracts := cs\<rparr>))) = events (snd (createEvent e now s))"
    by (simp add: createEvent_def Let_def Map_get_set)
  have qrest: "Map_get (aiQueries (snd (createAiQuery q now s))) (aiQueryCurrentId s)
       = Some (fst (createAiQuery q now s))
   \<and> contracts (snd (createAiQuery q now s)) = contracts s
   \<and> fst (createAiQuery q now (s\<lparr>contracts := cs\<rparr>)) = fst (createAiQuery q now s)
   \<and> aiQueries (snd (createAiQuery q now (s\<lparr>contracts := cs\<rparr>)))
       = aiQueries (snd (createAiQuery q now s))"
    by (simp add: createAiQuery_def Let_def Map_get_set)
  show ?thesis
    by (intro conjI alert query
          rest[THEN conjunct1] rest[THEN conjunct2, THEN conjunct1]
          rest[THEN conjunct2, THEN conjunct2, THEN conjunct1]
          rest[THEN conjunct2, THEN conjunct2, THEN conjunct2]
          event[THEN conjunct1] event[THEN conjunct2, THEN conjunct1]
          event[THEN conjunct2, THEN conjunct2, THEN conjunct1]
          event[THEN conjunct2, THEN conjunct2, THEN conjunct2, THEN conjunct1]
          event[THEN conjunct2, THEN conjunct2, THEN conjunct2, THEN conjunct2]
          qrest[THEN conjunct1] qrest[THEN conjunct2, THEN conjunct1]
          qrest[THEN conjunct2, THEN conjunct2, THEN conjunct1]
          qrest[THEN conjunct2, THEN conjunct2, THEN conjunct2])
qed

theorem creates_do_not_check_contract_witness:
  "Map_get (contracts example_store) 999 = None
   \<and> alert_contractId (fst (createAlert orphan_alert 5000 example_store)) = 999
   \<and> alert_id (fst (createAlert orphan_alert 5000 example_store)) = 1
   \<and> Map_get (alerts (snd (createAlert orphan_alert 5000 example_store))) 1
       = Some (fst (createAlert orphan_alert 5000 example_store))"
proof -
  have c: "alertCurrentId example_store = 1" by code_simp
  show ?thesis
    using creates_do_not_check_contract[where a = orphan_alert and now = 5000 and s = example_store]
      orphan_contract_missing
    by (simp add: c orphan_alert_def)
qed

text \<open>
  The claim as stated fails on an optional field that is given but falsy: an alert with
  the empty string as \<open>aiAnalysis\<close> is stored with \<open>aiAnalysis\<close> \<open>null\<close>, so the entity
  is not inserted unchanged.
\<close>

theorem createAlert_unchanged_counterexample:
  "Map_get (contracts example_store) 999 = None
   \<and> ins_alert_contractId orphan_alert = 999
   \<and> ins_alert_aiAnalysis orphan_alert = Some []
   \<and> alert_aiAnalysis (fst (createAlert orphan_alert 5000 example_store)) = None
   \<and> alert_aiAnalysis (fst (createAlert orphan_alert 5000 example_store))
       \<noteq> ins_alert_aiAnalysis orphan_alert"
  using orphan_contract_missing
  by (simp add: orphan_alert_def createAlert_def Let_def or_null_def truthy_string_def)

text \<open>
  Claim C6. \<open>createContract\<close> on a well-formed store returns a contract whose status is
  \<open>HEALTHY\<close> when the insert record has no status (a status that is given and not
  empty is kept), whose \<open>abi\<close> is \<open>null\<close> when the insert record has none, whose id is
  the contract counter, an id that no stored contract has, and whose \<open>addedAt\<close> is the
  time of the call; name, address and type are as given and the contract is stored under
  its id. The statuses in use are \<open>HEALTHY\<close>, \<open>WARNING\<close> and \<open>ALERT\<close>: the three
  contracts of a new store have one each, and in every state the server reaches, by any
  sequence of requests, timer events and responses of the network, every stored
  contract's status is one of them.
\<close>

theorem createContract_defaults_and_statuses:
  assumes "store_inv s"
  shows "(let (c, s') = createContract ic now s
          in (ins_contract_status ic = None \<longrightarrow> contract_status c = ''HEALTHY'')
             \<and> (\<forall>status. ins_contract_status ic = Some status \<and> status \<noteq> []
                   \<longrightarrow> contract_status c = status)
             \<and> (ins_contract_abi ic = None \<longrightarrow> contract_abi c = None)
             \<and> contract_id c = contractCurrentId s
             \<and> contract_id c \<notin> set (Map_keys (contracts s))
             \<and> contract_id c \<notin> set (map contract_id (getContracts s))
             \<and> contract_addedAt c = now
             \<and> contract_name c = ins_contract_name ic
             \<and> contract_address c = ins_contract_address ic
             \<and> contract_type c = ins_contract_type ic
             \<and> Map_get (contracts s') (contract_id c) = Some c)
       \<and> map contract_status (getContracts (MemStorage_new e t1 t2 t3))
           = [''HEALTHY'', ''WARNING'', ''ALERT'']
       \<and> statuses_known
            (storage (the_system (serve reqs (registerRoutes (initial_world e lib clk rnd net)))))"
proof -
  have fresh: "contractCurrentId s \<notin> set (Map_keys (contracts s))"
    using store_inv_fresh(2)[OF assms] .
  have ids: "map contract_id (getContracts s) = Map_keys (contracts s)"
    using assms by (simp add: store_inv_def Map_wf_def getContracts_def)
  have created: "(let (c, s') = createContract ic now s
          in (ins_contract_status ic = None \<longrightarrow> contract_status c = ''HEALTHY'')
             \<and> (\<forall>status. ins_contract_status ic = Some status \<and> status \<noteq> []
                   \<longrightarrow> contract_status c = status)
             \<and> (ins_contract_abi ic = None \<longrightarrow> contract_abi c = None)
             \<and> contract_id c = contractCurrentId s
             \<and> contract_id c \<notin> set (Map_keys (contracts s))
             \<and> contract_id c \<notin> set (map contract_id (getContracts s))
             \<and> contract_addedAt c = now
             \<and> contract_name c = ins_contract_name ic
             \<and> contract_address c = ins_contract_address ic
             \<and> contract_type c = ins_contract_type ic
             \<and> Map_get (contracts s') (contract_id c) = Some c)"
    using fresh
    by (simp add: createContract_def Let_def ids Map_get_set or_else_def or_null_def
        truthy_string_def)
  have known: "statuses_known
            (storage (the_system (serve reqs (registerRoutes (initial_world e lib clk rnd net)))))"
    using server_contracts_inv[of reqs e lib clk rnd net] by (simp add: contracts_inv_def)
  show ?thesis by (rule conjI[OF created conjI[OF MemStorage_new_statuses known]])
qed

theorem createContract_defaults_and_statuses_witness:
  "store_inv example_store
   \<and> ins_contract_status (twin_contract ''Vault'' ''0x01'') = None
   \<and> contract_status (fst (createContract (twin_contract ''Vault'' ''0x01'') 3000 example_store))
       = ''HEALTHY''
   \<and> contract_abi (fst (createContract (twin_contract ''Vault'' ''0x01'') 3000 example_store)) = None
   \<and> contract_id (fst (createContract (twin_contract ''Vault'' ''0x01'') 3000 example_store)) = 4
   \<and> contract_addedAt (fst (createContract (twin_contract ''Vault'' ''0x01'') 3000 example_store))
       = 3000"
proof -
  have none: "ins_contract_status (twin_contract ''Vault'' ''0x01'') = None"
      "ins_contract_abi (twin_contract ''Vault'' ''0x01'') = None"
    by (simp_all add: twin_contract_def)
  show ?thesis
    using createContract_defaults_and_statuses[OF example_store_inv,
        where ic = "twin_contract ''Vault'' ''0x01''" and now = 3000]
      example_store_inv none example_store_counter
    by (simp add: split_def Let_def)
qed


text \<open>
  Claim C8. \<open>resolveAlert id\<close> on a store that has no alert under \<open>id\<close> returns
  \<open>undefined\<close> and leaves the whole store as it is. Otherwise it returns the alert with
  \<open>resolved\<close> set to true and every other field as before, stores it under \<open>id\<close>,
  leaves every other alert, the order of the alerts, the users, contracts, events and AI
  queries and all five counters unchanged.
\<close>

theorem resolveAlert_frame:
  "(case Map_get (alerts s) i of
      None \<Rightarrow> resolveAlert i s = (None, s)
    | Some a \<Rightarrow>
        (let r = a\<lparr>alert_resolved := True\<rparr>; s' = snd (resolveAlert i s)
         in fst (resolveAlert i s) = Some r
            \<and> Map_get (alerts s') i = Some r
            \<and> alert_resolved r
            \<and> alert_id r = alert_id a \<and> alert_contractId r = alert_contractId a
            \<and> alert_severity r = alert_severity a \<and> alert_title r = alert_title a
            \<and> alert_description r = alert_description a
            \<and> alert_aiAnalysis r = alert_aiAnalysis a \<and> alert_createdAt r = alert_createdAt a
            \<and> (\<forall>k. k \<noteq> i \<longrightarrow> Map_get (alerts s') k = Map_get (alerts s) k)
            \<and> Map_keys (alerts s') = Map_keys (alerts s)
            \<and> users s' = users s \<and> contracts s' = contracts s
            \<and> events s' = events s \<and> aiQueries s' = aiQueries s
            \<and> userCurrentId s' = userCurrentId s \<and> contractCurrentId s' = contractCurrentId s
            \<and> alertCurrentId s' = alertCurrentId s \<and> eventCurrentId s' = eventCurrentId s
            \<and> aiQueryCurrentId s' = aiQueryCurrentId s))"
proof (cases "Map_get (alerts s) i")
  case None
  then show ?thesis by (simp add: resolveAlert_def)
next
  case (Some a)
  then show ?thesis
    by (simp add: resolveAlert_def Let_def Map_get_set Map_keys_set_get)
qed

theorem resolveAlert_frame_witness:
  "map_option alert_resolved (Map_get (alerts example_alert_store) 2) = Some False
   \<and> map_option alert_resolved (fst (resolveAlert 2 example_alert_store)) = Some True
   \<and> Map_get (alerts (snd (resolveAlert 2 example_alert_store))) 3
       = Map_get (alerts example_alert_store) 3
   \<and> Map_keys (alerts (snd (resolveAlert 2 example_alert_store))) = [1, 2, 3]
   \<and> resolveAlert 99 example_alert_store = (None, example_alert_store)"
proof -
  obtain a where a: "Map_get (alerts example_alert_store) 2 = Some a"
    using example_alert_store_second by (cases "Map_get (alerts example_alert_store) 2") auto
  have found: "map_option alert_resolved (fst (resolveAlert 2 example_alert_store)) = Some True
     \<and> Map_get (alerts (snd (resolveAlert 2 example_alert_store))) 3
         = Map_get (alerts example_alert_store) 3
     \<and> Map_keys (alerts (snd (resolveAlert 2 example_alert_store)))
         = Map_keys (alerts example_alert_store)"
    using resolveAlert_frame[where s = example_alert_store and i = 2] by (simp add: a Let_def)
  have missing: "resolveAlert 99 example_alert_store = (None, example_alert_store)"
    using resolveAlert_frame[where s = example_alert_store and i = 99]
    by (simp add: example_alert_store_missing)
  show ?thesis
    using found missing example_alert_store_second example_alert_store_keys by simp
qed

text \<open>
  Claim C9, as amended. \<open>getContractByAddress\<close> returns the first stored contract, in
  insertion order, whose address equals the query after \<open>toLowerCase\<close>: the contract at
  the least position of the contracts whose address matches. So for a query equal to a
  stored contract's address up to ASCII letter case it returns the contract at the least
  matching position, which is that very contract when no other stored contract has an
  address matching it; it returns \<open>undefined\<close> exactly when no stored address matches
  under lower-case comparison.
\<close>

theorem getContractByAddress_first_match:
  assumes "c \<in> set (Map_values (contracts s))" "eq_up_to_ascii_case q (contract_address c)"
  shows "(\<exists>i < length (Map_values (contracts s)).
            getContractByAddress q s = Some (Map_values (contracts s) ! i)
            \<and> toLowerCase (contract_address (Map_values (contracts s) ! i)) = toLowerCase q
            \<and> (\<forall>j < i. toLowerCase (contract_address (Map_values (contracts s) ! j))
                         \<noteq> toLowerCase q))
       \<and> ((\<forall>c' \<in> set (Map_values (contracts s)).
              toLowerCase (contract_address c') = toLowerCase (contract_address c) \<longrightarrow> c' = c)
            \<longrightarrow> getContractByAddress q s = Some c)
       \<and> (\<forall>c'. getContractByAddress q' s = Some c'
            \<longleftrightarrow> (\<exists>i < length (Map_values (contracts s)).
                   c' = Map_values (contracts s) ! i
                   \<and> toLowerCase (contract_address (Map_values (contracts s) ! i)) = toLowerCase q'
                   \<and> (\<forall>j < i. toLowerCase (contract_address (Map_values (contracts s) ! j))
                                \<noteq> toLowerCase q')))
       \<and> (getContractByAddress q' s = None
            \<longleftrightarrow> (\<forall>c' \<in> set (Map_values (contracts s)).
                   toLowerCase (contract_address c') \<noteq> toLowerCase q'))"
proof -
  let ?P = "\<lambda>contract. toLowerCase (contract_address contract) = toLowerCase q"
  let ?cs = "Map_values (contracts s)"
  have low: "?P c"
    using eq_up_to_ascii_case_toLowerCase[OF assms(2)] by simp
  have some: "\<forall>c'. getContractByAddress q' s = Some c'
            \<longleftrightarrow> (\<exists>i < length ?cs. c' = ?cs ! i
                   \<and> toLowerCase (contract_address (?cs ! i)) = toLowerCase q'
                   \<and> (\<forall>j < i. toLowerCase (contract_address (?cs ! j)) \<noteq> toLowerCase q'))" for q'
    unfolding getContractByAddress_def find_Some_iff by blast
  obtain c' where found: "getContractByAddress q s = Some c'"
    using find_first_match[of c ?cs ?P, OF assms(1) low] unfolding getContractByAddress_def by blast
  have first: "\<exists>i < length ?cs.
            getContractByAddress q s = Some (?cs ! i)
            \<and> toLowerCase (contract_address (?cs ! i)) = toLowerCase q
            \<and> (\<forall>j < i. toLowerCase (contract_address (?cs ! j)) \<noteq> toLowerCase q)"
  proof -
    obtain i where i: "i < length ?cs" "c' = ?cs ! i"
        "toLowerCase (contract_address (?cs ! i)) = toLowerCase q"
        "\<forall>j < i. toLowerCase (contract_address (?cs ! j)) \<noteq> toLowerCase q"
      using some[of q] found by blast
    show ?thesis using i found by blast
  qed
  have uniq: "(\<forall>c' \<in> set ?cs.
              toLowerCase (contract_address c') = toLowerCase (contract_address c) \<longrightarrow> c' = c)
            \<longrightarrow> getContractByAddress q s = Some c"
  proof
    assume "\<forall>c' \<in> set ?cs.
              toLowerCase (contract_address c') = toLowerCase (contract_address c) \<longrightarrow> c' = c"
    then have "\<forall>c' \<in> set ?cs. ?P c' \<longrightarrow> c' = c" using low by metis
    then show "getContractByAddress q s = Some c"
      unfolding getContractByAddress_def
      using find_unique_match[of c ?cs ?P, OF assms(1) low] by blast
  qed
  have none: "getContractByAddress q' s = None
            \<longleftrightarrow> (\<forall>c' \<in> set ?cs. toLowerCase (contract_address c') \<noteq> toLowerCase q')"
    unfolding getContractByAddress_def find_None_iff by blast
  show ?thesis by (rule conjI[OF first conjI[OF uniq conjI[OF some none]]])
qed

theorem getContractByAddress_first_match_witness:
  "(\<exists>c \<in> set (Map_values (contracts twin_store)).
      contract_name c = ''Second'' \<and> eq_up_to_ascii_case ''0xab'' (contract_address c))
   \<and> map_option contract_name (getContractByAddress ''0xab'' twin_store) = Some ''First''
   \<and> map_option contract_address (getContractByAddress ''0xab'' twin_store) = Some ''0xAB''
   \<and> getContractByAddress ''0xffff'' twin_store = None"
proof -
  let ?cs = "Map_values (contracts twin_store)"
  obtain c where c: "c \<in> set ?cs"
      "contract_name c = ''Second''" "contract_address c = ''0xab''"
    using twin_second_stored by blast
  have eq: "eq_up_to_ascii_case ''0xab'' (contract_address c)"
    unfolding c(3) by code_simp
  note inst = getContractByAddress_first_match[OF c(1) eq, of "''0xab''"]
  have len: "3 < length ?cs" using twin_first_at by simp
  have m: "toLowerCase (contract_address (?cs ! 3)) = toLowerCase ''0xab''"
    using twin_first_at by (simp only:) code_simp
  have before: "\<forall>j < 3. toLowerCase (contract_address (?cs ! j)) \<noteq> toLowerCase ''0xab''"
    using twin_none_before len by (simp add: list_all_length)
  have "getContractByAddress ''0xab'' twin_store = Some (?cs ! 3)"
    using inst len m before by blast
  then have first: "map_option contract_name (getContractByAddress ''0xab'' twin_store) = Some ''First''"
      "map_option contract_address (getContractByAddress ''0xab'' twin_store) = Some ''0xAB''"
    using twin_first_at by simp_all
  have none: "getContractByAddress ''0xffff'' twin_store = None" by code_simp
  show ?thesis using c eq first none by blast
qed

text \<open>
  The claim as stated fails where two stored contracts have addresses that differ in
  letter case only (the store does not keep addresses unique): the contract stored
  second has exactly the address asked for, and the lookup returns the first.
\<close>

theorem getContractByAddress_counterexample:
  "\<not> (\<forall>c \<in> set (Map_values (contracts twin_store)).
         \<forall>q. eq_up_to_ascii_case q (contract_address c)
              \<longrightarrow> getContractByAddress q twin_store = Some c)"
proof
  assume all: "\<forall>c \<in> set (Map_values (contracts twin_store)).
         \<forall>q. eq_up_to_ascii_case q (contract_address c)
              \<longrightarrow> getContractByAddress q twin_store = Some c"
  obtain c where c: "c \<in> set (Map_values (contracts twin_store))"
      "contract_name c = ''Second''" "contract_address c = ''0xab''"
    using twin_second_stored by blast
  have "eq_up_to_ascii_case ''0xab'' (contract_address c)"
    unfolding c(3) eq_up_to_ascii_case_def by (rule refl)
  then have "getContractByAddress ''0xab'' twin_store = Some c" using all c(1) by blast
  then have "map_option contract_name (getContractByAddress ''0xab'' twin_store) = Some ''Second''"
    using c(2) by simp
  then show False unfolding twin_lookup by simp
qed

text \<open>
  Claim C10. \<open>getEvents\<close> without a limit returns all stored events, sorted by
  time stamp with the newest first (events with the same time stamp stay in insertion
  order); with a positive limit \<open>n\<close> it returns the first \<open>n\<close> of that list, so at
  most \<open>n\<close> events; the limit 0 is read as no limit and returns all events.
\<close>

theorem getEvents_newest_first_limited:
  "sorted_wrt (\<lambda>a b. event_timestamp a \<ge> event_timestamp b) (getEvents None s)
   \<and> mset (getEvents None s) = mset (Map_values (events s))
   \<and> filter (\<lambda>e. event_timestamp e = t) (getEvents None s)
       = filter (\<lambda>e. event_timestamp e = t) (Map_values (events s))
   \<and> (0 < n \<longrightarrow> getEvents (Some n) s = take (nat n) (getEvents None s)
                \<and> int (length (getEvents (Some n) s)) \<le> n)
   \<and> getEvents (Some 0) s = getEvents None s
   \<and> length (getEvents (Some 0) s) = length (events s)"
proof -
  have len: "length (Array_sort by_timestamp_desc (Map_values (events s))) = length (events s)"
    using Array_sort_mset[of by_timestamp_desc "Map_values (events s)"]
    by (metis Map_values_def length_map size_mset)
  show ?thesis
    by (auto simp: getEvents_def Let_def truthy_number_def Array_sort_timestamp_sorted
        Array_sort_mset Array_sort_timestamp_stable Array_slice0_positive len)
qed

theorem getEvents_newest_first_limited_witness:
  "(0::int) < 2
   \<and> map event_id (getEvents (Some 2) example_event_store) = [2, 3]
   \<and> map event_id (getEvents (Some 0) example_event_store) = [2, 3, 1]
   \<and> sorted_wrt (\<lambda>a b. event_timestamp a \<ge> event_timestamp b) (getEvents None example_event_store)"
proof -
  have pos: "(0::int) < 2" by simp
  note inst = getEvents_newest_first_limited[of example_event_store 0 2]
  have lim: "getEvents (Some 2) example_event_store = take 2 (getEvents None example_event_store)"
    using inst pos by simp
  have zero: "getEvents (Some 0) example_event_store = getEvents None example_event_store"
    using inst by simp
  have "map event_id (take 2 (getEvents None example_event_store)) = [2, 3]"
    using example_getEvents by (simp add: take_map[symmetric])
  then show ?thesis using inst lim zero example_getEvents by simp
qed

end
